theory Spec2Isabelle
  imports Complex_Main "HOL-Library.AList"
begin


section \<open>JavaScript values as server.js handles them\<close>

text \<open>
  server.js keeps no typed records: everything it stores, receives and answers is a value
  produced by \<^verbatim>\<open>JSON.parse\<close> or built by an object literal. The embedding therefore
  works on JavaScript values.

  \<^item> A number is a finite value (a rational here; \<open>-0\<close> is identified with \<open>0\<close>, which
    \<^verbatim>\<open>===\<close>, truthiness and \<^verbatim>\<open>JSON.stringify\<close> cannot tell apart) or one of
    \<open>NaN\<close>, \<open>Infinity\<close>, \<open>-Infinity\<close>, which only \<^verbatim>\<open>Number(...)\<close> can produce.
  \<^item> An object is the list of its own properties in insertion order.
  \<^item> An array is the list of its elements, together with the named properties that
    an assignment such as \<^verbatim>\<open>arr.id = ...\<close> adds to it (empty after \<^verbatim>\<open>JSON.parse\<close>).
  \<^item> \<open>getp\<close> and \<open>setp\<close> read and write own properties. For the names server.js
    writes in its text (\<^verbatim>\<open>id\<close>, \<^verbatim>\<open>petId\<close>, \<^verbatim>\<open>code\<close>, ...) an object has nothing
    else to offer, as long as \<^verbatim>\<open>Object.prototype\<close> has not been given such a property. The
    one read by a name the caller chooses is \<^verbatim>\<open>data.tenants[uid]\<close>; what it inherits, and
    what the server then leaves on the built-in objects, is the subject of the section on
    built-in objects below.
  \<^item> An array is read by its named properties only. No route reads an array by an index
    name or by \<^verbatim>\<open>length\<close> except through \<^verbatim>\<open>data.tenants[uid]\<close> when the file holds an
    array under \<^verbatim>\<open>tenants\<close>, which \<open>serve\<close> leaves aside.
\<close>

datatype jsnum = Fin rat | NaN | PosInf | NegInf

datatype jsval =
    JUndefined
  | JNull
  | JBool bool
  | JNum jsnum
  | JStr string
  | JArr "jsval list" "(string \<times> jsval) list"
  | JObj "(string \<times> jsval) list"

text \<open>
  What the \<^verbatim>\<open>try { ... } catch (err)\<close> around every route can catch: the two built-in
  errors the handlers can raise, and \<^verbatim>\<open>new Error(msg)\<close> from \<^verbatim>\<open>parseBody\<close>.
\<close>

datatype exn = TypeError | RangeError | Error string

text \<open>\<^verbatim>\<open>!x\<close>, \<^verbatim>\<open>x && y\<close>, \<^verbatim>\<open>x || y\<close>, \<^verbatim>\<open>x ? a : b\<close> test \<open>truthy x\<close>.\<close>

fun truthy :: "jsval \<Rightarrow> bool" where
  "truthy JUndefined = False"
| "truthy JNull = False"
| "truthy (JBool b) = b"
| "truthy (JNum n) = (n \<noteq> Fin 0 \<and> n \<noteq> NaN)"
| "truthy (JStr s) = (s \<noteq> [])"
| "truthy (JArr xs ps) = True"
| "truthy (JObj kvs) = True"

text \<open>\<^verbatim>\<open>a || b\<close> as a value.\<close>

definition js_or :: "jsval \<Rightarrow> jsval \<Rightarrow> jsval" where
  "js_or a b = (if truthy a then a else b)"

fun nullish :: "jsval \<Rightarrow> bool" where
  "nullish JUndefined = True"
| "nullish JNull = True"
| "nullish v = False"

text \<open>
  \<^verbatim>\<open>a === b\<close>. Two objects (or arrays) are equal only when they are the same
  reference; in every comparison of server.js one operand comes from the stored file and
  the other from the request (or from \<^verbatim>\<open>genId\<close>), so two objects never are.
\<close>

fun strict_eq :: "jsval \<Rightarrow> jsval \<Rightarrow> bool" where
  "strict_eq JUndefined JUndefined = True"
| "strict_eq JNull JNull = True"
| "strict_eq (JBool a) (JBool b) = (a = b)"
| "strict_eq (JNum a) (JNum b) = (a \<noteq> NaN \<and> a = b)"
| "strict_eq (JStr a) (JStr b) = (a = b)"
| "strict_eq a b = False"

text \<open>A value that is neither an object nor an array.\<close>

fun is_primitive :: "jsval \<Rightarrow> bool" where
  "is_primitive (JArr xs ps) = False"
| "is_primitive (JObj kvs) = False"
| "is_primitive v = True"

text \<open>
  \<^verbatim>\<open>x.k\<close> on a value that is not null or undefined (also \<^verbatim>\<open>x?.k\<close> on any value):
  a missing property reads as \<^verbatim>\<open>undefined\<close>, and so does any property of a number,
  string or boolean.
\<close>

fun getp :: "jsval \<Rightarrow> string \<Rightarrow> jsval" where
  "getp (JObj kvs) k = (case map_of kvs k of Some v \<Rightarrow> v | None \<Rightarrow> JUndefined)"
| "getp (JArr xs ps) k = (case map_of ps k of Some v \<Rightarrow> v | None \<Rightarrow> JUndefined)"
| "getp v k = JUndefined"

text \<open>\<^verbatim>\<open>x.k\<close> where \<^verbatim>\<open>x\<close> may be null or undefined: that read throws.\<close>

definition get :: "jsval \<Rightarrow> string \<Rightarrow> exn + jsval" where
  "get v k = (if nullish v then Inl TypeError else Inr (getp v k))"

text \<open>
  \<^verbatim>\<open>x.k = v\<close> on a value that is not null or undefined. server.js is a CommonJS script
  without \<^verbatim>\<open>'use strict'\<close>, so the assignment to a property of a number, string or
  boolean is silently dropped.
\<close>

fun setp :: "jsval \<Rightarrow> string \<Rightarrow> jsval \<Rightarrow> jsval" where
  "setp (JObj kvs) k v = JObj (AList.update k v kvs)"
| "setp (JArr xs ps) k v = JArr xs (AList.update k v ps)"
| "setp x k v = x"

fun is_array :: "jsval \<Rightarrow> bool" where
  "is_array (JArr xs ps) = True"
| "is_array v = False"

text \<open>\<^verbatim>\<open>typeof x === 'object'\<close>: objects, arrays and \<^verbatim>\<open>null\<close>.\<close>

fun typeof_object :: "jsval \<Rightarrow> bool" where
  "typeof_object JNull = True"
| "typeof_object (JArr xs ps) = True"
| "typeof_object (JObj kvs) = True"
| "typeof_object v = False"

fun is_object :: "jsval \<Rightarrow> bool" where
  "is_object (JObj kvs) = True"
| "is_object v = False"

text \<open>Decimal name of an array index, for the spread of an array or a string.\<close>

fun digit_char :: "nat \<Rightarrow> char" where
  "digit_char n = char_of (48 + n)"

function index_name :: "nat \<Rightarrow> string" where
  "index_name n = (if n < 10 then [digit_char n] else index_name (n div 10) @ [digit_char (n mod 10)])"
  by pat_completeness auto
termination
  by (relation "measure id") auto

text \<open>
  The own enumerable properties \<^verbatim>\<open>{...x}\<close> copies: those of an object; the elements of
  an array under their indices, then its named properties; the characters of a string;
  nothing for the other values.
\<close>

fun own_entries :: "jsval \<Rightarrow> (string \<times> jsval) list" where
  "own_entries (JObj kvs) = kvs"
| "own_entries (JArr xs ps) = zip (map index_name [0..<length xs]) xs @ ps"
| "own_entries (JStr s) = zip (map index_name [0..<length s]) (map (\<lambda>c. JStr [c]) s)"
| "own_entries v = []"

text \<open>\<^verbatim>\<open>{...tgt-so-far, ...x}\<close>: each property of \<open>x\<close> is defined on the target in turn.\<close>

definition spread_into :: "(string \<times> jsval) list \<Rightarrow> jsval \<Rightarrow> (string \<times> jsval) list" where
  "spread_into tgt x = fold (\<lambda>(k, v). AList.update k v) (own_entries x) tgt"

text \<open>
  What \<^verbatim>\<open>JSON.parse(JSON.stringify(x))\<close> gives: properties whose value is
  \<^verbatim>\<open>undefined\<close> are left out, \<^verbatim>\<open>undefined\<close> array elements and non-finite numbers
  become \<^verbatim>\<open>null\<close>, named properties of arrays are lost. Both the durable file and every
  response body are written with \<^verbatim>\<open>JSON.stringify\<close>.
\<close>

primrec jsonify :: "jsval \<Rightarrow> jsval" where
  "jsonify JUndefined = JUndefined"
| "jsonify JNull = JNull"
| "jsonify (JBool b) = JBool b"
| "jsonify (JNum n) = (case n of Fin q \<Rightarrow> JNum (Fin q) | _ \<Rightarrow> JNull)"
| "jsonify (JStr s) = JStr s"
| "jsonify (JArr xs ps) =
     JArr (map (\<lambda>v. if v = JUndefined then JNull else v) (map jsonify xs)) []"
| "jsonify (JObj kvs) =
     JObj (filter (\<lambda>kv. snd kv \<noteq> JUndefined) (map (map_prod id jsonify) kvs))"

text \<open>The values \<^verbatim>\<open>JSON.parse\<close> can return.\<close>

primrec is_json :: "jsval \<Rightarrow> bool" where
  "is_json JUndefined = False"
| "is_json JNull = True"
| "is_json (JBool b) = True"
| "is_json (JNum n) = (case n of Fin q \<Rightarrow> True | _ \<Rightarrow> False)"
| "is_json (JStr s) = True"
| "is_json (JArr xs ps) = (ps = [] \<and> list_all (\<lambda>b. b) (map is_json xs))"
| "is_json (JObj kvs) =
     (distinct (map fst kvs) \<and> list_all snd (map (map_prod id is_json) kvs))"


section \<open>What the handlers take from the runtime\<close>

text \<open>
  The clock, the random generator and the floating-point conversions belong to Node, not
  to the repository. A request sees them as given values: the readings of
  \<^verbatim>\<open>new Date().toISOString()\<close> (the first one of the request, and the later one
  \<^verbatim>\<open>upsertDevice\<close> takes for \<^verbatim>\<open>createdAt\<close>), of \<^verbatim>\<open>Date.now().toString(36)\<close> and of
  \<^verbatim>\<open>Math.random().toString(36)\<close>, and the functions that print a number, read a number
  from a string and print a valid time value in ISO format.
\<close>

record env =
  now_iso :: string
  now_iso_later :: string
  date_now36 :: string
  random36 :: string
  num2str :: "jsnum \<Rightarrow> string"
  str2num :: "string \<Rightarrow> jsnum"
  iso_of_ms :: "int \<Rightarrow> string"

text \<open>\<^verbatim>\<open>genId\<close>: \<^verbatim>\<open>`loc_${ts}_${rnd}`\<close> with \<^verbatim>\<open>rnd = Math.random().toString(36).slice(2, 8)\<close>.\<close>

definition genId :: "env \<Rightarrow> string" where
  "genId e = ''loc_'' @ date_now36 e @ ''_'' @ take 6 (drop 2 (random36 e))"

text \<open>
  \<^verbatim>\<open>String(x)\<close>. An array prints its elements joined by commas, \<^verbatim>\<open>null\<close> and
  \<^verbatim>\<open>undefined\<close> elements as the empty string. A parsed object prints as
  \<^verbatim>\<open>[object Object]\<close>, unless it has an own property \<^verbatim>\<open>toString\<close>: that one is not a
  function, and the conversion throws.
\<close>

fun js_String :: "env \<Rightarrow> jsval \<Rightarrow> exn + string"
  and join_elems :: "env \<Rightarrow> jsval list \<Rightarrow> exn + string" where
  "js_String e JUndefined = Inr ''undefined''"
| "js_String e JNull = Inr ''null''"
| "js_String e (JBool b) = Inr (if b then ''true'' else ''false'')"
| "js_String e (JNum n) = Inr (num2str e n)"
| "js_String e (JStr s) = Inr s"
| "js_String e (JArr xs ps) = join_elems e xs"
| "js_String e (JObj kvs) =
     (if map_of kvs ''toString'' \<noteq> None then Inl TypeError else Inr ''[object Object]'')"
| "join_elems e [] = Inr []"
| "join_elems e [x] = (if nullish x then Inr [] else js_String e x)"
| "join_elems e (x # y # ys) =
     (case (if nullish x then Inr [] else js_String e x) of
        Inl err \<Rightarrow> Inl err
      | Inr s \<Rightarrow> (case join_elems e (y # ys) of
                    Inl err \<Rightarrow> Inl err
                  | Inr t \<Rightarrow> Inr (s @ '','' @ t)))"

text \<open>\<^verbatim>\<open>Number(x)\<close>; an object or array is first converted to a string.\<close>

definition js_Number :: "env \<Rightarrow> jsval \<Rightarrow> exn + jsnum" where
  "js_Number e v =
     (case v of
        JUndefined \<Rightarrow> Inr NaN
      | JNull \<Rightarrow> Inr (Fin 0)
      | JBool b \<Rightarrow> Inr (Fin (if b then 1 else 0))
      | JNum n \<Rightarrow> Inr n
      | JStr s \<Rightarrow> Inr (str2num e s)
      | _ \<Rightarrow> (case js_String e v of Inl err \<Rightarrow> Inl err | Inr s \<Rightarrow> Inr (str2num e s)))"

text \<open>
  \<^verbatim>\<open>new Date(n).toISOString()\<close> for a number \<open>n\<close>: the time value is \<open>n\<close> truncated
  towards zero; the call throws a RangeError when \<open>n\<close> is not finite or beyond
  8.64e15 milliseconds.
\<close>

definition trunc :: "rat \<Rightarrow> int" where
  "trunc q = (if 0 \<le> q then \<lfloor>q\<rfloor> else \<lceil>q\<rceil>)"

definition date_iso :: "env \<Rightarrow> jsnum \<Rightarrow> exn + string" where
  "date_iso e n =
     (case n of
        Fin q \<Rightarrow> if \<bar>q\<bar> > 8640000000000000 then Inl RangeError else Inr (iso_of_ms e (trunc q))
      | _ \<Rightarrow> Inl RangeError)"


section \<open>Built-in objects and the state of the process\<close>

text \<open>
  Every object that \<^verbatim>\<open>JSON.parse\<close> or an object literal creates inherits from
  \<^verbatim>\<open>Object.prototype\<close>: reading \<^verbatim>\<open>x[k]\<close> when \<^verbatim>\<open>x\<close> has no own property \<^verbatim>\<open>k\<close>
  gives \<^verbatim>\<open>Object.prototype[k]\<close>. Node defines twelve properties there: the accessor
  \<^verbatim>\<open>__proto__\<close>, which gives \<^verbatim>\<open>Object.prototype\<close> itself, and eleven functions.
\<close>

definition object_prototype_names :: "string list" where
  "object_prototype_names =
     [''__proto__'', ''constructor'', ''hasOwnProperty'', ''isPrototypeOf'',
      ''propertyIsEnumerable'', ''toLocaleString'', ''toString'', ''valueOf'',
      ''__defineGetter__'', ''__defineSetter__'', ''__lookupGetter__'', ''__lookupSetter__'']"

text \<open>\<open>x\<close> has an own property \<open>k\<close>.\<close>

fun has_own :: "jsval \<Rightarrow> string \<Rightarrow> bool" where
  "has_own (JObj kvs) k = (map_of kvs k \<noteq> None)"
| "has_own (JArr xs ps) k = (map_of ps k \<noteq> None)"
| "has_own v k = False"

text \<open>
  The built-in objects outlive a request, and \<^verbatim>\<open>getTenant\<close> and the routes assign
  \<^verbatim>\<open>locations\<close> and \<^verbatim>\<open>devices\<close> to whatever \<^verbatim>\<open>data.tenants[uid]\<close> is. The state of
  the process is therefore what has been assigned so far: for a built-in object, named
  as \<^verbatim>\<open>Object.prototype\<close> names it (\<^verbatim>\<open>__proto__\<close> for \<^verbatim>\<open>Object.prototype\<close> itself),
  its \<^verbatim>\<open>locations\<close> and its \<^verbatim>\<open>devices\<close>, \<^verbatim>\<open>undefined\<close> where nothing was assigned.
  No other property is ever added to a built-in object.
\<close>

type_synonym world = "(string \<times> jsval \<times> jsval) list"

text \<open>The process as Node starts it.\<close>

definition pristine :: world where
  "pristine = []"

text \<open>A built-in object, as the object of the properties the server has added to it.\<close>

definition builtin :: "world \<Rightarrow> string \<Rightarrow> jsval" where
  "builtin W n =
     (case map_of W n of
        None \<Rightarrow> JObj []
      | Some (l, d) \<Rightarrow>
          JObj ((if l = JUndefined then [] else [(''locations'', l)]) @
                (if d = JUndefined then [] else [(''devices'', d)])))"

definition put_builtin :: "world \<Rightarrow> string \<Rightarrow> jsval \<Rightarrow> world" where
  "put_builtin W n t = AList.update n (getp t ''locations'', getp t ''devices'') W"

text \<open>
  \<^verbatim>\<open>Object.prototype[k]\<close> for a name \<open>k\<close> that is not one of the twelve, and \<^verbatim>\<open>x[k]\<close>
  for such a name on a value \<open>x\<close> that is not null or undefined.
\<close>

definition inherited :: "world \<Rightarrow> string \<Rightarrow> jsval" where
  "inherited W k = getp (builtin W ''__proto__'') k"

definition member :: "world \<Rightarrow> jsval \<Rightarrow> string \<Rightarrow> jsval" where
  "member W x k = (if has_own x k then getp x k else inherited W k)"

text \<open>
  No request has assigned to \<^verbatim>\<open>Object.prototype\<close>: objects inherit neither
  \<^verbatim>\<open>locations\<close> nor \<^verbatim>\<open>devices\<close>.
\<close>

definition unpolluted :: "world \<Rightarrow> bool" where
  "unpolluted W = (builtin W ''__proto__'' = JObj [])"

text \<open>A tenant identifier that is not the name of a property of \<^verbatim>\<open>Object.prototype\<close>.\<close>

definition plain :: "string \<Rightarrow> bool" where
  "plain uid = (uid \<notin> set object_prototype_names)"

section \<open>Persistence: the durable file\<close>

text \<open>
  The content of \<^verbatim>\<open>storage/locations.json\<close>: no file, a text that \<^verbatim>\<open>JSON.parse\<close>
  rejects, or a text that parses to a value (an empty file reads as \<^verbatim>\<open>{}\<close>, by
  \<^verbatim>\<open>raw || '{}'\<close>).
\<close>

datatype content = Missing | Unparsable | Parsed jsval

definition ensureDataFile :: "content \<Rightarrow> content" where
  "ensureDataFile f =
     (case f of Missing \<Rightarrow> Parsed (JObj [(''locations'', JArr [] [])]) | _ \<Rightarrow> f)"

definition empty_store :: jsval where
  "empty_store = JObj [(''tenants'', JObj [])]"

text \<open>
  \<^verbatim>\<open>readData\<close>: the file as \<^verbatim>\<open>ensureDataFile\<close> leaves it, and the store it returns.
  \<^verbatim>\<open>json.locations\<close> and \<^verbatim>\<open>json.tenants\<close> are read on the parsed value, which
  inherits what \<^verbatim>\<open>Object.prototype\<close> has been given.
\<close>

definition readData :: "world \<Rightarrow> content \<Rightarrow> content \<times> jsval" where
  "readData W f =
     (let f' = ensureDataFile f in
      (f',
       case f' of
         Parsed json \<Rightarrow>
           if \<not> truthy json \<or> \<not> typeof_object json then empty_store
           else if is_array (member W json ''locations'') then
             JObj [(''tenants'',
               JObj [(''default'',
                 JObj [(''locations'', member W json ''locations''), (''devices'', JArr [] [])])])]
           else if \<not> truthy (member W json ''tenants'') \<or> \<not> typeof_object (member W json ''tenants'')
             then setp json ''tenants'' (JObj [])
           else json
       | _ \<Rightarrow> empty_store))"

text \<open>
  \<^verbatim>\<open>writeData\<close>: the temporary file is written and renamed over the durable one, whose
  text then parses to \<open>jsonify data\<close>.
\<close>

definition writeData :: "jsval \<Rightarrow> content \<Rightarrow> content" where
  "writeData data f = Parsed (jsonify data)"

section \<open>Tenants\<close>

text \<open>
  \<^verbatim>\<open>getTenant\<close> returns \<^verbatim>\<open>data.tenants[uid]\<close>, an alias: into \<^verbatim>\<open>data\<close> when
  \<^verbatim>\<open>data.tenants\<close> has that property itself, and else to what \<^verbatim>\<open>data.tenants\<close>
  inherits under that name, which is a built-in object when \<open>uid\<close> is one of the twelve
  names and otherwise whatever \<^verbatim>\<open>Object.prototype\<close> has been given under it. With nothing
  inherited the read gives \<^verbatim>\<open>undefined\<close>, and \<^verbatim>\<open>data.tenants[uid] = ...\<close> creates the
  property in \<^verbatim>\<open>data\<close>.
\<close>

definition new_tenant :: jsval where
  "new_tenant = JObj [(''locations'', JArr [] []), (''devices'', JArr [] [])]"

text \<open>The own property \<open>uid\<close> of \<^verbatim>\<open>data.tenants\<close>, read and written.\<close>

definition tenant_of :: "jsval \<Rightarrow> string \<Rightarrow> jsval" where
  "tenant_of data uid = getp (getp data ''tenants'') uid"

definition put_tenant :: "jsval \<Rightarrow> string \<Rightarrow> jsval \<Rightarrow> jsval" where
  "put_tenant data uid t = setp data ''tenants'' (setp (getp data ''tenants'') uid t)"

text \<open>Where \<^verbatim>\<open>data.tenants[uid]\<close> is found.\<close>

datatype cell = Entry | Builtin | Shared

definition cell_of :: "world \<Rightarrow> jsval \<Rightarrow> string \<Rightarrow> cell" where
  "cell_of W data uid =
     (if has_own (getp data ''tenants'') uid then Entry
      else if uid \<in> set object_prototype_names then Builtin
      else if truthy (inherited W uid) then Shared
      else Entry)"

text \<open>
  \<^verbatim>\<open>data.tenants[uid]\<close> read, and the object it denotes replaced by its new state: an
  assignment \<^verbatim>\<open>data.tenants[uid].k = v\<close> changes the entry in \<^verbatim>\<open>data\<close>, the built-in
  object, or the object \<^verbatim>\<open>Object.prototype\<close> holds under \<open>uid\<close>.
\<close>

definition read_cell :: "world \<Rightarrow> jsval \<Rightarrow> string \<Rightarrow> jsval" where
  "read_cell W data uid =
     (case cell_of W data uid of
        Entry \<Rightarrow> tenant_of data uid
      | Builtin \<Rightarrow> builtin W uid
      | Shared \<Rightarrow> inherited W uid)"

definition write_cell :: "world \<Rightarrow> jsval \<Rightarrow> string \<Rightarrow> jsval \<Rightarrow> world \<times> jsval" where
  "write_cell W data uid t =
     (case cell_of W data uid of
        Entry \<Rightarrow> (W, put_tenant data uid t)
      | Builtin \<Rightarrow> (put_builtin W uid t, data)
      | Shared \<Rightarrow> (put_builtin W ''__proto__'' (setp (builtin W ''__proto__'') uid t), data))"

text \<open>
  \<^verbatim>\<open>getTenant\<close>: its three \<^verbatim>\<open>if\<close>s, each on the state the one before left. The result
  is the process and the store as changed; \<open>read_cell\<close> on them is the tenant returned.
\<close>

definition getTenant :: "world \<Rightarrow> jsval \<Rightarrow> string \<Rightarrow> world \<times> jsval" where
  "getTenant W data uid =
     (let s1 = (if \<not> truthy (read_cell W data uid) then write_cell W data uid new_tenant
                else (W, data));
          t1 = read_cell (fst s1) (snd s1) uid;
          s2 = (if \<not> is_array (member (fst s1) t1 ''locations'')
                then write_cell (fst s1) (snd s1) uid (setp t1 ''locations'' (JArr [] []))
                else s1);
          t2 = read_cell (fst s2) (snd s2) uid;
          s3 = (if \<not> is_array (member (fst s2) t2 ''devices'')
                then write_cell (fst s2) (snd s2) uid (setp t2 ''devices'' (JArr [] []))
                else s2)
      in s3)"


section \<open>Requests, responses and the array methods\<close>

text \<open>
  A response is what \<^verbatim>\<open>sendJson\<close> sent, or \<open>Caught x\<close>: the \<^verbatim>\<open>catch\<close> clause of the
  server answers a thrown \<open>x\<close> with status 400 and \<^verbatim>\<open>{ error: x.message }\<close>.
\<close>

datatype response = Sent nat jsval | Caught exn

fun status :: "response \<Rightarrow> nat" where
  "status (Sent n v) = n"
| "status (Caught x) = 400"

definition sendJson :: "nat \<Rightarrow> jsval \<Rightarrow> response" where
  "sendJson n v = Sent n (jsonify v)"

definition err_body :: "string \<Rightarrow> jsval" where
  "err_body msg = JObj [(''error'', JStr msg)]"

text \<open>The raw request body: empty, not JSON, or the JSON text of a value.\<close>

datatype body = NoBody | BadBody | Body jsval

definition parseBody :: "body \<Rightarrow> exn + jsval" where
  "parseBody b =
     (case b of
        NoBody \<Rightarrow> Inr (JObj [])
      | BadBody \<Rightarrow> Inl (Error ''Invalid JSON'')
      | Body json \<Rightarrow> Inr json)"

text \<open>\<^verbatim>\<open>url.searchParams.get(name)\<close>: the string, or \<^verbatim>\<open>null\<close>.\<close>

definition qparam :: "string option \<Rightarrow> jsval" where
  "qparam q = (case q of None \<Rightarrow> JNull | Some s \<Rightarrow> JStr s)"

text \<open>Sequencing of steps that may throw.\<close>

fun bindE :: "exn + 'a \<Rightarrow> ('a \<Rightarrow> exn + 'b) \<Rightarrow> exn + 'b" where
  "bindE (Inl x) f = Inl x"
| "bindE (Inr a) f = f a"

text \<open>
  The elements of \<^verbatim>\<open>x\<close> when a method of \<^verbatim>\<open>Array.prototype\<close> is called on it:
  calling \<^verbatim>\<open>x.filter\<close>, \<^verbatim>\<open>x.find\<close>, \<^verbatim>\<open>x.findIndex\<close> or \<^verbatim>\<open>x.push\<close> on anything
  but an array is a TypeError.
\<close>

definition elems :: "jsval \<Rightarrow> exn + jsval list" where
  "elems v = (case v of JArr xs ps \<Rightarrow> Inr xs | _ \<Rightarrow> Inl TypeError)"

text \<open>The same array object with other elements (\<^verbatim>\<open>push\<close>, \<^verbatim>\<open>arr[i] = x\<close>).\<close>

definition with_elems :: "jsval \<Rightarrow> jsval list \<Rightarrow> jsval" where
  "with_elems v ys = (case v of JArr xs ps \<Rightarrow> JArr ys ps | _ \<Rightarrow> v)"

text \<open>
  \<^verbatim>\<open>findIndex\<close> and \<^verbatim>\<open>filter\<close> call the predicate on the elements in order; a
  predicate that throws ends the whole call.
\<close>

fun findIndexE :: "(jsval \<Rightarrow> exn + bool) \<Rightarrow> jsval list \<Rightarrow> exn + nat option" where
  "findIndexE p [] = Inr None"
| "findIndexE p (x # xs) =
     (case p x of
        Inl err \<Rightarrow> Inl err
      | Inr True \<Rightarrow> Inr (Some 0)
      | Inr False \<Rightarrow> (case findIndexE p xs of
                        Inl err \<Rightarrow> Inl err
                      | Inr None \<Rightarrow> Inr None
                      | Inr (Some i) \<Rightarrow> Inr (Some (Suc i))))"

fun filterE :: "(jsval \<Rightarrow> exn + bool) \<Rightarrow> jsval list \<Rightarrow> exn + jsval list" where
  "filterE p [] = Inr []"
| "filterE p (x # xs) =
     (case p x of
        Inl err \<Rightarrow> Inl err
      | Inr keep \<Rightarrow> (case filterE p xs of
                      Inl err \<Rightarrow> Inl err
                    | Inr ys \<Rightarrow> Inr (if keep then x # ys else ys)))"

section \<open>Device registry\<close>

text \<open>
  The predicate of every device lookup,
  \<^verbatim>\<open>d => (code && d.code === code) || (deviceId && d.deviceId === deviceId)\<close>:
  \<^verbatim>\<open>d.code\<close> is read only when \<^verbatim>\<open>code\<close> is truthy, \<^verbatim>\<open>d.deviceId\<close> only when the
  first disjunct failed and \<^verbatim>\<open>deviceId\<close> is truthy.
\<close>

definition dev_match :: "jsval \<Rightarrow> jsval \<Rightarrow> jsval \<Rightarrow> exn + bool" where
  "dev_match code deviceId d =
     bindE (if truthy code then bindE (get d ''code'') (\<lambda>c. Inr (strict_eq c code)) else Inr False)
       (\<lambda>first. if first then Inr True
          else if truthy deviceId then bindE (get d ''deviceId'') (\<lambda>i. Inr (strict_eq i deviceId))
          else Inr False)"

text \<open>
  The parts of \<^verbatim>\<open>upsertDevice\<close>: the literal \<^verbatim>\<open>dev\<close>, whose members are
  \<^verbatim>\<open>undefined\<close> where the payload has none; the update
  \<^verbatim>\<open>{ ...tenant.devices[idx], ...dev }\<close>; and the record pushed,
  \<^verbatim>\<open>{ ...dev, createdAt: new Date().toISOString() }\<close>.
\<close>

definition incoming_dev :: "env \<Rightarrow> jsval \<Rightarrow> jsval" where
  "incoming_dev e payload =
     JObj [(''petId'', getp payload ''petId''),
           (''code'', getp payload ''code''),
           (''deviceId'', getp payload ''deviceId''),
           (''name'', getp payload ''name''),
           (''updatedAt'', JStr (now_iso e))]"

definition merged_dev :: "jsval \<Rightarrow> jsval \<Rightarrow> jsval" where
  "merged_dev existing dev = JObj (spread_into (spread_into [] existing) dev)"

definition created_dev :: "env \<Rightarrow> jsval \<Rightarrow> jsval" where
  "created_dev e dev =
     JObj (AList.update ''createdAt'' (JStr (now_iso_later e)) (spread_into [] dev))"

text \<open>\<^verbatim>\<open>upsertDevice\<close>: the tenant as changed, and the value returned.\<close>

definition upsertDevice :: "env \<Rightarrow> jsval \<Rightarrow> jsval \<Rightarrow> exn + jsval \<times> jsval" where
  "upsertDevice e tenant payload =
     (let dev = incoming_dev e payload
      in bindE (elems (getp tenant ''devices'')) (\<lambda>ds.
         bindE (findIndexE (dev_match (getp dev ''code'') (getp dev ''deviceId'')) ds) (\<lambda>idx.
           case idx of
             Some i \<Rightarrow>
               Inr (setp tenant ''devices''
                      (with_elems (getp tenant ''devices'') (ds[i := merged_dev (ds ! i) dev])),
                    merged_dev (ds ! i) dev)
           | None \<Rightarrow>
               Inr (setp tenant ''devices''
                      (with_elems (getp tenant ''devices'') (ds @ [created_dev e dev])),
                    dev))))"

text \<open>\<^verbatim>\<open>resolvePetIdByIdentifier\<close>: \<^verbatim>\<open>found?.petId\<close> of the first device that matches.\<close>

definition resolvePetIdByIdentifier :: "jsval \<Rightarrow> jsval \<Rightarrow> jsval \<Rightarrow> exn + jsval" where
  "resolvePetIdByIdentifier tenant code deviceId =
     bindE (elems (getp tenant ''devices'')) (\<lambda>ds.
     bindE (findIndexE (dev_match code deviceId) ds) (\<lambda>idx.
       Inr (case idx of None \<Rightarrow> JUndefined | Some i \<Rightarrow> getp (ds ! i) ''petId'')))"


section \<open>The routes\<close>

text \<open>
  Each route works on \<^verbatim>\<open>tenant\<close>, the alias \<^verbatim>\<open>getTenant\<close> returned. Its result is the
  tenant as the route left it, whether \<^verbatim>\<open>writeData\<close> was called, and the response;
  or the exception that left the route.
\<close>

type_synonym outcome = "jsval \<times> bool \<times> response"

text \<open>\<^verbatim>\<open>GET /localizacao/:petId\<close>\<close>

definition get_localizacao :: "env \<Rightarrow> string \<Rightarrow> jsval \<Rightarrow> exn + outcome" where
  "get_localizacao e petId tenant =
     bindE (elems (getp tenant ''locations'')) (\<lambda>ls.
     bindE (filterE (\<lambda>l. bindE (get l ''petId'') (\<lambda>v.
                          bindE (js_String e v) (\<lambda>s. Inr (s = petId)))) ls) (\<lambda>list.
       Inr (tenant, False, sendJson 200 (JArr list []))))"

text \<open>\<^verbatim>\<open>POST /localizacao\<close>\<close>

text \<open>
  The first lines of the route:
  \<^verbatim>\<open>let loc = payload || {}; if (!loc.id) loc.id = genId(); loc.uid = uid;\<close>
\<close>

definition incoming_loc :: "env \<Rightarrow> string \<Rightarrow> jsval \<Rightarrow> jsval" where
  "incoming_loc e uid payload =
     (let loc0 = js_or payload (JObj []);
          loc1 = (if \<not> truthy (getp loc0 ''id'') then setp loc0 ''id'' (JStr (genId e)) else loc0)
      in setp loc1 ''uid'' (JStr uid))"

text \<open>The update: \<^verbatim>\<open>{ ...tenant.locations[idx], ...loc, updatedAt: now }\<close>.\<close>

definition merged_loc :: "jsval \<Rightarrow> jsval \<Rightarrow> jsval \<Rightarrow> jsval" where
  "merged_loc existing loc now =
     JObj (AList.update ''updatedAt'' now (spread_into (spread_into [] existing) loc))"

text \<open>The create: \<^verbatim>\<open>if (!loc.createdAt) loc.createdAt = now;\<close>\<close>

definition created_loc :: "jsval \<Rightarrow> jsval \<Rightarrow> jsval" where
  "created_loc loc now = (if \<not> truthy (getp loc ''createdAt'') then setp loc ''createdAt'' now else loc)"

definition post_localizacao :: "env \<Rightarrow> string \<Rightarrow> body \<Rightarrow> jsval \<Rightarrow> exn + outcome" where
  "post_localizacao e uid b tenant =
     bindE (parseBody b) (\<lambda>payload.
     let now = JStr (now_iso e);
         loc = incoming_loc e uid payload
     in bindE (elems (getp tenant ''locations'')) (\<lambda>ls.
        bindE (findIndexE (\<lambda>l. bindE (get l ''id'') (\<lambda>v. Inr (strict_eq v (getp loc ''id'')))) ls)
          (\<lambda>idx.
            case idx of
              Some i \<Rightarrow>
                Inr (setp tenant ''locations''
                       (with_elems (getp tenant ''locations'') (ls[i := merged_loc (ls ! i) loc now])),
                     True, sendJson 200 (merged_loc (ls ! i) loc now))
            | None \<Rightarrow>
                Inr (setp tenant ''locations''
                       (with_elems (getp tenant ''locations'') (ls @ [created_loc loc now])),
                     True, sendJson 201 (created_loc loc now)))))"

text \<open>\<^verbatim>\<open>POST /locations/ingest\<close>\<close>

definition opt_number :: "env \<Rightarrow> jsval \<Rightarrow> exn + jsval" where
  "opt_number e v =
     (if \<not> nullish v then bindE (js_Number e v) (\<lambda>n. Inr (JNum n)) else Inr JUndefined)"

text \<open>
  The object literal of the route, with its conversions in the order in which JavaScript
  evaluates them; \<open>src\<close> is \<^verbatim>\<open>payload || {}\<close>, from which the route took \<^verbatim>\<open>code\<close>,
  \<^verbatim>\<open>deviceId\<close>, \<^verbatim>\<open>lat\<close>, \<^verbatim>\<open>lng\<close>, \<^verbatim>\<open>accuracy\<close>, \<^verbatim>\<open>speed\<close> and \<^verbatim>\<open>timestamp\<close>.
\<close>

definition ingest_record :: "env \<Rightarrow> string \<Rightarrow> jsval \<Rightarrow> jsval \<Rightarrow> exn + jsval" where
  "ingest_record e uid payload petId =
     (let src = js_or payload (JObj []);
          code = getp src ''code'';
          deviceId = getp src ''deviceId'';
          lat = getp src ''lat'';
          lng = getp src ''lng'';
          accuracy = getp src ''accuracy'';
          speed = getp src ''speed'';
          timestamp = getp src ''timestamp''
      in bindE (js_Number e lat) (\<lambda>latitude.
         bindE (js_Number e lng) (\<lambda>longitude.
         bindE (opt_number e accuracy) (\<lambda>acc.
         bindE (opt_number e speed) (\<lambda>spd.
         bindE (if truthy timestamp
                then bindE (js_Number e timestamp) (date_iso e)
                else Inr (now_iso e)) (\<lambda>createdAt.
           Inr (JObj [(''id'', JStr (genId e)),
                      (''petId'', petId),
                      (''label'', js_or (getp payload ''label'') (JStr ''device'')),
                      (''latitude'', JNum latitude),
                      (''longitude'', JNum longitude),
                      (''accuracy'', acc),
                      (''speed'', spd),
                      (''createdAt'', JStr createdAt),
                      (''origin'', JStr ''device''),
                      (''createdBy'', js_or deviceId (js_or code (JStr ''unknown''))),
                      (''uid'', JStr uid)])))))))"

definition post_ingest :: "env \<Rightarrow> string \<Rightarrow> body \<Rightarrow> jsval \<Rightarrow> exn + outcome" where
  "post_ingest e uid b tenant =
     bindE (parseBody b) (\<lambda>payload.
     let src = js_or payload (JObj []);
         code = getp src ''code'';
         deviceId = getp src ''deviceId''
     in if \<not> truthy code \<and> \<not> truthy deviceId
        then Inr (tenant, False, sendJson 400 (err_body ''code or deviceId required''))
        else
          bindE (resolvePetIdByIdentifier tenant code deviceId) (\<lambda>petId.
          if \<not> truthy petId
          then Inr (tenant, False, sendJson 404 (err_body ''Pet not found for given identifier''))
          else
            bindE (ingest_record e uid payload petId) (\<lambda>loc.
            bindE (elems (getp tenant ''locations'')) (\<lambda>ls.
              Inr (setp tenant ''locations''
                     (with_elems (getp tenant ''locations'') (ls @ [loc])),
                   True, sendJson 201 loc)))))"

text \<open>\<^verbatim>\<open>POST /devices/register\<close>\<close>

definition post_register :: "env \<Rightarrow> body \<Rightarrow> jsval \<Rightarrow> exn + outcome" where
  "post_register e b tenant =
     bindE (parseBody b) (\<lambda>payload.
       if \<not> truthy (getp payload ''petId'')
       then Inr (tenant, False, sendJson 400 (err_body ''petId required''))
       else if \<not> truthy (getp payload ''code'') \<and> \<not> truthy (getp payload ''deviceId'')
       then Inr (tenant, False, sendJson 400 (err_body ''code or deviceId required''))
       else bindE (upsertDevice e tenant payload) (\<lambda>(tenant', dev).
              Inr (tenant', True, sendJson 201 dev)))"

text \<open>\<^verbatim>\<open>GET /devices\<close>\<close>

definition get_devices :: "jsval \<Rightarrow> exn + outcome" where
  "get_devices tenant =
     Inr (tenant, False, sendJson 200 (js_or (getp tenant ''devices'') (JArr [] [])))"

text \<open>\<^verbatim>\<open>POST /devices/detach\<close>\<close>

definition post_detach ::
  "env \<Rightarrow> body \<Rightarrow> string option \<Rightarrow> string option \<Rightarrow> jsval \<Rightarrow> exn + outcome" where
  "post_detach e b qcode qdev tenant =
     bindE (parseBody b) (\<lambda>payload.
     let code = js_or (getp payload ''code'') (qparam qcode);
         deviceId = js_or (getp payload ''deviceId'') (qparam qdev)
     in if \<not> truthy code \<and> \<not> truthy deviceId
        then Inr (tenant, False, sendJson 400 (err_body ''code or deviceId required''))
        else
          bindE (elems (getp tenant ''devices'')) (\<lambda>ds.
          bindE (findIndexE (dev_match code deviceId) ds) (\<lambda>idx.
            case idx of
              None \<Rightarrow> Inr (tenant, False, sendJson 404 (err_body ''Device not found''))
            | Some i \<Rightarrow>
                (let d = setp (setp (ds ! i) ''petId'' JNull) ''updatedAt'' (JStr (now_iso e))
                 in Inr (setp tenant ''devices''
                           (with_elems (getp tenant ''devices'') (ds[i := d])),
                         True, sendJson 200 d)))))"


text \<open>
  \<^verbatim>\<open>DELETE /devices\<close>: the body is read inside its own \<^verbatim>\<open>try\<close>, so a body that is not
  JSON leaves the query parameters alone.
\<close>

definition delete_devices ::
  "body \<Rightarrow> string option \<Rightarrow> string option \<Rightarrow> jsval \<Rightarrow> exn + outcome" where
  "delete_devices b qcode qdev tenant =
     (let code0 = qparam qcode;
          deviceId0 = qparam qdev;
          code = (case parseBody b of Inl err \<Rightarrow> code0 | Inr body \<Rightarrow> js_or code0 (getp body ''code''));
          deviceId = (case parseBody b of
                        Inl err \<Rightarrow> deviceId0
                      | Inr body \<Rightarrow> js_or deviceId0 (getp body ''deviceId''))
      in if \<not> truthy code \<and> \<not> truthy deviceId
         then Inr (tenant, False, sendJson 400 (err_body ''code or deviceId required''))
         else
           bindE (elems (getp tenant ''devices'')) (\<lambda>ds.
           bindE (filterE (\<lambda>d. bindE (dev_match code deviceId d) (\<lambda>m. Inr (\<not> m))) ds) (\<lambda>kept.
             let deleted = length ds - length kept;
                 tenant' = setp tenant ''devices'' (JArr kept [])
             in if deleted = 0
                then Inr (tenant', False, sendJson 404 (err_body ''Device not found''))
                else Inr (tenant', True,
                          sendJson 200 (JObj [(''ok'', JBool True),
                                              (''deleted'', JNum (Fin (of_nat deleted)))])))))"

text \<open>\<^verbatim>\<open>DELETE /localizacao/:id\<close>\<close>

definition delete_localizacao_id :: "string \<Rightarrow> jsval \<Rightarrow> exn + outcome" where
  "delete_localizacao_id ident tenant =
     bindE (elems (getp tenant ''locations'')) (\<lambda>ls.
     bindE (filterE (\<lambda>l. bindE (get l ''id'') (\<lambda>v. Inr (\<not> strict_eq v (JStr ident)))) ls) (\<lambda>kept.
       let tenant' = setp tenant ''locations'' (JArr kept [])
       in if length kept = length ls
          then Inr (tenant', False, sendJson 404 (err_body ''Not found''))
          else Inr (tenant', True, sendJson 200 (JObj [(''ok'', JBool True)]))))"

text \<open>\<^verbatim>\<open>DELETE /localizacao?petId=...\<close>\<close>

definition delete_localizacao_scope :: "env \<Rightarrow> string option \<Rightarrow> jsval \<Rightarrow> exn + outcome" where
  "delete_localizacao_scope e q tenant =
     (let petId = qparam q
      in bindE (elems (getp tenant ''locations'')) (\<lambda>ls.
         bindE (if truthy petId
                then filterE (\<lambda>l. bindE (get l ''petId'') (\<lambda>v.
                                    bindE (js_String e v) (\<lambda>s.
                                    bindE (js_String e petId) (\<lambda>p. Inr (s \<noteq> p))))) ls
                else Inr []) (\<lambda>kept.
           let deleted = length ls - length kept
           in Inr (setp tenant ''locations'' (JArr kept []), True,
                   sendJson 200
                     (JObj [(''ok'', JBool True),
                            (''deleted'', JNum (Fin (of_nat deleted))),
                            (''scope'', if truthy petId then JObj [(''petId'', petId)]
                                        else JStr ''all'')])))))"

section \<open>A request from the file to the file\<close>

text \<open>
  The requests that reach the store, after routing and after the tenant resolver gave
  the caller's \<^verbatim>\<open>uid\<close>.
\<close>

datatype request =
    GetLocalizacao string
  | PostLocalizacao body
  | PostIngest body
  | PostRegister body
  | GetDevices
  | PostDetach body "string option" "string option"
  | DeleteDevices body "string option" "string option"
  | DeleteLocalizacaoId string
  | DeleteLocalizacaoScope "string option"

fun route :: "env \<Rightarrow> string \<Rightarrow> request \<Rightarrow> jsval \<Rightarrow> exn + outcome" where
  "route e uid (GetLocalizacao petId) tenant = get_localizacao e petId tenant"
| "route e uid (PostLocalizacao b) tenant = post_localizacao e uid b tenant"
| "route e uid (PostIngest b) tenant = post_ingest e uid b tenant"
| "route e uid (PostRegister b) tenant = post_register e b tenant"
| "route e uid GetDevices tenant = get_devices tenant"
| "route e uid (PostDetach b qcode qdev) tenant = post_detach e b qcode qdev tenant"
| "route e uid (DeleteDevices b qcode qdev) tenant = delete_devices b qcode qdev tenant"
| "route e uid (DeleteLocalizacaoId ident) tenant = delete_localizacao_id ident tenant"
| "route e uid (DeleteLocalizacaoScope q) tenant = delete_localizacao_scope e q tenant"

text \<open>
  The body of the request listener after \<^verbatim>\<open>requireAuth\<close>: \<^verbatim>\<open>readData\<close>,
  \<^verbatim>\<open>getTenant\<close>, the route on the tenant returned, and \<^verbatim>\<open>writeData(data)\<close> where the
  route calls it. The result is the process and the durable file afterwards, and the
  response. What the route did to the tenant stays in \<^verbatim>\<open>data\<close> or on the built-in object
  whether or not \<^verbatim>\<open>writeData\<close> is called; no route changes the tenant before a statement
  that can throw.
\<close>

definition listener ::
  "env \<Rightarrow> string \<Rightarrow> request \<Rightarrow> world \<times> content \<Rightarrow> (world \<times> content) \<times> response" where
  "listener e uid req s =
     (let (f1, data0) = readData (fst s) (snd s);
          (W1, data) = getTenant (fst s) data0 uid
      in case route e uid req (read_cell W1 data uid) of
           Inl err \<Rightarrow> ((W1, f1), Caught err)
         | Inr (tenant', wrote, resp) \<Rightarrow>
             (let (W2, data') = write_cell W1 data uid tenant'
              in ((W2, if wrote then writeData data' f1 else f1), resp)))"

text \<open>
  The routes read \<^verbatim>\<open>tenant.locations\<close> and \<^verbatim>\<open>tenant.devices\<close> as own properties of
  the tenant and treat the two arrays as its own. That is what happens unless one of
  them is reached through \<^verbatim>\<open>Object.prototype\<close>: by a tenant that inherits it (\<open>shares\<close>),
  or because \<^verbatim>\<open>readData\<close> took the array \<^verbatim>\<open>Object.prototype\<close> holds for
  \<^verbatim>\<open>json.locations\<close> and put it into the tenant \<^verbatim>\<open>default\<close>, so that the tenants
  \<^verbatim>\<open>default\<close> and \<^verbatim>\<open>__proto__\<close> work on one array. An embedding on values cannot follow
  an array that two objects hold; nor does it follow index names when \<^verbatim>\<open>data.tenants\<close>
  is an array. \<open>serve\<close> is the listener where none of this happens, and gives no result
  where it does.
\<close>

definition shares :: "world \<Rightarrow> jsval \<Rightarrow> bool" where
  "shares W t =
     ((\<not> has_own t ''locations'' \<and> inherited W ''locations'' \<noteq> JUndefined) \<or>
      (\<not> has_own t ''devices'' \<and> inherited W ''devices'' \<noteq> JUndefined))"

definition legacy_inherited :: "world \<Rightarrow> content \<Rightarrow> bool" where
  "legacy_inherited W f =
     (case ensureDataFile f of
        Parsed json \<Rightarrow>
          truthy json \<and> typeof_object json \<and> \<not> has_own json ''locations'' \<and>
          is_array (inherited W ''locations'')
      | _ \<Rightarrow> False)"

definition serve ::
  "env \<Rightarrow> string \<Rightarrow> request \<Rightarrow> world \<times> content \<Rightarrow> ((world \<times> content) \<times> response) option" where
  "serve e uid req s =
     (let (f1, data0) = readData (fst s) (snd s);
          (W1, data) = getTenant (fst s) data0 uid
      in if shares W1 (read_cell W1 data uid) \<or>
            (legacy_inherited (fst s) (snd s) \<and> (uid = ''default'' \<or> uid = ''__proto__'')) \<or>
            is_array (getp data0 ''tenants'')
         then None
         else Some (listener e uid req s))"

text \<open>
  A request served by a process that is as Node started it: the durable file afterwards
  and the response.
\<close>

definition handle :: "env \<Rightarrow> string \<Rightarrow> request \<Rightarrow> content \<Rightarrow> content \<times> response" where
  "handle e uid req f = (let ((W, f'), resp) = listener e uid req (pristine, f) in (f', resp))"

section \<open>Reading the durable file back\<close>

text \<open>
  What a request finds in a process without assignments to built-in objects: the store
  \<^verbatim>\<open>readData\<close> returns, the entry of a tenant as it stands in the file, the tenant
  \<^verbatim>\<open>getTenant\<close> hands to the routes, and the elements of its two arrays.
\<close>

definition load :: "content \<Rightarrow> jsval" where
  "load f = snd (readData pristine f)"

definition stored_entry :: "content \<Rightarrow> string \<Rightarrow> jsval" where
  "stored_entry f uid = tenant_of (load f) uid"

definition tenant_in :: "content \<Rightarrow> string \<Rightarrow> jsval" where
  "tenant_in f uid = (let (W, data) = getTenant pristine (load f) uid in read_cell W data uid)"

definition array_elems :: "jsval \<Rightarrow> jsval list" where
  "array_elems v = (case v of JArr xs ps \<Rightarrow> xs | _ \<Rightarrow> [])"

definition locations_in :: "content \<Rightarrow> string \<Rightarrow> jsval list" where
  "locations_in f uid = array_elems (getp (tenant_in f uid) ''locations'')"

definition devices_in :: "content \<Rightarrow> string \<Rightarrow> jsval list" where
  "devices_in f uid = array_elems (getp (tenant_in f uid) ''devices'')"


section \<open>Well-shaped stores\<close>

text \<open>
  \<open>matches code deviceId d\<close>: the device \<open>d\<close> matches the supplied code or deviceId by
  equality. It is the lookup predicate read on a device that is not \<^verbatim>\<open>null\<close>.
\<close>

definition matches :: "jsval \<Rightarrow> jsval \<Rightarrow> jsval \<Rightarrow> bool" where
  "matches code deviceId d =
     ((truthy code \<and> strict_eq (getp d ''code'') code) \<or>
      (truthy deviceId \<and> strict_eq (getp d ''deviceId'') deviceId))"

text \<open>
  The durable file follows the documented schema as far as tenant \<open>uid\<close> is concerned:
  the store that \<^verbatim>\<open>readData\<close> returns is a JSON object, its \<^verbatim>\<open>tenants\<close> member is
  an object, the entry of \<open>uid\<close> is missing or an object, and the elements of its
  \<^verbatim>\<open>locations\<close> and \<^verbatim>\<open>devices\<close> arrays are objects. Nothing is asked of the other
  tenants' entries beyond being JSON.
\<close>

definition store_ok :: "content \<Rightarrow> string \<Rightarrow> bool" where
  "store_ok f uid =
     (is_json (load f) \<and> is_object (getp (load f) ''tenants'') \<and>
      (stored_entry f uid = JUndefined \<or> is_object (stored_entry f uid)) \<and>
      list_all is_object (locations_in f uid) \<and>
      list_all is_object (devices_in f uid))"

text \<open>The text of the file, when it parses, parses to a JSON value.\<close>

definition file_json :: "content \<Rightarrow> bool" where
  "file_json f = (case f of Parsed json \<Rightarrow> is_json json | _ \<Rightarrow> True)"


text \<open>
  What \<^verbatim>\<open>getTenant\<close> makes of the entry it finds: the three \<^verbatim>\<open>if\<close>s of its body,
  read on the entry alone.
\<close>

definition normalized :: "jsval \<Rightarrow> jsval" where
  "normalized entry =
     (let t1 = (if \<not> truthy entry then new_tenant else entry);
          t2 = (if \<not> is_array (getp t1 ''locations'') then setp t1 ''locations'' (JArr [] []) else t1)
      in if \<not> is_array (getp t2 ''devices'') then setp t2 ''devices'' (JArr [] []) else t2)"

text \<open>The index \<^verbatim>\<open>findIndex\<close> returns for a predicate that does not throw.\<close>

fun first_index :: "('a \<Rightarrow> bool) \<Rightarrow> 'a list \<Rightarrow> nat option" where
  "first_index P [] = None"
| "first_index P (x # xs) = (if P x then Some 0 else map_option Suc (first_index P xs))"

text \<open>
  An object whose property names are pairwise different, as every JavaScript object is;
  the list of properties by itself does not say so.
\<close>

definition dkeys :: "jsval \<Rightarrow> bool" where
  "dkeys v = (case v of JObj kvs \<Rightarrow> distinct (map fst kvs) | _ \<Rightarrow> False)"

text \<open>
  \<^verbatim>\<open>String(l.petId)\<close> of a stored location, where that conversion does not throw.
\<close>

definition petId_string :: "env \<Rightarrow> jsval \<Rightarrow> string" where
  "petId_string e l = (case js_String e (getp l ''petId'') of Inr s \<Rightarrow> s | Inl err \<Rightarrow> [])"

definition petId_prints :: "env \<Rightarrow> jsval \<Rightarrow> bool" where
  "petId_prints e l = (case js_String e (getp l ''petId'') of Inr s \<Rightarrow> True | Inl err \<Rightarrow> False)"

section \<open>A runtime for the examples\<close>

text \<open>
  The examples need some clock readings and conversions. The conversions are constant
  functions, right at the only arguments the examples give them: the number \<open>0\<close> prints
  as \<^verbatim>\<open>0\<close>, a string that is no numeral reads as \<open>NaN\<close>, and the time value \<open>0\<close>
  prints as the epoch.
\<close>

definition demo_env :: env where
  "demo_env = \<lparr> now_iso = ''2024-01-01T00:00:00.000Z'',
                 now_iso_later = ''2024-01-01T00:00:00.001Z'',
                 date_now36 = ''lqu5k5c0'',
                 random36 = ''0.4fzyo82mvyr'',
                 num2str = (\<lambda>n. ''0''),
                 str2num = (\<lambda>s. NaN),
                 iso_of_ms = (\<lambda>t. ''1970-01-01T00:00:00.000Z'') \<rparr>"

text \<open>
  The file of the examples: tenant \<^verbatim>\<open>u1\<close> with one location of pet \<^verbatim>\<open>P1\<close>, one
  of pet \<^verbatim>\<open>P2\<close>, a device \<^verbatim>\<open>C1\<close> bound to \<^verbatim>\<open>P1\<close> and a detached device
  \<^verbatim>\<open>C2\<close>; and tenant \<^verbatim>\<open>u2\<close> with a location of its own.
\<close>

abbreviation demo_loc_a :: jsval where
  "demo_loc_a \<equiv> JObj [(''id'', JStr ''a''), (''petId'', JStr ''P1''), (''label'', JStr ''home'')]"

abbreviation demo_loc_b :: jsval where
  "demo_loc_b \<equiv> JObj [(''id'', JStr ''b''), (''petId'', JStr ''P2'')]"

abbreviation demo_dev_1 :: jsval where
  "demo_dev_1 \<equiv>
     JObj [(''code'', JStr ''C1''), (''petId'', JStr ''P1''), (''name'', JStr ''tag''),
           (''createdAt'', JStr ''2023-06-01T00:00:00.000Z'')]"

abbreviation demo_dev_2 :: jsval where
  "demo_dev_2 \<equiv> JObj [(''code'', JStr ''C2''), (''petId'', JNull)]"

abbreviation demo_tenant_2 :: jsval where
  "demo_tenant_2 \<equiv>
     JObj [(''locations'', JArr [JObj [(''id'', JStr ''z''), (''petId'', JStr ''P9'')]] []),
           (''devices'', JArr [] [])]"

abbreviation demo_store :: "jsval list \<Rightarrow> jsval list \<Rightarrow> content" where
  "demo_store ls ds \<equiv>
     Parsed (JObj [(''tenants'',
       JObj [(''u1'', JObj [(''locations'', JArr ls []), (''devices'', JArr ds [])]),
             (''u2'', demo_tenant_2)])])"

abbreviation demo_file :: content where
  "demo_file \<equiv> demo_store [demo_loc_a, demo_loc_b] [demo_dev_1, demo_dev_2]"

section \<open>Auxiliary facts\<close>


lemma jsonify_undef_iff [simp]: "jsonify v = JUndefined \<longleftrightarrow> v = JUndefined"
  by (cases v) (auto split: jsnum.splits)

lemma is_json_obj_iff:
  "is_json (JObj kvs) \<longleftrightarrow> distinct (map fst kvs) \<and> (\<forall>kv \<in> set kvs. is_json (snd kv))"
  by (auto simp: list_all_iff)

lemma is_json_arr_iff:
  "is_json (JArr xs ps) \<longleftrightarrow> ps = [] \<and> (\<forall>x \<in> set xs. is_json x)"
  by (auto simp: list_all_iff)

declare is_json.simps(6,7) [simp del]
declare is_json_obj_iff [simp] is_json_arr_iff [simp]

lemma is_json_not_undef: "is_json v \<Longrightarrow> v \<noteq> JUndefined"
  by auto

lemma jsonify_id: "is_json v \<Longrightarrow> jsonify v = v"
proof (induction v)
  case (JArr xs ps)
  have "map jsonify xs = xs"
    using JArr by (intro map_idI) auto
  moreover have "map (\<lambda>v. if v = JUndefined then JNull else v) xs = xs"
    using JArr.prems by (intro map_idI) auto
  ultimately show ?case using JArr.prems by simp
next
  case (JObj kvs)
  have m: "map (map_prod id jsonify) kvs = kvs"
  proof (intro map_idI)
    fix kv assume kv: "kv \<in> set kvs"
    obtain a b where ab: "kv = (a, b)" by (cases kv)
    have "is_json b" using JObj.prems kv ab by auto
    then have "jsonify b = b" using JObj.IH [OF kv, of b] ab by simp
    then show "map_prod id jsonify kv = kv" using ab by simp
  qed
  have "filter (\<lambda>kv. snd kv \<noteq> JUndefined) kvs = kvs"
    using JObj.prems by (auto simp: filter_id_conv)
  with m show ?case by simp
qed (auto split: jsnum.splits)

lemma map_of_jsonify:
  "distinct (map fst kvs) \<Longrightarrow>
   map_of (filter (\<lambda>kv. snd kv \<noteq> JUndefined) (map (map_prod id jsonify) kvs)) k =
     (case map_of kvs k of None \<Rightarrow> None
      | Some v \<Rightarrow> if v = JUndefined then None else Some (jsonify v))"
proof (induction kvs)
  case Nil
  then show ?case by simp
next
  case (Cons kv kvs)
  obtain a b where kv: "kv = (a, b)" by (cases kv)
  have notin: "a \<notin> fst ` set kvs" using Cons.prems kv by simp
  then have none1: "map_of kvs a = None"
    by (simp add: map_of_eq_None_iff)
  have none: "map_of (filter (\<lambda>kv. snd kv \<noteq> JUndefined) (map (map_prod id jsonify) kvs)) a = None"
    using notin by (force simp: map_of_eq_None_iff)
  show ?case
  proof (cases "k = a")
    case True
    then show ?thesis using kv none [unfolded id_def] none1 by simp
  next
    case False
    then show ?thesis using kv Cons by simp
  qed
qed

lemma getp_jsonify_obj:
  "distinct (map fst kvs) \<Longrightarrow> getp (jsonify (JObj kvs)) k = jsonify (getp (JObj kvs) k)"
  by (simp add: map_of_jsonify split: option.splits)

lemma getp_setp_obj: "getp (setp (JObj kvs) k x) k' = (if k' = k then x else getp (JObj kvs) k')"
  by (simp add: update_conv')

lemma is_json_update:
  "distinct (map fst kvs) \<Longrightarrow> \<forall>kv \<in> set kvs. is_json (snd kv) \<Longrightarrow> is_json x \<Longrightarrow>
   \<forall>kv \<in> set (AList.update k x kvs). is_json (snd kv)"
  by (induction kvs) auto

lemma is_json_setp:
  "is_json (JObj kvs) \<Longrightarrow> is_json x \<Longrightarrow> is_json (setp (JObj kvs) k x)"
  using is_json_update [of kvs x k] by (simp add: distinct_update)

lemma is_json_getp: "is_json v \<Longrightarrow> getp v k \<noteq> JUndefined \<Longrightarrow> is_json (getp v k)"
  by (cases v) (auto split: option.splits dest!: map_of_SomeD)




lemma getp_setp: "is_object v \<or> is_array v \<Longrightarrow> getp (setp v k x) k' = (if k' = k then x else getp v k')"
  by (cases v) (auto simp: update_conv')

lemma setp_shape [simp]: "is_object (setp v k x) = is_object v" "is_array (setp v k x) = is_array v"
  by (cases v; simp)+

lemma tenant_of_put:
  assumes "is_object D \<or> is_array D" "is_object (getp D ''tenants'') \<or> is_array (getp D ''tenants'')"
  shows "tenant_of (put_tenant D uid t) B = (if B = uid then t else tenant_of D B)"
  using assms by (simp add: tenant_of_def put_tenant_def getp_setp)

lemma getp_put_tenant:
  "is_object D \<or> is_array D \<Longrightarrow> k \<noteq> ''tenants'' \<Longrightarrow> getp (put_tenant D uid t) k = getp D k"
  by (simp add: put_tenant_def getp_setp)

lemma put_tenant_shape:
  assumes "is_object D \<or> is_array D" "is_object (getp D ''tenants'') \<or> is_array (getp D ''tenants'')"
  shows "is_object (put_tenant D uid t) = is_object D" "is_array (put_tenant D uid t) = is_array D"
    "is_object (getp (put_tenant D uid t) ''tenants'') = is_object (getp D ''tenants'')"
    "is_array (getp (put_tenant D uid t) ''tenants'') = is_array (getp D ''tenants'')"
  using assms by (simp_all add: put_tenant_def getp_setp)

lemma not_own_undef: "\<not> has_own v k \<Longrightarrow> getp v k = JUndefined"
  by (cases v) auto

lemma has_own_setp: "is_object v \<or> is_array v \<Longrightarrow> has_own (setp v k x) k' = (k' = k \<or> has_own v k')"
  by (cases v) (auto simp: update_conv')

lemma unpolluted_pristine [simp]: "unpolluted pristine"
  by (simp add: unpolluted_def builtin_def pristine_def)

lemma inherited_unpolluted [simp]: "unpolluted W \<Longrightarrow> inherited W k = JUndefined"
  by (simp add: unpolluted_def inherited_def)

lemma member_unpolluted [simp]: "unpolluted W \<Longrightarrow> member W v k = getp v k"
  by (simp add: member_def not_own_undef)

lemma member_other:
  "k \<noteq> ''locations'' \<Longrightarrow> k \<noteq> ''devices'' \<Longrightarrow> member W v k = getp v k"
  by (auto simp: member_def inherited_def builtin_def not_own_undef split: option.splits)

lemma readData_pristine:
  "readData pristine f =
     (let f' = ensureDataFile f in
      (f',
       case f' of
         Parsed json \<Rightarrow>
           if \<not> truthy json \<or> \<not> typeof_object json then empty_store
           else if is_array (getp json ''locations'') then
             JObj [(''tenants'',
               JObj [(''default'',
                 JObj [(''locations'', getp json ''locations''), (''devices'', JArr [] [])])])]
           else if \<not> truthy (getp json ''tenants'') \<or> \<not> typeof_object (getp json ''tenants'')
             then setp json ''tenants'' (JObj [])
           else json
       | _ \<Rightarrow> empty_store))"
  by (simp add: readData_def Let_def split: content.splits)

lemma readData_unpolluted: "unpolluted W \<Longrightarrow> readData W f = readData pristine f"
  by (simp add: readData_def Let_def split: content.splits)

lemma fst_readData: "fst (readData W f) = ensureDataFile f"
  by (simp add: readData_def Let_def)

lemma ensure_idem: "ensureDataFile (ensureDataFile f) = ensureDataFile f"
  by (cases f) (simp_all add: ensureDataFile_def)

lemma load_ensure: "load (ensureDataFile f) = load f"
  by (simp add: load_def readData_pristine Let_def ensure_idem)

lemma load_shape: "is_object (load f) \<or> is_array (load f)"
  by (cases f) (auto simp: load_def readData_pristine ensureDataFile_def empty_store_def Let_def
      elim: typeof_object.elims)

lemma truthy_object: "truthy v \<Longrightarrow> typeof_object v \<Longrightarrow> is_object v \<or> is_array v"
  by (cases v) auto

lemma load_tenants_shape: "is_object (getp (load f) ''tenants'') \<or> is_array (getp (load f) ''tenants'')"
proof (cases "ensureDataFile f")
  case (Parsed json)
  show ?thesis
  proof (cases "\<not> truthy json \<or> \<not> typeof_object json")
    case True
    then show ?thesis using Parsed by (simp add: load_def readData_pristine empty_store_def Let_def)
  next
    case False
    then have c: "is_object json \<or> is_array json" using truthy_object by blast
    show ?thesis using Parsed False c truthy_object [of "getp json ''tenants''"]
      by (auto simp: load_def readData_pristine Let_def getp_setp)
  qed
qed (simp_all add: load_def readData_pristine empty_store_def Let_def)

lemma load_not_legacy: "\<not> is_array (getp (load f) ''locations'')"
proof (cases "ensureDataFile f")
  case (Parsed json)
  show ?thesis
  proof (cases "\<not> truthy json \<or> \<not> typeof_object json")
    case True
    then show ?thesis using Parsed by (simp add: load_def readData_pristine empty_store_def Let_def)
  next
    case False
    then have c: "is_object json \<or> is_array json" using truthy_object by blast
    show ?thesis using Parsed False c
      by (auto simp: load_def readData_pristine Let_def getp_setp)
  qed
qed (simp_all add: load_def readData_pristine empty_store_def Let_def)


lemma is_array_jsonify [simp]: "is_array (jsonify v) = is_array v"
  by (cases v) (auto split: jsnum.splits)

lemma is_object_jsonify [simp]: "is_object (jsonify v) = is_object v"
  by (cases v) (auto split: jsnum.splits)


lemma getp_jsonify: "dkeys v \<Longrightarrow> getp (jsonify v) k = jsonify (getp v k)"
  by (cases v) (simp_all add: dkeys_def getp_jsonify_obj del: jsonify.simps)

lemma dkeys_setp: "dkeys v \<Longrightarrow> dkeys (setp v k x)"
  by (cases v) (simp_all add: dkeys_def distinct_update)

lemma dkeys_json: "is_json v \<Longrightarrow> is_object v \<Longrightarrow> dkeys v"
  by (cases v) (simp_all add: dkeys_def)

lemma dkeys_object: "dkeys v \<Longrightarrow> is_object v"
  by (cases v) (simp_all add: dkeys_def)

lemma load_written:
  assumes "dkeys d" "\<not> is_array (getp d ''locations'')" "is_object (getp d ''tenants'')"
  shows "load (Parsed (jsonify d)) = jsonify d"
proof -
  obtain kvs where d: "d = JObj kvs" using assms(1) by (cases d) (simp_all add: dkeys_def)
  have t: "truthy (jsonify d)" "typeof_object (jsonify d)" using d by simp_all
  have l: "\<not> is_array (getp (jsonify d) ''locations'')"
    using assms by (simp add: getp_jsonify)
  obtain ts where ts: "getp d ''tenants'' = JObj ts" using assms(3) by (cases "getp d ''tenants''") simp_all
  have "getp (jsonify d) ''tenants'' = jsonify (JObj ts)"
    using assms(1) ts by (simp add: getp_jsonify)
  then have tt: "truthy (getp (jsonify d) ''tenants'')" "typeof_object (getp (jsonify d) ''tenants'')"
    by simp_all
  show ?thesis
    using t l tt by (simp add: load_def readData_pristine ensureDataFile_def Let_def del: jsonify.simps)
qed

lemma map_alist_update:
  "map (map_prod id f) (AList.update k x kvs) = AList.update k (f x) (map (map_prod id f) kvs)"
  by (induction kvs) auto

lemma filter_update_all:
  "\<forall>kv \<in> set kvs. P kv \<Longrightarrow> P (k, y) \<Longrightarrow> filter P (AList.update k y kvs) = AList.update k y kvs"
  by (induction kvs) auto

lemma jsonify_setp:
  assumes "is_json (JObj kvs)" "x \<noteq> JUndefined"
  shows "jsonify (setp (JObj kvs) k x) = setp (JObj kvs) k (jsonify x)"
proof -
  have m: "map (map_prod id jsonify) kvs = kvs"
    using assms(1) by (intro map_idI) (auto simp: jsonify_id)
  have "\<forall>kv \<in> set kvs. snd kv \<noteq> JUndefined" using assms(1) by auto
  then have "filter (\<lambda>kv. snd kv \<noteq> JUndefined) (AList.update k (jsonify x) kvs)
               = AList.update k (jsonify x) kvs"
    using assms(2) by (intro filter_update_all) auto
  then show ?thesis using m by (simp add: map_alist_update)
qed

lemma setp_setp: "setp (setp v k a) k b = setp v k b"
  by (cases v) simp_all

lemma setp_getp_triv: "getp v k \<noteq> JUndefined \<Longrightarrow> setp v k (getp v k) = v"
  by (cases v) (auto simp: update_triv split: option.splits)

lemma put_put:
  assumes "is_object D \<or> is_array D"
  shows "put_tenant (put_tenant D uid a) uid b = put_tenant D uid b"
  using assms by (simp add: put_tenant_def getp_setp setp_setp)

lemma put_triv:
  assumes "is_object (getp D ''tenants'') \<or> is_array (getp D ''tenants'')" "tenant_of D uid \<noteq> JUndefined"
  shows "put_tenant D uid (tenant_of D uid) = D"
proof -
  have "getp D ''tenants'' \<noteq> JUndefined" using assms(1) by auto
  then show ?thesis using assms(2)
    by (simp add: put_tenant_def tenant_of_def setp_getp_triv)
qed

lemma normalized_arrays:
  assumes "\<not> truthy E \<or> is_object E \<or> is_array E"
  shows "is_array (getp (normalized E) ''locations'')" "is_array (getp (normalized E) ''devices'')"
  using assms by (auto simp: normalized_def new_tenant_def Let_def getp_setp)

lemma cell_of_plain: "unpolluted W \<Longrightarrow> plain uid \<Longrightarrow> cell_of W D uid = Entry"
  by (simp add: cell_of_def plain_def)


lemma cell_of_put:
  assumes "is_object D \<or> is_array D" "is_object (getp D ''tenants'') \<or> is_array (getp D ''tenants'')"
  shows "cell_of W (put_tenant D uid t) uid = Entry"
  using assms by (simp add: cell_of_def put_tenant_def getp_setp has_own_setp)

lemma cell_of_unpolluted:
  "unpolluted W \<Longrightarrow> cell_of W D uid = (if \<not> has_own (getp D ''tenants'') uid \<and> \<not> plain uid then Builtin else Entry)"
  by (simp add: cell_of_def plain_def)

lemma getTenant_entry:
  assumes "is_object D \<or> is_array D" "is_object (getp D ''tenants'') \<or> is_array (getp D ''tenants'')"
    and c: "cell_of W D uid = Entry" and u: "unpolluted W"
  shows "getTenant W D uid = (W, put_tenant D uid (normalized (tenant_of D uid)))"
proof (cases "truthy (tenant_of D uid)")
  case False
  then show ?thesis using assms
    by (simp add: getTenant_def read_cell_def write_cell_def cell_of_put normalized_def Let_def
        tenant_of_put new_tenant_def)
next
  case True
  then have "tenant_of D uid \<noteq> JUndefined" by auto
  then have triv: "put_tenant D uid (tenant_of D uid) = D"
    using assms(2) by (rule put_triv [rotated])
  show ?thesis using assms True triv
    by (simp add: getTenant_def read_cell_def write_cell_def cell_of_put normalized_def Let_def
        tenant_of_put put_tenant_shape put_put)
qed

lemma builtin_put: "builtin (put_builtin W n t) n =
   JObj ((if getp t ''locations'' = JUndefined then [] else [(''locations'', getp t ''locations'')]) @
         (if getp t ''devices'' = JUndefined then [] else [(''devices'', getp t ''devices'')]))"
  by (simp add: builtin_def put_builtin_def update_conv')

lemma getTenant_builtin_pristine:
  assumes c: "cell_of pristine D uid = Builtin"
  shows "getTenant pristine D uid = ([(uid, JArr [] [], JArr [] [])], D)"
proof -
  have b: "builtin pristine uid = JObj []" by (simp add: builtin_def pristine_def)
  have p: "uid \<noteq> ''__proto__'' \<Longrightarrow> unpolluted (put_builtin pristine uid t)" for t
    by (simp add: unpolluted_def builtin_def put_builtin_def pristine_def)
  have c': "cell_of W D uid = Builtin" for W
    using c by (auto simp: cell_of_def split: if_splits)
  show ?thesis
  proof (cases "uid = ''__proto__''")
    case False
    then show ?thesis
      using c' b p
      by (simp add: getTenant_def read_cell_def write_cell_def Let_def builtin_put)
        (simp add: put_builtin_def pristine_def)
  next
    case True
    then show ?thesis
      using c' b
      by (simp add: getTenant_def read_cell_def write_cell_def Let_def builtin_put member_def
          inherited_def)
        (simp add: put_builtin_def pristine_def)
  qed
qed

lemma readData_eq: "readData pristine f = (ensureDataFile f, load f)"
  by (simp add: load_def readData_pristine Let_def)

lemma tenant_in_eq: "tenant_in f uid = normalized (stored_entry f uid)"
proof (cases "cell_of pristine (load f) uid = Builtin")
  case True
  then have "\<not> has_own (getp (load f) ''tenants'') uid"
    by (auto simp: cell_of_def split: if_splits)
  then have "stored_entry f uid = JUndefined"
    by (simp add: stored_entry_def tenant_of_def not_own_undef)
  moreover have "cell_of W (load f) uid = Builtin" for W
    using True by (auto simp: cell_of_def split: if_splits)
  ultimately show ?thesis using True
    by (simp add: tenant_in_def getTenant_builtin_pristine read_cell_def
        builtin_def normalized_def new_tenant_def)
next
  case False
  then have c: "cell_of pristine (load f) uid = Entry"
    by (auto simp: cell_of_def split: if_splits)
  show ?thesis
    using load_shape [of f] load_tenants_shape [of f] c
    by (simp add: tenant_in_def stored_entry_def getTenant_entry read_cell_def cell_of_put tenant_of_put)
qed

lemma handle_eq:
  "handle e uid req f =
     (case route e uid req (tenant_in f uid) of
        Inl err \<Rightarrow> (ensureDataFile f, Caught err)
      | Inr (t', wrote, resp) \<Rightarrow>
          (if wrote
           then Parsed (jsonify (if cell_of pristine (load f) uid = Builtin then load f
                                 else put_tenant (load f) uid t'))
           else ensureDataFile f, resp))"
proof (cases "cell_of pristine (load f) uid = Builtin")
  case True
  then have c: "cell_of W (load f) uid = Builtin" for W
    by (auto simp: cell_of_def split: if_splits)
  have t: "tenant_in f uid = builtin [(uid, JArr [] [], JArr [] [])] uid"
    using True by (simp add: tenant_in_def getTenant_builtin_pristine read_cell_def c)
  show ?thesis
    using True c
    by (simp add: handle_def listener_def readData_eq getTenant_builtin_pristine read_cell_def
        write_cell_def writeData_def t split: sum.splits prod.splits)
next
  case False
  then have c: "cell_of pristine (load f) uid = Entry"
    by (auto simp: cell_of_def split: if_splits)
  have g: "getTenant pristine (load f) uid
             = (pristine, put_tenant (load f) uid (normalized (stored_entry f uid)))"
    using load_shape [of f] load_tenants_shape [of f] c
    by (simp add: getTenant_entry stored_entry_def)
  have c2: "cell_of pristine (put_tenant (load f) uid x) uid = Entry" for x
    using load_shape [of f] load_tenants_shape [of f] by (simp add: cell_of_put)
  have r: "tenant_of (put_tenant (load f) uid x) uid = x" for x
    using load_shape [of f] load_tenants_shape [of f] by (simp add: tenant_of_put)
  have p: "put_tenant (put_tenant (load f) uid x) uid t' = put_tenant (load f) uid t'" for x t'
    using load_shape [of f] by (simp add: put_put)
  show ?thesis
    using False
    by (simp add: handle_def listener_def readData_eq g read_cell_def write_cell_def c2 r p
        tenant_in_eq writeData_def split: sum.splits prod.splits)
qed

lemma handle_eq_plain:
  assumes "plain uid"
  shows "handle e uid req f =
     (case route e uid req (tenant_in f uid) of
        Inl err \<Rightarrow> (ensureDataFile f, Caught err)
      | Inr (t', wrote, resp) \<Rightarrow>
          (if wrote then Parsed (jsonify (put_tenant (load f) uid t')) else ensureDataFile f, resp))"
  using assms by (simp add: handle_eq cell_of_plain split: sum.splits)

lemma is_json_load_object: "is_json (load f) \<Longrightarrow> is_object (load f)"
proof -
  assume j: "is_json (load f)"
  show ?thesis
  proof (cases "load f")
    case (JArr xs ps)
    then have "getp (load f) ''tenants'' = JUndefined" using j by simp
    then show ?thesis using load_tenants_shape [of f] by simp
  qed (use load_shape [of f] in auto)
qed

lemma written:
  assumes "is_json (load f)" "is_object (getp (load f) ''tenants'')"
    and f'_def: "f' = Parsed (jsonify (put_tenant (load f) uid t'))"
  shows "load f' = jsonify (put_tenant (load f) uid t')"
    and "stored_entry f' B = (if B = uid then jsonify t' else stored_entry f B)"
proof -
  let ?D = "load f" and ?T = "getp (load f) ''tenants''"
  have oD: "is_object ?D" using assms(1) by (rule is_json_load_object)
  have dD: "dkeys ?D" using assms(1) oD by (rule dkeys_json)
  have jT: "is_json ?T" using assms by (intro is_json_getp) auto
  have dT: "dkeys ?T" using jT assms(2) by (rule dkeys_json)
  have d1: "dkeys (put_tenant ?D uid t')" using dD by (simp add: put_tenant_def dkeys_setp)
  have d2: "\<not> is_array (getp (put_tenant ?D uid t') ''locations'')"
    using oD load_not_legacy [of f] by (simp add: getp_put_tenant)
  have d3: "getp (put_tenant ?D uid t') ''tenants'' = setp ?T uid t'"
    using oD by (simp add: put_tenant_def getp_setp)
  then have d4: "is_object (getp (put_tenant ?D uid t') ''tenants'')" using assms(2) by simp
  show l: "load f' = jsonify (put_tenant (load f) uid t')"
    unfolding f'_def using d1 d2 d4 by (rule load_written)
  have "stored_entry f' B = getp (jsonify (setp ?T uid t')) B"
    using l d1 d3 by (simp add: stored_entry_def tenant_of_def getp_jsonify)
  also have "\<dots> = jsonify (getp (setp ?T uid t') B)"
    using dT by (simp add: getp_jsonify dkeys_setp)
  also have "\<dots> = (if B = uid then jsonify t' else jsonify (getp ?T B))"
    using assms(2) by (simp add: getp_setp)
  also have "jsonify (getp ?T B) = getp ?T B"
    using jT by (cases "getp ?T B = JUndefined") (simp_all add: is_json_getp jsonify_id)
  finally show "stored_entry f' B = (if B = uid then jsonify t' else stored_entry f B)"
    by (simp add: stored_entry_def tenant_of_def)
qed


lemma normalized_json:
  assumes "E = JUndefined \<or> (is_object E \<and> is_json E)"
  shows "is_json (normalized E)" "is_object (normalized E)"
proof -
  show "is_object (normalized E)" using assms
    by (auto simp: normalized_def new_tenant_def Let_def)
  show "is_json (normalized E)"
  proof (cases "E = JUndefined")
    case True
    then show ?thesis by (simp add: normalized_def new_tenant_def Let_def)
  next
    case False
    then obtain kvs where E: "E = JObj kvs" "is_json (JObj kvs)" using assms by (cases E) auto
    define t2 where "t2 = (if \<not> is_array (getp E ''locations'') then setp E ''locations'' (JArr [] []) else E)"
    have s: "is_json (setp (JObj qs) k (JArr [] []))" if "is_json (JObj qs)" for qs k
      using that by (rule is_json_setp) simp
    have "is_json t2"
      unfolding t2_def E(1) using E(2) s by (simp del: setp.simps is_json_obj_iff getp.simps)
    moreover have "is_object t2" unfolding t2_def E(1) by simp
    ultimately have "is_json t2 \<and> is_object t2" ..
    then obtain ps where t2: "t2 = JObj ps" "is_json (JObj ps)" by (cases t2) auto
    have n: "normalized E = (if \<not> is_array (getp t2 ''devices'') then setp t2 ''devices'' (JArr [] []) else t2)"
      unfolding normalized_def t2_def Let_def E(1) by simp
    show ?thesis
      unfolding n t2(1) using t2(2) s by (simp del: setp.simps is_json_obj_iff getp.simps)
  qed
qed

lemma array_json_elems: "is_array v \<Longrightarrow> is_json v \<Longrightarrow> v = JArr (array_elems v) []"
  by (cases v) (simp_all add: array_elems_def)

lemma stored_entry_json:
  assumes "is_json (load f)" "stored_entry f uid \<noteq> JUndefined"
  shows "is_json (stored_entry f uid)"
proof -
  have "getp (load f) ''tenants'' \<noteq> JUndefined" using load_tenants_shape [of f] by auto
  then have "is_json (getp (load f) ''tenants'')" using assms(1) by (rule is_json_getp [rotated])
  then show ?thesis using assms(2) unfolding stored_entry_def tenant_of_def by (rule is_json_getp)
qed

lemma tenant_in_ok:
  assumes "store_ok f uid"
  shows "is_json (tenant_in f uid)" "is_object (tenant_in f uid)"
    "getp (tenant_in f uid) ''locations'' = JArr (locations_in f uid) []"
    "getp (tenant_in f uid) ''devices'' = JArr (devices_in f uid) []"
proof -
  let ?E = "stored_entry f uid"
  have E: "?E = JUndefined \<or> (is_object ?E \<and> is_json ?E)"
    using assms stored_entry_json [of f uid] by (auto simp: store_ok_def)
  show j: "is_json (tenant_in f uid)" and o: "is_object (tenant_in f uid)"
    using normalized_json [OF E] by (simp_all add: tenant_in_eq)
  have a: "is_array (getp (tenant_in f uid) ''locations'')" "is_array (getp (tenant_in f uid) ''devices'')"
    using E normalized_arrays [of ?E] by (auto simp: tenant_in_eq)
  have "is_json (getp (tenant_in f uid) ''locations'')" using j a(1) by (intro is_json_getp) auto
  then show "getp (tenant_in f uid) ''locations'' = JArr (locations_in f uid) []"
    using a(1) array_json_elems unfolding locations_in_def by blast
  have "is_json (getp (tenant_in f uid) ''devices'')" using j a(2) by (intro is_json_getp) auto
  then show "getp (tenant_in f uid) ''devices'' = JArr (devices_in f uid) []"
    using a(2) array_json_elems unfolding devices_in_def by blast
qed


lemma normalized_id:
  "truthy j \<Longrightarrow> is_array (getp j ''locations'') \<Longrightarrow> is_array (getp j ''devices'') \<Longrightarrow> normalized j = j"
  by (simp add: normalized_def Let_def)

lemma readback:
  assumes ok: "store_ok f uid"
    and j: "jsonify t' = j" "is_json j" "is_object j"
      "getp j ''locations'' = JArr ls []" "getp j ''devices'' = JArr ds []"
    and f': "f' = Parsed (jsonify (put_tenant (load f) uid t'))"
  shows "tenant_in f' uid = j" "locations_in f' uid = ls" "devices_in f' uid = ds"
    "B \<noteq> uid \<Longrightarrow> stored_entry f' B = stored_entry f B"
    "list_all is_object ls \<Longrightarrow> list_all is_object ds \<Longrightarrow> store_ok f' uid"
proof -
  have jl: "is_json (load f)" and ot: "is_object (getp (load f) ''tenants'')"
    using ok by (simp_all add: store_ok_def)
  note w = written [OF jl ot f']
  have se: "stored_entry f' uid = j" using w(2) [of uid] j(1) by simp
  have tr: "truthy j" using j(3) by (cases j) simp_all
  show ti: "tenant_in f' uid = j"
    using se tr j(4,5) by (simp add: tenant_in_eq normalized_id)
  show li: "locations_in f' uid = ls" using ti j(4) by (simp add: locations_in_def array_elems_def)
  show di: "devices_in f' uid = ds" using ti j(5) by (simp add: devices_in_def array_elems_def)
  show "B \<noteq> uid \<Longrightarrow> stored_entry f' B = stored_entry f B" using w(2) [of B] by simp
  obtain dk where D: "load f = JObj dk" using is_json_load_object [OF jl] by (cases "load f") simp_all
  obtain ts where T: "getp (load f) ''tenants'' = JObj ts" using ot by (cases "getp (load f) ''tenants''") simp_all
  have jT: "is_json (JObj ts)" using jl T is_json_getp [of "load f" "''tenants''"] by simp
  have nu: "t' \<noteq> JUndefined" using j(1,3) by auto
  have "jsonify (setp (JObj ts) uid t') = setp (JObj ts) uid j"
    using jsonify_setp [OF jT nu] j(1) by simp
  moreover have "jsonify (setp (JObj dk) ''tenants'' (setp (JObj ts) uid t'))
      = setp (JObj dk) ''tenants'' (jsonify (setp (JObj ts) uid t'))"
  proof (rule jsonify_setp)
    show "is_json (JObj dk)" using jl D by simp
    show "setp (JObj ts) uid t' \<noteq> JUndefined" by simp
  qed
  ultimately have lw: "load f' = setp (JObj dk) ''tenants'' (setp (JObj ts) uid j)"
    using w(1) D T by (simp add: put_tenant_def)
  have step: "is_json (setp (JObj ts) uid j)" using jT j(2) by (rule is_json_setp)
  have jD: "is_json (JObj dk)" using jl D by simp
  have jl': "is_json (load f')" unfolding lw using jD step by (rule is_json_setp)
  have ot': "is_object (getp (load f') ''tenants'')" unfolding lw by (simp add: update_conv')
  show "list_all is_object ls \<Longrightarrow> list_all is_object ds \<Longrightarrow> store_ok f' uid"
    using jl' ot' se j(3) li di by (simp add: store_ok_def)
qed

lemma findIndexE_pure:
  "\<forall>x \<in> set xs. p x = Inr (P x) \<Longrightarrow> findIndexE p xs = Inr (first_index P xs)"
  by (induction xs) (auto split: option.splits)

lemma filterE_pure:
  "\<forall>x \<in> set xs. p x = Inr (P x) \<Longrightarrow> filterE p xs = Inr (filter P xs)"
  by (induction xs) auto

lemma first_index_Some:
  "first_index P xs = Some i \<Longrightarrow> i < length xs \<and> P (xs ! i) \<and> (\<forall>j < i. \<not> P (xs ! j))"
proof (induction xs arbitrary: i)
  case Nil
  then show ?case by simp
next
  case (Cons x xs)
  show ?case
  proof (cases "P x")
    case True
    then show ?thesis using Cons.prems by simp
  next
    case False
    then obtain k where k: "first_index P xs = Some k" "i = Suc k" using Cons.prems by auto
    from Cons.IH [OF k(1)] False k(2) show ?thesis
      by (auto simp: nth_Cons split: nat.splits)
  qed
qed

lemma first_index_None: "first_index P xs = None \<longleftrightarrow> (\<forall>x \<in> set xs. \<not> P x)"
  by (induction xs) auto

lemma dev_match_pure: "\<not> nullish d \<Longrightarrow> dev_match c i d = Inr (matches c i d)"
  by (auto simp: dev_match_def matches_def get_def)

lemma is_object_not_nullish: "is_object d \<Longrightarrow> \<not> nullish d"
  by (cases d) simp_all

lemmas store_defs =
  load_def readData_pristine ensureDataFile_def empty_store_def writeData_def
  tenant_of_def put_tenant_def new_tenant_def normalized_def
  stored_entry_def tenant_in_eq locations_in_def devices_in_def array_elems_def
  store_ok_def file_json_def Let_def

lemma cell_of_pristine:
  "cell_of pristine D uid =
     (if \<not> has_own (getp D ''tenants'') uid \<and> uid \<in> set object_prototype_names then Builtin
      else Entry)"
  by (simp add: cell_of_unpolluted plain_def)

lemmas route_defs =
  handle_eq cell_of_pristine object_prototype_names_def
  plain_def sendJson_def err_body_def parseBody_def qparam_def elems_def with_elems_def
  get_def js_or_def dev_match_def matches_def incoming_dev_def merged_dev_def created_dev_def upsertDevice_def resolvePetIdByIdentifier_def
  get_localizacao_def incoming_loc_def merged_loc_def created_loc_def post_localizacao_def opt_number_def ingest_record_def post_ingest_def
  post_register_def get_devices_def post_detach_def delete_devices_def
  delete_localizacao_id_def delete_localizacao_scope_def spread_into_def genId_def
  js_Number_def date_iso_def trunc_def demo_env_def petId_string_def petId_prints_def

lemma resolve_first:
  assumes "getp tenant ''devices'' = JArr ds ps" "\<forall>d \<in> set ds. \<not> nullish d"
  shows "resolvePetIdByIdentifier tenant c i =
           Inr (case first_index (matches c i) ds of
                  None \<Rightarrow> JUndefined
                | Some n \<Rightarrow> getp (ds ! n) ''petId'')"
proof -
  have "findIndexE (dev_match c i) ds = Inr (first_index (matches c i) ds)"
    using assms(2) by (intro findIndexE_pure) (simp add: dev_match_pure)
  then show ?thesis using assms(1)
    by (simp add: resolvePetIdByIdentifier_def elems_def)
qed

lemma store_ok_devices: "store_ok f uid \<Longrightarrow> \<forall>d \<in> set (devices_in f uid). \<not> nullish d"
  by (auto simp: store_ok_def list_all_iff is_object_not_nullish)

lemma store_ok_locations: "store_ok f uid \<Longrightarrow> \<forall>l \<in> set (locations_in f uid). \<not> nullish l"
  by (auto simp: store_ok_def list_all_iff is_object_not_nullish)

lemma locations_in_ensure: "locations_in (ensureDataFile f) uid = locations_in f uid"
  by (simp add: locations_in_def tenant_in_def load_ensure)

lemma devices_in_ensure: "devices_in (ensureDataFile f) uid = devices_in f uid"
  by (simp add: devices_in_def tenant_in_def load_ensure)

lemma bindE_Inr_iff: "bindE m g = Inr y \<longleftrightarrow> (\<exists>x. m = Inr x \<and> g x = Inr y)"
  by (cases m) simp_all

lemma bindE_Inl_iff: "bindE m g = Inl z \<longleftrightarrow> (m = Inl z \<or> (\<exists>x. m = Inr x \<and> g x = Inl z))"
  by (cases m) simp_all

lemma is_json_jsonify_obj:
  assumes "distinct (map fst kvs)" "\<forall>kv \<in> set kvs. snd kv = JUndefined \<or> is_json (jsonify (snd kv))"
  shows "is_json (jsonify (JObj kvs))"
proof -
  have "distinct (map fst (filter (\<lambda>kv. snd kv \<noteq> JUndefined) (map (map_prod id jsonify) kvs)))"
    using assms(1) by (simp add: distinct_map_filter comp_def)
  moreover have "\<forall>kv \<in> set (filter (\<lambda>kv. snd kv \<noteq> JUndefined) (map (map_prod id jsonify) kvs)).
      is_json (snd kv)"
    using assms(2) by auto
  ultimately show ?thesis by simp
qed

lemma is_json_jsonify: "is_json x \<Longrightarrow> is_json (jsonify x)"
  by (simp add: jsonify_id)

lemma commit_locations:
  assumes ok: "store_ok f uid"
    and f': "f' = Parsed (jsonify (put_tenant (load f) uid
                    (setp (tenant_in f uid) ''locations'' (JArr xs ps))))"
    and xs: "\<forall>x \<in> set xs. x \<noteq> JUndefined \<and> is_json (jsonify x)"
  shows "locations_in f' uid = map jsonify xs"
    and "devices_in f' uid = devices_in f uid"
    and "B \<noteq> uid \<Longrightarrow> stored_entry f' B = stored_entry f B"
    and "\<forall>x \<in> set xs. is_object x \<Longrightarrow> store_ok f' uid"
proof -
  note t = tenant_in_ok [OF ok]
  obtain tk where tk: "tenant_in f uid = JObj tk" using t(2) by (cases "tenant_in f uid") simp_all
  have fx: "map (\<lambda>v. if v = JUndefined then JNull else v) (map jsonify xs) = map jsonify xs"
    using xs by (intro map_idI) auto
  have ja: "jsonify (JArr xs ps) = JArr (map jsonify xs) []" using fx by simp
  have "jsonify (setp (JObj tk) ''locations'' (JArr xs ps))
          = setp (JObj tk) ''locations'' (jsonify (JArr xs ps))"
    using t(1) tk by (intro jsonify_setp) simp_all
  then have j: "jsonify (setp (tenant_in f uid) ''locations'' (JArr xs ps))
          = setp (JObj tk) ''locations'' (JArr (map jsonify xs) [])"
    by (simp only: tk ja)
  have j2: "is_json (setp (JObj tk) ''locations'' (JArr (map jsonify xs) []))"
    using t(1) tk xs by (intro is_json_setp) auto
  have j3: "is_object (setp (JObj tk) ''locations'' (JArr (map jsonify xs) []))" by simp
  have j4: "getp (setp (JObj tk) ''locations'' (JArr (map jsonify xs) [])) ''locations''
              = JArr (map jsonify xs) []"
    by (simp add: update_conv')
  have j5: "getp (setp (JObj tk) ''locations'' (JArr (map jsonify xs) [])) ''devices''
              = JArr (devices_in f uid) []"
    using t(4) tk by (simp add: update_conv')
  note rb = readback [OF ok j j2 j3 j4 j5 f']
  show "locations_in f' uid = map jsonify xs" by (rule rb(2))
  show "devices_in f' uid = devices_in f uid" by (rule rb(3))
  show "B \<noteq> uid \<Longrightarrow> stored_entry f' B = stored_entry f B" by (rule rb(4))
  show "store_ok f' uid" if "\<forall>x \<in> set xs. is_object x"
  proof (rule rb(5))
    show "list_all is_object (map jsonify xs)" using that by (simp add: list_all_iff)
    show "list_all is_object (devices_in f uid)" using ok by (simp add: store_ok_def)
  qed
qed

lemma commit_devices:
  assumes ok: "store_ok f uid"
    and f': "f' = Parsed (jsonify (put_tenant (load f) uid
                    (setp (tenant_in f uid) ''devices'' (JArr xs ps))))"
    and xs: "\<forall>x \<in> set xs. x \<noteq> JUndefined \<and> is_json (jsonify x)"
  shows "devices_in f' uid = map jsonify xs"
    and "locations_in f' uid = locations_in f uid"
    and "B \<noteq> uid \<Longrightarrow> stored_entry f' B = stored_entry f B"
    and "\<forall>x \<in> set xs. is_object x \<Longrightarrow> store_ok f' uid"
proof -
  note t = tenant_in_ok [OF ok]
  obtain tk where tk: "tenant_in f uid = JObj tk" using t(2) by (cases "tenant_in f uid") simp_all
  have fx: "map (\<lambda>v. if v = JUndefined then JNull else v) (map jsonify xs) = map jsonify xs"
    using xs by (intro map_idI) auto
  have ja: "jsonify (JArr xs ps) = JArr (map jsonify xs) []" using fx by simp
  have "jsonify (setp (JObj tk) ''devices'' (JArr xs ps))
          = setp (JObj tk) ''devices'' (jsonify (JArr xs ps))"
    using t(1) tk by (intro jsonify_setp) simp_all
  then have j: "jsonify (setp (tenant_in f uid) ''devices'' (JArr xs ps))
          = setp (JObj tk) ''devices'' (JArr (map jsonify xs) [])"
    by (simp only: tk ja)
  have j2: "is_json (setp (JObj tk) ''devices'' (JArr (map jsonify xs) []))"
    using t(1) tk xs by (intro is_json_setp) auto
  have j3: "is_object (setp (JObj tk) ''devices'' (JArr (map jsonify xs) []))" by simp
  have j4: "getp (setp (JObj tk) ''devices'' (JArr (map jsonify xs) [])) ''devices''
              = JArr (map jsonify xs) []"
    by (simp add: update_conv')
  have j5: "getp (setp (JObj tk) ''devices'' (JArr (map jsonify xs) [])) ''locations''
              = JArr (locations_in f uid) []"
    using t(3) tk by (simp add: update_conv')
  note rb = readback [OF ok j j2 j3 j5 j4 f']
  show "devices_in f' uid = map jsonify xs" by (rule rb(3))
  show "locations_in f' uid = locations_in f uid" by (rule rb(2))
  show "B \<noteq> uid \<Longrightarrow> stored_entry f' B = stored_entry f B" by (rule rb(4))
  show "store_ok f' uid" if "\<forall>x \<in> set xs. is_object x"
  proof (rule rb(5))
    show "list_all is_object (map jsonify xs)" using that by (simp add: list_all_iff)
    show "list_all is_object (locations_in f uid)" using ok by (simp add: store_ok_def)
  qed
qed

lemma store_ok_locations_json: "store_ok f uid \<Longrightarrow> \<forall>l \<in> set (locations_in f uid). is_json l"
  using tenant_in_ok(1,3) [of f uid] is_json_getp [of "tenant_in f uid" "''locations''"] by auto

lemma store_ok_devices_json: "store_ok f uid \<Longrightarrow> \<forall>l \<in> set (devices_in f uid). is_json l"
  using tenant_in_ok(1,4) [of f uid] is_json_getp [of "tenant_in f uid" "''devices''"] by auto

lemma handle_Sent:
  assumes "handle e uid req f = (f', Sent n body)"
    and pl: "plain uid"
  shows "\<exists>t' w. route e uid req (tenant_in f uid) = Inr (t', w, Sent n body) \<and>
           f' = (if w then Parsed (jsonify (put_tenant (load f) uid t')) else ensureDataFile f)"
proof (cases "route e uid req (tenant_in f uid)")
  case (Inl err)
  then show ?thesis using assms by (simp add: handle_eq_plain [OF pl])
next
  case (Inr x)
  obtain t' w r where x: "x = (t', w, r)" by (cases x)
  show ?thesis using assms Inr x by (simp add: handle_eq_plain [OF pl] del: jsonify.simps)
qed

lemma post_ingest_created:
  assumes "post_ingest e uid b tenant = Inr (t', w, Sent 201 body)"
    and "parseBody b = Inr payload"
    and "src = js_or payload (JObj [])"
  shows "\<exists>petId loc ls.
           (truthy (getp src ''code'') \<or> truthy (getp src ''deviceId'')) \<and>
           resolvePetIdByIdentifier tenant (getp src ''code'') (getp src ''deviceId'') = Inr petId \<and>
           truthy petId \<and>
           ingest_record e uid payload petId = Inr loc \<and>
           elems (getp tenant ''locations'') = Inr ls \<and>
           w \<and>
           t' = setp tenant ''locations'' (with_elems (getp tenant ''locations'') (ls @ [loc])) \<and>
           body = jsonify loc"
  using assms
  unfolding post_ingest_def Let_def sendJson_def
  by (auto simp: bindE_Inr_iff split: if_splits simp del: jsonify.simps)

lemma ingest_record_Inr:
  assumes "ingest_record e uid payload petId = Inr loc"
    and "src = js_or payload (JObj [])"
  shows "\<exists>latitude longitude acc spd createdAt.
           js_Number e (getp src ''lat'') = Inr latitude \<and>
           js_Number e (getp src ''lng'') = Inr longitude \<and>
           opt_number e (getp src ''accuracy'') = Inr acc \<and>
           opt_number e (getp src ''speed'') = Inr spd \<and>
           (if truthy (getp src ''timestamp'')
            then bindE (js_Number e (getp src ''timestamp'')) (date_iso e)
            else Inr (now_iso e)) = Inr createdAt \<and>
           loc = JObj [(''id'', JStr (genId e)),
                      (''petId'', petId),
                      (''label'', js_or (getp payload ''label'') (JStr ''device'')),
                      (''latitude'', JNum latitude),
                      (''longitude'', JNum longitude),
                      (''accuracy'', acc),
                      (''speed'', spd),
                      (''createdAt'', JStr createdAt),
                      (''origin'', JStr ''device''),
                      (''createdBy'', js_or (getp src ''deviceId'')
                                        (js_or (getp src ''code'') (JStr ''unknown''))),
                      (''uid'', JStr uid)]"
  using assms(1) unfolding ingest_record_def Let_def assms(2) bindE_Inr_iff
  by blast

lemma opt_number_Inr:
  "opt_number e v = Inr r \<Longrightarrow>
     (nullish v \<and> r = JUndefined) \<or> (\<not> nullish v \<and> (\<exists>n. js_Number e v = Inr n \<and> r = JNum n))"
  by (auto simp: opt_number_def bindE_Inr_iff split: if_splits)

lemma is_json_jsonify_num [simp]: "is_json (case n of Fin q \<Rightarrow> JNum (Fin q) | _ \<Rightarrow> JNull)"
  by (cases n) simp_all

lemma js_or_json: "is_json a \<or> a = JUndefined \<Longrightarrow> is_json b \<Longrightarrow> is_json (js_or a b)"
  by (auto simp: js_or_def)

lemma getp_json_or_undef: "is_json v \<Longrightarrow> is_json (getp v k) \<or> getp v k = JUndefined"
  using is_json_getp by blast

lemma ingest_record_json:
  assumes "ingest_record e uid payload petId = Inr loc" "is_json payload" "is_json petId"
  shows "is_json (jsonify loc)" "is_object loc"
proof -
  let ?src = "js_or payload (JObj [])"
  have js: "is_json ?src" using assms(2) by (simp add: js_or_def)
  from ingest_record_Inr [OF assms(1) refl]
  obtain latitude longitude acc spd createdAt where
    acc: "opt_number e (getp ?src ''accuracy'') = Inr acc"
    and spd: "opt_number e (getp ?src ''speed'') = Inr spd"
    and loc: "loc = JObj [(''id'', JStr (genId e)),
                      (''petId'', petId),
                      (''label'', js_or (getp payload ''label'') (JStr ''device'')),
                      (''latitude'', JNum latitude),
                      (''longitude'', JNum longitude),
                      (''accuracy'', acc),
                      (''speed'', spd),
                      (''createdAt'', JStr createdAt),
                      (''origin'', JStr ''device''),
                      (''createdBy'', js_or (getp ?src ''deviceId'')
                                        (js_or (getp ?src ''code'') (JStr ''unknown''))),
                      (''uid'', JStr uid)]"
    by blast
  have a: "acc = JUndefined \<or> is_json (jsonify acc)"
    using opt_number_Inr [OF acc] by auto
  have s: "spd = JUndefined \<or> is_json (jsonify spd)"
    using opt_number_Inr [OF spd] by auto
  have l: "is_json (js_or (getp payload ''label'') (JStr ''device''))"
    using getp_json_or_undef [OF assms(2), of "''label''"] by (intro js_or_json) auto
  have c: "is_json (js_or (getp ?src ''deviceId'') (js_or (getp ?src ''code'') (JStr ''unknown'')))"
    using getp_json_or_undef [OF js, of "''deviceId''"] getp_json_or_undef [OF js, of "''code''"]
    by (intro js_or_json) auto
  show "is_object loc" using loc by simp
  show "is_json (jsonify loc)"
    unfolding loc
    using a s l c assms(3)
    by (intro is_json_jsonify_obj) (auto simp: jsonify_id)
qed

lemma resolved_json:
  assumes "store_ok f uid"
    and "resolvePetIdByIdentifier (tenant_in f uid) c i = Inr petId" "petId \<noteq> JUndefined"
  shows "is_json petId"
proof -
  let ?ds = "devices_in f uid"
  note r = resolve_first [OF tenant_in_ok(4) [OF assms(1)] store_ok_devices [OF assms(1)], of c i]
  show ?thesis
  proof (cases "first_index (matches c i) ?ds")
    case None
    then show ?thesis using r assms(2,3) by simp
  next
    case (Some n)
    then have "n < length ?ds" using first_index_Some by blast
    then have "is_json (?ds ! n)" using store_ok_devices_json [OF assms(1)] by simp
    moreover have "petId = getp (?ds ! n) ''petId''" using r assms(2) Some by simp
    ultimately show ?thesis using assms(3) is_json_getp by blast
  qed
qed

lemma map_of_fold_update:
  "distinct (map fst kvs) \<Longrightarrow>
   map_of (fold (\<lambda>(k, v). AList.update k v) kvs tgt) = map_of tgt ++ map_of kvs"
proof (induction kvs arbitrary: tgt)
  case Nil
  then show ?case by simp
next
  case (Cons kv kvs)
  obtain k v where kv: "kv = (k, v)" by (cases kv)
  have n: "map_of kvs k = None" using Cons.prems kv by (simp add: map_of_eq_None_iff)
  have "map_of (fold (\<lambda>(k, v). AList.update k v) (kv # kvs) tgt)
          = map_of (AList.update k v tgt) ++ map_of kvs"
    using Cons kv by simp
  also have "\<dots> = (map_of tgt)(k \<mapsto> v) ++ map_of kvs" by (simp add: update_conv')
  also have "\<dots> = map_of tgt ++ map_of (kv # kvs)"
    using n kv by (auto simp: map_add_def fun_eq_iff split: option.splits)
  finally show ?case .
qed

lemma distinct_fold_update:
  "distinct (map fst tgt) \<Longrightarrow> distinct (map fst (fold (\<lambda>(k, v). AList.update k v) kvs tgt))"
  by (induction kvs arbitrary: tgt) (auto simp: distinct_update)

lemma set_alist_update: "set (AList.update k v al) \<subseteq> insert (k, v) (set al)"
  by (induction al) auto

lemma values_update:
  "\<forall>kv \<in> set tgt. P (snd kv) \<Longrightarrow> P v \<Longrightarrow> \<forall>kv \<in> set (AList.update k v tgt). P (snd kv)"
  by (induction tgt) auto

lemma values_fold_update:
  "\<forall>kv \<in> set tgt. P (snd kv) \<Longrightarrow> \<forall>kv \<in> set kvs. P (snd kv) \<Longrightarrow>
   \<forall>kv \<in> set (fold (\<lambda>(k, v). AList.update k v) kvs tgt). P (snd kv)"
proof (induction kvs arbitrary: tgt)
  case Nil
  then show ?case by simp
next
  case (Cons kv kvs)
  obtain k v where kv: "kv = (k, v)" by (cases kv)
  have 1: "\<forall>x \<in> set (AList.update k v tgt). P (snd x)"
    using Cons.prems(1) by (rule values_update) (use Cons.prems(2) kv in simp)
  have 2: "\<forall>x \<in> set kvs. P (snd x)" using Cons.prems(2) by simp
  have "fold (\<lambda>(k, v). AList.update k v) (kv # kvs) tgt
          = fold (\<lambda>(k, v). AList.update k v) kvs (AList.update k v tgt)"
    using kv by simp
  then show ?case using Cons.IH [OF 1 2] by simp
qed

lemma getp_spread_obj:
  "distinct (map fst kvs) \<Longrightarrow>
   map_of (spread_into tgt (JObj kvs)) k =
     (case map_of kvs k of Some v \<Rightarrow> Some v | None \<Rightarrow> map_of tgt k)"
  unfolding spread_into_def own_entries.simps
  by (simp only: map_of_fold_update) (simp add: map_add_def split: option.splits)

lemma distinct_spread: "distinct (map fst tgt) \<Longrightarrow> distinct (map fst (spread_into tgt x))"
  unfolding spread_into_def by (rule distinct_fold_update)

lemma values_spread_obj:
  "\<forall>kv \<in> set tgt. P (snd kv) \<Longrightarrow> \<forall>kv \<in> set kvs. P (snd kv) \<Longrightarrow>
   \<forall>kv \<in> set (spread_into tgt (JObj kvs)). P (snd kv)"
  unfolding spread_into_def own_entries.simps by (rule values_fold_update)

lemma incoming_loc_obj:
  assumes "is_json payload" "is_object (js_or payload (JObj []))"
  shows "is_json (incoming_loc e uid payload)" "is_object (incoming_loc e uid payload)"
    "getp (incoming_loc e uid payload) k =
       (if k = ''uid'' then JStr uid
        else if k = ''id'' \<and> \<not> truthy (getp (js_or payload (JObj [])) ''id'') then JStr (genId e)
        else getp (js_or payload (JObj [])) k)"
proof -
  let ?s = "js_or payload (JObj [])"
  obtain kvs where s: "?s = JObj kvs" using assms(2) by (cases ?s) simp_all
  have js: "is_json (JObj kvs)" using assms(1) s by (auto simp: js_or_def split: if_splits)
  let ?l1 = "if \<not> truthy (getp (JObj kvs) ''id'') then setp (JObj kvs) ''id'' (JStr (genId e)) else JObj kvs"
  have l1: "is_json ?l1 \<and> is_object ?l1" using js is_json_setp [OF js, of "JStr (genId e)" "''id''"] by simp
  then obtain ks where ks: "?l1 = JObj ks" by (cases ?l1) simp_all
  have il: "incoming_loc e uid payload = setp (JObj ks) ''uid'' (JStr uid)"
    unfolding incoming_loc_def Let_def s ks ..
  have jk: "is_json (JObj ks)" using l1 ks by simp
  show "is_json (incoming_loc e uid payload)" unfolding il using jk by (rule is_json_setp) simp
  show "is_object (incoming_loc e uid payload)" unfolding il by simp
  have "getp (JObj ks) k = (if k = ''id'' \<and> \<not> truthy (getp (JObj kvs) ''id'') then JStr (genId e)
        else getp (JObj kvs) k)"
    unfolding ks [symmetric] by (simp add: update_conv')
  then show "getp (incoming_loc e uid payload) k =
       (if k = ''uid'' then JStr uid
        else if k = ''id'' \<and> \<not> truthy (getp ?s ''id'') then JStr (genId e)
        else getp ?s k)"
    unfolding il s by (simp add: update_conv')
qed

lemma post_localizacao_run:
  assumes "getp t ''locations'' = JArr ls []" "\<forall>l \<in> set ls. \<not> nullish l"
    and "parseBody b = Inr payload"
  shows "post_localizacao e uid b t =
     Inr (case first_index (\<lambda>l. strict_eq (getp l ''id'') (getp (incoming_loc e uid payload) ''id'')) ls of
            Some i \<Rightarrow>
              (setp t ''locations''
                 (JArr (ls[i := merged_loc (ls ! i) (incoming_loc e uid payload) (JStr (now_iso e))]) []),
               True, sendJson 200 (merged_loc (ls ! i) (incoming_loc e uid payload) (JStr (now_iso e))))
          | None \<Rightarrow>
              (setp t ''locations''
                 (JArr (ls @ [created_loc (incoming_loc e uid payload) (JStr (now_iso e))]) []),
               True, sendJson 201 (created_loc (incoming_loc e uid payload) (JStr (now_iso e)))))"
proof -
  let ?loc = "incoming_loc e uid payload"
  have "findIndexE (\<lambda>l. bindE (get l ''id'') (\<lambda>v. Inr (strict_eq v (getp ?loc ''id'')))) ls
          = Inr (first_index (\<lambda>l. strict_eq (getp l ''id'') (getp ?loc ''id'')) ls)"
    using assms(2) by (intro findIndexE_pure) (simp add: get_def)
  then show ?thesis
    using assms(1,3)
    by (simp add: post_localizacao_def Let_def elems_def with_elems_def split: option.splits)
qed

lemma merged_loc_obj:
  assumes "is_json (JObj a)" "is_json (JObj b)" "is_json now"
  shows "is_json (merged_loc (JObj a) (JObj b) now)"
    and "getp (merged_loc (JObj a) (JObj b) now) k =
           (if k = ''updatedAt'' then now
            else if getp (JObj b) k \<noteq> JUndefined then getp (JObj b) k else getp (JObj a) k)"
proof -
  let ?m = "spread_into (spread_into [] (JObj a)) (JObj b)"
  have d: "distinct (map fst ?m)" by (intro distinct_spread) simp
  have va: "\<forall>kv \<in> set a. is_json (snd kv)" using assms(1) by simp
  have vb: "\<forall>kv \<in> set b. is_json (snd kv)" using assms(2) by simp
  have "\<forall>kv \<in> set (spread_into [] (JObj a)). is_json (snd kv)"
    by (rule values_spread_obj) (simp, rule va)
  then have v: "\<forall>kv \<in> set ?m. is_json (snd kv)"
    using vb by (rule values_spread_obj)
  have "\<forall>kv \<in> set (AList.update ''updatedAt'' now ?m). is_json (snd kv)"
    using v assms(3) by (rule values_update)
  then show "is_json (merged_loc (JObj a) (JObj b) now)"
    using d by (simp add: merged_loc_def distinct_update)
  have b: "map_of b k = Some v \<Longrightarrow> v \<noteq> JUndefined" for v
    using assms(2) by (auto dest!: map_of_SomeD)
  have "map_of (spread_into [] (JObj a)) k = map_of a k"
    using assms(1) by (simp add: getp_spread_obj split: option.splits)
  moreover have "map_of ?m k =
      (case map_of b k of Some v \<Rightarrow> Some v | None \<Rightarrow> map_of (spread_into [] (JObj a)) k)"
    using assms(2) by (simp add: getp_spread_obj)
  ultimately have "map_of ?m k = (case map_of b k of Some v \<Rightarrow> Some v | None \<Rightarrow> map_of a k)"
    by (simp split: option.splits)
  then show "getp (merged_loc (JObj a) (JObj b) now) k =
           (if k = ''updatedAt'' then now
            else if getp (JObj b) k \<noteq> JUndefined then getp (JObj b) k else getp (JObj a) k)"
    using b by (auto simp: merged_loc_def update_conv' split: option.splits)
qed

lemma created_loc_obj:
  assumes "is_json (JObj b)" "is_json now"
  shows "is_json (created_loc (JObj b) now)" "is_object (created_loc (JObj b) now)"
    and "getp (created_loc (JObj b) now) k =
           (if k = ''createdAt'' \<and> \<not> truthy (getp (JObj b) ''createdAt'') then now
            else getp (JObj b) k)"
proof -
  show "is_json (created_loc (JObj b) now)"
    using is_json_setp [OF assms, of "''createdAt''"] assms(1) by (simp add: created_loc_def)
  show "is_object (created_loc (JObj b) now)" by (simp add: created_loc_def)
  show "getp (created_loc (JObj b) now) k =
           (if k = ''createdAt'' \<and> \<not> truthy (getp (JObj b) ''createdAt'') then now
            else getp (JObj b) k)"
    by (simp add: created_loc_def update_conv')
qed

lemma upsert_handle:
  assumes ok: "store_ok f uid" and pb: "parseBody b = Inr payload"
    and pl: "plain uid"
  shows "handle e uid (PostLocalizacao b) f =
     (case first_index (\<lambda>l. strict_eq (getp l ''id'') (getp (incoming_loc e uid payload) ''id''))
             (locations_in f uid) of
        Some i \<Rightarrow>
          (Parsed (jsonify (put_tenant (load f) uid (setp (tenant_in f uid) ''locations''
             (JArr ((locations_in f uid)[i := merged_loc (locations_in f uid ! i)
                      (incoming_loc e uid payload) (JStr (now_iso e))]) [])))),
           sendJson 200 (merged_loc (locations_in f uid ! i) (incoming_loc e uid payload)
                           (JStr (now_iso e))))
      | None \<Rightarrow>
          (Parsed (jsonify (put_tenant (load f) uid (setp (tenant_in f uid) ''locations''
             (JArr (locations_in f uid @ [created_loc (incoming_loc e uid payload) (JStr (now_iso e))])
                [])))),
           sendJson 201 (created_loc (incoming_loc e uid payload) (JStr (now_iso e)))))"
  unfolding handle_eq_plain [OF pl] route.simps
    post_localizacao_run [OF tenant_in_ok(3) [OF ok] store_ok_locations [OF ok] pb]
  by (simp split: option.splits del: jsonify.simps)

lemma json_list_update:
  "\<forall>x \<in> set xs. is_json x \<Longrightarrow> is_json y \<Longrightarrow> \<forall>x \<in> set (xs[i := y]). is_json x"
  using set_update_subset_insert [of xs i y] by auto

lemma map_jsonify_id: "\<forall>x \<in> set xs. is_json x \<Longrightarrow> map jsonify xs = xs"
  by (intro map_idI) (simp add: jsonify_id)

lemma json_commit:
  "\<forall>x \<in> set xs. is_json x \<Longrightarrow> \<forall>x \<in> set xs. x \<noteq> JUndefined \<and> is_json (jsonify x)"
  by (auto simp: jsonify_id)

lemma upsert_cases:
  assumes ok: "store_ok f uid"
    and pb: "parseBody b = Inr payload" and pj: "is_json payload"
    and po: "is_object (js_or payload (JObj []))"
    and res: "handle e uid (PostLocalizacao b) f = (f', resp)"
    and pl: "plain uid"
  obtains (update) i a lb where
      "first_index (\<lambda>l. strict_eq (getp l ''id'') (getp (incoming_loc e uid payload) ''id''))
         (locations_in f uid) = Some i"
      "locations_in f uid ! i = JObj a" "is_json (JObj a)"
      "incoming_loc e uid payload = JObj lb" "is_json (JObj lb)"
      "resp = Sent 200 (merged_loc (JObj a) (JObj lb) (JStr (now_iso e)))"
      "locations_in f' uid =
         (locations_in f uid)[i := merged_loc (JObj a) (JObj lb) (JStr (now_iso e))]"
      "devices_in f' uid = devices_in f uid"
      "\<And>B. B \<noteq> uid \<Longrightarrow> stored_entry f' B = stored_entry f B"
    | (create) lb where
      "first_index (\<lambda>l. strict_eq (getp l ''id'') (getp (incoming_loc e uid payload) ''id''))
         (locations_in f uid) = None"
      "incoming_loc e uid payload = JObj lb" "is_json (JObj lb)"
      "resp = Sent 201 (created_loc (JObj lb) (JStr (now_iso e)))"
      "locations_in f' uid = locations_in f uid @ [created_loc (JObj lb) (JStr (now_iso e))]"
      "devices_in f' uid = devices_in f uid"
      "\<And>B. B \<noteq> uid \<Longrightarrow> stored_entry f' B = stored_entry f B"
proof -
  let ?loc = "incoming_loc e uid payload" and ?now = "JStr (now_iso e)"
  let ?ls = "locations_in f uid"
  note il = incoming_loc_obj [OF pj po, of e uid]
  obtain lb where lb: "?loc = JObj lb" using il(2) by (cases ?loc) simp_all
  have jlb: "is_json (JObj lb)" using il(1) lb by simp
  note h = upsert_handle [OF ok pb pl, of e, unfolded res]
  have jls: "\<forall>x \<in> set ?ls. is_json x" using ok by (rule store_ok_locations_json)
  show thesis
  proof (cases "first_index (\<lambda>l. strict_eq (getp l ''id'') (getp ?loc ''id'')) ?ls")
    case None
    let ?c = "created_loc (JObj lb) ?now"
    have jc: "is_json ?c" using created_loc_obj(1) [OF jlb, of ?now] by simp
    have f': "f' = Parsed (jsonify (put_tenant (load f) uid (setp (tenant_in f uid) ''locations''
             (JArr (?ls @ [?c]) []))))" and r: "resp = Sent 201 ?c"
      using h None lb jc by (simp_all add: sendJson_def jsonify_id del: jsonify.simps)
    have all: "\<forall>x \<in> set (?ls @ [?c]). is_json x" using jls jc by simp
    note c = commit_locations [OF ok f' json_commit [OF all]]
    have l: "locations_in f' uid = ?ls @ [?c]"
      using c(1) map_jsonify_id [OF all] by simp
    show ?thesis using None lb jlb r l c(2) c(3) by (rule create)
  next
    case (Some i)
    then have i: "i < length ?ls" using first_index_Some by blast
    have "is_object (?ls ! i)" using ok i by (simp add: store_ok_def list_all_iff)
    then obtain a where a: "?ls ! i = JObj a" by (cases "?ls ! i") simp_all
    have ja: "is_json (JObj a)" using jls i a nth_mem by metis
    let ?m = "merged_loc (JObj a) (JObj lb) ?now"
    have jm: "is_json ?m" using merged_loc_obj(1) [OF ja jlb, of ?now] by simp
    have f': "f' = Parsed (jsonify (put_tenant (load f) uid (setp (tenant_in f uid) ''locations''
             (JArr (?ls[i := ?m]) []))))" and r: "resp = Sent 200 ?m"
      using h Some a lb jm by (simp_all add: sendJson_def jsonify_id del: jsonify.simps)
    have all: "\<forall>x \<in> set (?ls[i := ?m]). is_json x" using jls jm by (rule json_list_update)
    note c = commit_locations [OF ok f' json_commit [OF all]]
    have l: "locations_in f' uid = ?ls[i := ?m]"
      using c(1) map_jsonify_id [OF all] by simp
    show ?thesis using Some a ja lb jlb r l c(2) c(3) by (rule update)
  qed
qed

lemma handle_bad_body:
  "handle e uid (PostLocalizacao BadBody) f = (ensureDataFile f, Caught (Error ''Invalid JSON''))"
  by (simp add: handle_eq post_localizacao_def parseBody_def)







lemma json_filter: "\<forall>x \<in> set xs. is_json x \<Longrightarrow> \<forall>x \<in> set (filter P xs). is_json x"
  by simp

lemma scope_filter:
  assumes "\<forall>l \<in> set ls. \<not> nullish l" "list_all (petId_prints e) ls"
  shows "filterE (\<lambda>l. bindE (get l ''petId'') (\<lambda>v.
                        bindE (js_String e v) (\<lambda>s.
                        bindE (js_String e (JStr p)) (\<lambda>p. Inr (s \<noteq> p))))) ls
           = Inr (filter (\<lambda>l. petId_string e l \<noteq> p) ls)"
proof (rule filterE_pure, rule ballI)
  fix l assume l: "l \<in> set ls"
  then have n: "\<not> nullish l" using assms(1) by simp
  have "petId_prints e l" using assms(2) l by (simp add: list_all_iff)
  then obtain s where s: "js_String e (getp l ''petId'') = Inr s"
    by (cases "js_String e (getp l ''petId'')") (simp_all add: petId_prints_def)
  then show "bindE (get l ''petId'') (\<lambda>v.
                        bindE (js_String e v) (\<lambda>s.
                        bindE (js_String e (JStr p)) (\<lambda>p. Inr (s \<noteq> p))))
               = Inr (petId_string e l \<noteq> p)"
    using n by (simp add: get_def petId_string_def)
qed

lemma scope_handle:
  assumes ok: "store_ok f uid"
    and pr: "truthy (qparam q) \<longrightarrow> list_all (petId_prints e) (locations_in f uid)"
    and pl: "plain uid"
  shows "handle e uid (DeleteLocalizacaoScope q) f =
     (Parsed (jsonify (put_tenant (load f) uid (setp (tenant_in f uid) ''locations''
         (JArr (if truthy (qparam q)
                then filter (\<lambda>l. petId_string e l \<noteq> the q) (locations_in f uid) else []) [])))),
      Sent 200 (JObj [(''ok'', JBool True),
         (''deleted'', JNum (Fin (of_nat (length (locations_in f uid) -
             length (if truthy (qparam q)
                then filter (\<lambda>l. petId_string e l \<noteq> the q) (locations_in f uid) else []))))),
         (''scope'', if truthy (qparam q) then JObj [(''petId'', qparam q)] else JStr ''all'')]))"
proof (cases "truthy (qparam q)")
  case True
  then obtain p where q: "q = Some p" "p \<noteq> []" by (cases q) (auto simp: qparam_def)
  have "list_all (petId_prints e) (locations_in f uid)" using pr True by simp
  note sf = scope_filter [OF store_ok_locations [OF ok] this, of p]
  show ?thesis
    unfolding handle_eq_plain [OF pl] route.simps delete_localizacao_scope_def Let_def
    using q sf tenant_in_ok(3) [OF ok]
    by (simp add: qparam_def elems_def sendJson_def del: jsonify.simps) simp
next
  case False
  show ?thesis
    unfolding handle_eq_plain [OF pl] route.simps delete_localizacao_scope_def Let_def
    using False tenant_in_ok(3) [OF ok]
    by (simp add: elems_def sendJson_def del: jsonify.simps) simp
qed

lemma upsertDevice_run:
  assumes "getp t ''devices'' = JArr ds []" "\<forall>d \<in> set ds. \<not> nullish d"
  shows "upsertDevice e t payload =
     Inr (case first_index (matches (getp payload ''code'') (getp payload ''deviceId'')) ds of
            Some i \<Rightarrow>
              (setp t ''devices'' (JArr (ds[i := merged_dev (ds ! i) (incoming_dev e payload)]) []),
               merged_dev (ds ! i) (incoming_dev e payload))
          | None \<Rightarrow>
              (setp t ''devices'' (JArr (ds @ [created_dev e (incoming_dev e payload)]) []),
               incoming_dev e payload))"
proof -
  have g: "getp (incoming_dev e payload) ''code'' = getp payload ''code''"
    "getp (incoming_dev e payload) ''deviceId'' = getp payload ''deviceId''"
    by (simp_all add: incoming_dev_def)
  have "findIndexE (dev_match (getp payload ''code'') (getp payload ''deviceId'')) ds
          = Inr (first_index (matches (getp payload ''code'') (getp payload ''deviceId'')) ds)"
    using assms(2) by (intro findIndexE_pure) (simp add: dev_match_pure)
  then show ?thesis
    using assms(1) unfolding upsertDevice_def Let_def g
    by (simp add: elems_def with_elems_def split: option.splits)
qed

lemma register_handle:
  assumes ok: "store_ok f uid"
    and p: "truthy (getp payload ''petId'')"
    and c: "truthy (getp payload ''code'') \<or> truthy (getp payload ''deviceId'')"
    and pl: "plain uid"
  shows "handle e uid (PostRegister (Body payload)) f =
     (case first_index (matches (getp payload ''code'') (getp payload ''deviceId''))
             (devices_in f uid) of
        Some i \<Rightarrow>
          (Parsed (jsonify (put_tenant (load f) uid (setp (tenant_in f uid) ''devices''
             (JArr ((devices_in f uid)[i := merged_dev (devices_in f uid ! i)
                      (incoming_dev e payload)]) [])))),
           Sent 201 (jsonify (merged_dev (devices_in f uid ! i) (incoming_dev e payload))))
      | None \<Rightarrow>
          (Parsed (jsonify (put_tenant (load f) uid (setp (tenant_in f uid) ''devices''
             (JArr (devices_in f uid @ [created_dev e (incoming_dev e payload)]) [])))),
           Sent 201 (jsonify (incoming_dev e payload))))"
  unfolding handle_eq_plain [OF pl] route.simps post_register_def
    upsertDevice_run [OF tenant_in_ok(4) [OF ok] store_ok_devices [OF ok]]
  using p c
  by (simp add: parseBody_def sendJson_def split: option.splits del: jsonify.simps)

lemma incoming_dev_fields:
  assumes "is_json payload"
  shows "\<exists>kvs. incoming_dev e payload = JObj kvs \<and> distinct (map fst kvs) \<and>
           (\<forall>kv \<in> set kvs. snd kv = JUndefined \<or> is_json (jsonify (snd kv))) \<and>
           (\<forall>k. map_of kvs k =
              (if k = ''petId'' \<or> k = ''code'' \<or> k = ''deviceId'' \<or> k = ''name''
               then Some (getp payload k)
               else if k = ''updatedAt'' then Some (JStr (now_iso e)) else None))"
proof -
  have "getp payload k = JUndefined \<or> is_json (jsonify (getp payload k))" for k
    using getp_json_or_undef [OF assms, of k] by (auto simp: jsonify_id)
  then show ?thesis
    unfolding incoming_dev_def by (intro exI conjI) (rule refl, auto)
qed

lemma stored_merged_dev:
  assumes a: "is_json (JObj a)" and pj: "is_json payload"
  shows "is_json (jsonify (merged_dev (JObj a) (incoming_dev e payload)))"
    and "is_object (merged_dev (JObj a) (incoming_dev e payload))"
    and "getp (jsonify (merged_dev (JObj a) (incoming_dev e payload))) k =
           (if k = ''petId'' \<or> k = ''code'' \<or> k = ''deviceId'' \<or> k = ''name''
            then getp payload k
            else if k = ''updatedAt'' then JStr (now_iso e) else getp (JObj a) k)"
proof -
  from incoming_dev_fields [OF pj, of e] obtain kvs where
    d: "incoming_dev e payload = JObj kvs" and dk: "distinct (map fst kvs)"
    and v: "\<forall>kv \<in> set kvs. snd kv = JUndefined \<or> is_json (jsonify (snd kv))"
    and m: "\<And>k. map_of kvs k =
              (if k = ''petId'' \<or> k = ''code'' \<or> k = ''deviceId'' \<or> k = ''name''
               then Some (getp payload k)
               else if k = ''updatedAt'' then Some (JStr (now_iso e)) else None)"
    by blast
  let ?m = "spread_into (spread_into [] (JObj a)) (JObj kvs)"
  have dm: "distinct (map fst ?m)" by (intro distinct_spread) simp
  have va: "\<forall>kv \<in> set a. snd kv = JUndefined \<or> is_json (jsonify (snd kv))"
    using a by (auto simp: jsonify_id)
  have "\<forall>kv \<in> set (spread_into [] (JObj a)). snd kv = JUndefined \<or> is_json (jsonify (snd kv))"
    by (rule values_spread_obj) (simp, rule va)
  then have vm: "\<forall>kv \<in> set ?m. snd kv = JUndefined \<or> is_json (jsonify (snd kv))"
    using v by (rule values_spread_obj)
  show "is_json (jsonify (merged_dev (JObj a) (incoming_dev e payload)))"
    unfolding merged_dev_def d using dm vm by (rule is_json_jsonify_obj)
  show "is_object (merged_dev (JObj a) (incoming_dev e payload))" by (simp add: merged_dev_def)
  have ma: "map_of (spread_into [] (JObj a)) k = map_of a k"
    using a by (simp add: getp_spread_obj split: option.splits)
  have "map_of ?m k = (case map_of kvs k of Some v \<Rightarrow> Some v | None \<Rightarrow> map_of a k)"
    using dk ma by (simp add: getp_spread_obj split: option.splits)
  then have g: "getp (JObj ?m) k =
           (if k = ''petId'' \<or> k = ''code'' \<or> k = ''deviceId'' \<or> k = ''name''
            then getp payload k
            else if k = ''updatedAt'' then JStr (now_iso e) else getp (JObj a) k)"
    by (simp add: m)
  have j: "jsonify (getp payload k) = getp payload k"
    using getp_json_or_undef [OF pj, of k] by (auto simp: jsonify_id)
  have ja: "jsonify (getp (JObj a) k) = getp (JObj a) k"
    using getp_json_or_undef [OF a, of k] by (auto simp: jsonify_id)
  have "getp (jsonify (JObj ?m)) k = jsonify (getp (JObj ?m) k)"
    using dm by (rule getp_jsonify_obj)
  then show "getp (jsonify (merged_dev (JObj a) (incoming_dev e payload))) k =
           (if k = ''petId'' \<or> k = ''code'' \<or> k = ''deviceId'' \<or> k = ''name''
            then getp payload k
            else if k = ''updatedAt'' then JStr (now_iso e) else getp (JObj a) k)"
    unfolding merged_dev_def d g using j ja by (simp del: getp.simps jsonify.simps(7))
qed

lemma stored_created_dev:
  assumes pj: "is_json payload"
  shows "is_json (jsonify (created_dev e (incoming_dev e payload)))"
    and "is_object (created_dev e (incoming_dev e payload))"
    and "getp (jsonify (created_dev e (incoming_dev e payload))) k =
           (if k = ''petId'' \<or> k = ''code'' \<or> k = ''deviceId'' \<or> k = ''name''
            then getp payload k
            else if k = ''updatedAt'' then JStr (now_iso e)
            else if k = ''createdAt'' then JStr (now_iso_later e) else JUndefined)"
proof -
  from incoming_dev_fields [OF pj, of e] obtain kvs where
    d: "incoming_dev e payload = JObj kvs" and dk: "distinct (map fst kvs)"
    and v: "\<forall>kv \<in> set kvs. snd kv = JUndefined \<or> is_json (jsonify (snd kv))"
    and m: "\<And>k. map_of kvs k =
              (if k = ''petId'' \<or> k = ''code'' \<or> k = ''deviceId'' \<or> k = ''name''
               then Some (getp payload k)
               else if k = ''updatedAt'' then Some (JStr (now_iso e)) else None)"
    by blast
  let ?s = "spread_into [] (JObj kvs)"
  let ?c = "AList.update ''createdAt'' (JStr (now_iso_later e)) ?s"
  have ds: "distinct (map fst ?s)" by (intro distinct_spread) simp
  then have dc: "distinct (map fst ?c)" by (rule distinct_update)
  have "\<forall>kv \<in> set ?s. snd kv = JUndefined \<or> is_json (jsonify (snd kv))"
    by (rule values_spread_obj) (simp, rule v)
  then have vc: "\<forall>kv \<in> set ?c. snd kv = JUndefined \<or> is_json (jsonify (snd kv))"
    by (rule values_update) simp
  show "is_json (jsonify (created_dev e (incoming_dev e payload)))"
    unfolding created_dev_def d using dc vc by (rule is_json_jsonify_obj)
  show "is_object (created_dev e (incoming_dev e payload))" by (simp add: created_dev_def)
  have ms: "map_of ?s k' = map_of kvs k'" for k'
    using dk by (simp add: getp_spread_obj split: option.splits)
  have g: "getp (JObj ?c) k =
           (if k = ''petId'' \<or> k = ''code'' \<or> k = ''deviceId'' \<or> k = ''name''
            then getp payload k
            else if k = ''updatedAt'' then JStr (now_iso e)
            else if k = ''createdAt'' then JStr (now_iso_later e) else JUndefined)"
    by (simp add: update_conv' ms m)
  have j: "jsonify (getp payload k) = getp payload k"
    using getp_json_or_undef [OF pj, of k] by (auto simp: jsonify_id)
  have "getp (jsonify (JObj ?c)) k = jsonify (getp (JObj ?c) k)"
    using dc by (rule getp_jsonify_obj)
  then show "getp (jsonify (created_dev e (incoming_dev e payload))) k =
           (if k = ''petId'' \<or> k = ''code'' \<or> k = ''deviceId'' \<or> k = ''name''
            then getp payload k
            else if k = ''updatedAt'' then JStr (now_iso e)
            else if k = ''createdAt'' then JStr (now_iso_later e) else JUndefined)"
    unfolding created_dev_def d g using j by (simp del: getp.simps jsonify.simps(7))
qed

lemma first_indexI:
  "i < length xs \<Longrightarrow> P (xs ! i) \<Longrightarrow> \<forall>j < i. \<not> P (xs ! j) \<Longrightarrow> first_index P xs = Some i"
proof (induction xs arbitrary: i)
  case Nil
  then show ?case by simp
next
  case (Cons x xs)
  show ?case
  proof (cases i)
    case 0
    then show ?thesis using Cons.prems by simp
  next
    case (Suc k)
    have nx: "\<not> P x" using Cons.prems(3) Suc by auto
    have "first_index P xs = Some k"
    proof (rule Cons.IH)
      show "k < length xs" using Cons.prems(1) Suc by simp
      show "P (xs ! k)" using Cons.prems(2) Suc by simp
      show "\<forall>j < k. \<not> P (xs ! j)" using Cons.prems(3) Suc by auto
    qed
    then show ?thesis using nx Suc by simp
  qed
qed

lemma find_first_index: "find P xs = map_option (\<lambda>i. xs ! i) (first_index P xs)"
  by (induction xs) (auto simp: option.map_comp comp_def)

lemma matches_code_only:
  "\<not> truthy d \<Longrightarrow> matches c d x = (truthy c \<and> strict_eq (getp x ''code'') c)"
  by (simp add: matches_def)

lemma matches_weaken:
  "\<not> matches c d x \<Longrightarrow> \<not> (truthy c \<and> strict_eq (getp x ''code'') c)"
  by (simp add: matches_def)

lemma list_update_all:
  "\<forall>x \<in> set xs. P x \<Longrightarrow> P y \<Longrightarrow> \<forall>x \<in> set (xs[i := y]). P x"
  by (auto dest!: set_update_subset_insert [THEN subsetD])

lemma strict_eq_refl: "truthy c \<Longrightarrow> is_primitive c \<Longrightarrow> strict_eq c c"
  by (cases c) auto

lemma register_effect:
  assumes ok: "store_ok f uid" and pj: "is_json payload"
    and p: "truthy (getp payload ''petId'')"
    and c: "getp payload ''code'' = cd" "truthy cd" "is_primitive cd"
    and res: "handle e uid (PostRegister (Body payload)) f = (f1, resp)"
    and pl: "plain uid"
  shows "status resp = 201" "store_ok f1 uid"
    and "\<exists>i. first_index (matches cd JUndefined) (devices_in f1 uid) = Some i \<and>
             getp (devices_in f1 uid ! i) ''petId'' = getp payload ''petId''"
proof -
  let ?ds = "devices_in f uid" and ?dev = "incoming_dev e payload"
  let ?P = "matches cd (getp payload ''deviceId'')"
  let ?Q = "\<lambda>x. truthy cd \<and> strict_eq (getp x ''code'') cd"
  have q: "matches cd JUndefined = ?Q" by (rule ext) (simp add: matches_code_only)
  have tc: "truthy (getp payload ''code'') \<or> truthy (getp payload ''deviceId'')" using c by simp
  note h = register_handle [OF ok p tc pl, of e, unfolded res c(1)]
  have jds: "\<forall>x \<in> set ?ds. is_json x" using ok by (rule store_ok_devices_json)
  have ods: "\<forall>x \<in> set ?ds. is_object x" using ok by (simp add: store_ok_def list_all_iff)
  have "status resp = 201 \<and> store_ok f1 uid \<and>
        (\<exists>i. first_index ?Q (devices_in f1 uid) = Some i \<and>
             getp (devices_in f1 uid ! i) ''petId'' = getp payload ''petId'')"
  proof (cases "first_index ?P ?ds")
    case None
    let ?c = "created_dev e ?dev"
    note sc = stored_created_dev [OF pj, of e]
    have f1: "f1 = Parsed (jsonify (put_tenant (load f) uid (setp (tenant_in f uid) ''devices''
             (JArr (?ds @ [?c]) []))))" and r: "status resp = 201"
      using h None by (simp_all del: jsonify.simps)
    have cu: "?c \<noteq> JUndefined" using sc(2) by auto
    have all: "\<forall>x \<in> set (?ds @ [?c]). x \<noteq> JUndefined \<and> is_json (jsonify x)"
      using jds sc(1) cu by (auto simp: jsonify_id)
    have obj: "\<forall>x \<in> set (?ds @ [?c]). is_object x" using ods sc(2) by simp
    note cm = commit_devices [OF ok f1 all]
    have d1: "devices_in f1 uid = ?ds @ [jsonify ?c]"
      using cm(1) map_jsonify_id [OF jds] by simp
    have nm: "\<forall>j < length ?ds. \<not> ?Q ((?ds @ [jsonify ?c]) ! j)"
    proof (intro allI impI)
      fix j assume j: "j < length ?ds"
      then have "\<not> ?P (?ds ! j)" using None first_index_None [of ?P ?ds] by simp
      then have "\<not> ?Q (?ds ! j)" by (rule matches_weaken)
      then show "\<not> ?Q ((?ds @ [jsonify ?c]) ! j)"
        using j by (simp add: nth_append)
    qed
    have fi: "first_index ?Q (?ds @ [jsonify ?c]) = Some (length ?ds)"
    proof (rule first_indexI)
      show "length ?ds < length (?ds @ [jsonify ?c])" by simp
      show "?Q ((?ds @ [jsonify ?c]) ! length ?ds)"
        using sc(3) [of "''code''"] c by (simp add: strict_eq_refl)
      show "\<forall>j < length ?ds. \<not> ?Q ((?ds @ [jsonify ?c]) ! j)" by (rule nm)
    qed
    have "getp ((?ds @ [jsonify ?c]) ! length ?ds) ''petId'' = getp payload ''petId''"
      using sc(3) [of "''petId''"] by simp
    then show ?thesis using r cm(4) [OF obj] fi unfolding d1 by blast
  next
    case (Some i)
    then have i: "i < length ?ds" using first_index_Some by blast
    have "is_object (?ds ! i)" using ods i by simp
    then obtain a where a: "?ds ! i = JObj a" by (cases "?ds ! i") simp_all
    have ja: "is_json (JObj a)" using jds i a nth_mem by metis
    let ?m = "merged_dev (JObj a) ?dev"
    note sm = stored_merged_dev [OF ja pj, of e]
    have f1: "f1 = Parsed (jsonify (put_tenant (load f) uid (setp (tenant_in f uid) ''devices''
             (JArr (?ds[i := ?m]) []))))" and r: "status resp = 201"
      using h Some a by (simp_all del: jsonify.simps)
    have mu: "?m \<noteq> JUndefined" using sm(2) by auto
    have all: "\<forall>x \<in> set (?ds[i := ?m]). x \<noteq> JUndefined \<and> is_json (jsonify x)"
      by (rule list_update_all) (use jds sm(1) mu in \<open>auto simp: jsonify_id\<close>)
    have obj: "\<forall>x \<in> set (?ds[i := ?m]). is_object x"
      using ods sm(2) by (rule list_update_all)
    note cm = commit_devices [OF ok f1 all]
    have d1: "devices_in f1 uid = ?ds[i := jsonify ?m]"
      using cm(1) map_jsonify_id [OF jds] by (simp add: map_update)
    have fi: "first_index ?Q (?ds[i := jsonify ?m]) = Some i"
    proof (rule first_indexI)
      show "i < length (?ds[i := jsonify ?m])" using i by simp
      show "?Q (?ds[i := jsonify ?m] ! i)"
        using i sm(3) [of "''code''"] c by (simp add: strict_eq_refl)
      show "\<forall>j < i. \<not> ?Q (?ds[i := jsonify ?m] ! j)"
      proof (intro allI impI)
        fix j assume j: "j < i"
        then have "\<not> ?P (?ds ! j)" using Some first_index_Some by blast
        then have "\<not> ?Q (?ds ! j)" by (rule matches_weaken)
        then show "\<not> ?Q (?ds[i := jsonify ?m] ! j)"
          using j by simp
      qed
    qed
    have "getp (?ds[i := jsonify ?m] ! i) ''petId'' = getp payload ''petId''"
      using i sm(3) [of "''petId''"] by simp
    then show ?thesis using r cm(4) [OF obj] fi unfolding d1 by blast
  qed
  then show "status resp = 201" "store_ok f1 uid"
    and "\<exists>i. first_index (matches cd JUndefined) (devices_in f1 uid) = Some i \<and>
             getp (devices_in f1 uid ! i) ''petId'' = getp payload ''petId''"
    unfolding q by blast+
qed

lemma detach_effect:
  assumes ok: "store_ok f uid"
    and fi: "first_index (matches cd JUndefined) (devices_in f uid) = Some i"
    and cs: "truthy cd" "is_primitive cd"
    and res: "handle e uid (PostDetach (Body (JObj [(''code'', cd)])) None None) f = (f2, resp)"
    and pl: "plain uid"
  shows "status resp = 200"
    and "first_index (matches cd JUndefined) (devices_in f2 uid) = Some i"
    and "getp (devices_in f2 uid ! i) ''petId'' = JNull"
    and "store_ok f2 uid"
proof -
  let ?ds = "devices_in f uid"
  let ?Q = "matches cd JUndefined"
  have q: "matches cd JNull = ?Q" by (rule ext) (simp add: matches_code_only)
  have i: "i < length ?ds" and qi: "?Q (?ds ! i)" and nq: "\<forall>j < i. \<not> ?Q (?ds ! j)"
    using first_index_Some [OF fi] by simp_all
  have jds: "\<forall>x \<in> set ?ds. is_json x" using ok by (rule store_ok_devices_json)
  have ods: "\<forall>x \<in> set ?ds. is_object x" using ok by (simp add: store_ok_def list_all_iff)
  have "is_object (?ds ! i)" using ods i by simp
  then obtain a where a: "?ds ! i = JObj a" by (cases "?ds ! i") simp_all
  have ja: "is_json (JObj a)" using jds i a nth_mem by metis
  let ?d = "setp (setp (JObj a) ''petId'' JNull) ''updatedAt'' (JStr (now_iso e))"
  have j1: "is_json (setp (JObj a) ''petId'' JNull)" using ja by (rule is_json_setp) simp
  then obtain a1 where a1: "setp (JObj a) ''petId'' JNull = JObj a1" "is_json (JObj a1)" by simp
  have jd: "is_json ?d" unfolding a1(1) using a1(2) by (rule is_json_setp) simp
  have od: "is_object ?d" by simp
  have gd: "getp ?d ''petId'' = JNull" "getp ?d ''code'' = getp (JObj a) ''code''"
    by (simp_all add: update_conv')
  have fe: "findIndexE (dev_match cd JNull) ?ds = Inr (first_index (matches cd JNull) ?ds)"
    using store_ok_devices [OF ok] by (intro findIndexE_pure) (simp add: dev_match_pure)
  have h: "handle e uid (PostDetach (Body (JObj [(''code'', cd)])) None None) f
      = (Parsed (jsonify (put_tenant (load f) uid (setp (tenant_in f uid) ''devices''
             (JArr (?ds[i := ?d]) [])))), Sent 200 ?d)"
    unfolding handle_eq_plain [OF pl] route.simps post_detach_def Let_def
    using cs fe fi a jd tenant_in_ok(4) [OF ok]
    by (simp add: parseBody_def js_or_def qparam_def elems_def with_elems_def q sendJson_def
        jsonify_id del: jsonify.simps setp.simps)
  then have f2: "f2 = Parsed (jsonify (put_tenant (load f) uid (setp (tenant_in f uid) ''devices''
             (JArr (?ds[i := ?d]) []))))" and r: "resp = Sent 200 ?d"
    using res by simp_all
  show "status resp = 200" using r by simp
  have allj: "\<forall>x \<in> set (?ds[i := ?d]). is_json x" using jds jd by (rule list_update_all)
  have obj: "\<forall>x \<in> set (?ds[i := ?d]). is_object x" using ods od by (rule list_update_all)
  note cm = commit_devices [OF ok f2 json_commit [OF allj]]
  have d2: "devices_in f2 uid = ?ds[i := ?d]" using cm(1) map_jsonify_id [OF allj] by simp
  show "store_ok f2 uid" by (rule cm(4) [OF obj])
  show "getp (devices_in f2 uid ! i) ''petId'' = JNull" unfolding d2 using i gd(1) by simp
  show "first_index ?Q (devices_in f2 uid) = Some i"
    unfolding d2
  proof (rule first_indexI)
    show "i < length (?ds[i := ?d])" using i by simp
    show "?Q (?ds[i := ?d] ! i)" using i qi a gd(2) by (simp add: matches_def del: setp.simps getp.simps)
    show "\<forall>j < i. \<not> ?Q (?ds[i := ?d] ! j)" using nq by simp
  qed
qed

lemma resolve_at:
  assumes ok: "store_ok f uid"
    and fi: "first_index (matches c d) (devices_in f uid) = Some i"
  shows "resolvePetIdByIdentifier (tenant_in f uid) c d = Inr (getp (devices_in f uid ! i) ''petId'')"
  using resolve_first [OF tenant_in_ok(4) [OF ok] store_ok_devices [OF ok], of c d] fi by simp

lemma shares_unpolluted [simp]: "unpolluted W \<Longrightarrow> \<not> shares W t"
  by (simp add: shares_def)

lemma legacy_inherited_unpolluted [simp]: "unpolluted W \<Longrightarrow> \<not> legacy_inherited W f"
  by (simp add: legacy_inherited_def split: content.splits)

lemma listener_plain:
  assumes u: "unpolluted W" and pl: "plain uid"
  shows "listener e uid req (W, f) = ((W, fst (handle e uid req f)), snd (handle e uid req f))"
proof -
  have c: "cell_of V (load f) uid = Entry" if "unpolluted V" for V
    using that pl by (rule cell_of_plain)
  have g: "getTenant V (load f) uid
             = (V, put_tenant (load f) uid (normalized (stored_entry f uid)))" if "unpolluted V" for V
    using load_shape [of f] load_tenants_shape [of f] c [OF that] that
    by (simp add: getTenant_entry stored_entry_def)
  have c2: "cell_of V (put_tenant (load f) uid x) uid = Entry" for x V
    using load_shape [of f] load_tenants_shape [of f] by (simp add: cell_of_put)
  show ?thesis
    using u
    by (simp add: handle_def listener_def readData_unpolluted readData_eq g read_cell_def
        write_cell_def c2 split: sum.splits prod.splits)
qed

lemma serve_plain:
  assumes u: "unpolluted W" and pl: "plain uid" and na: "\<not> is_array (getp (load f) ''tenants'')"
  shows "serve e uid req (W, f) = Some ((W, fst (handle e uid req f)), snd (handle e uid req f))"
proof -
  have c: "cell_of W (load f) uid = Entry"
    using u pl by (rule cell_of_plain)
  have g: "getTenant W (load f) uid
             = (W, put_tenant (load f) uid (normalized (stored_entry f uid)))"
    using load_shape [of f] load_tenants_shape [of f] c u
    by (simp add: getTenant_entry stored_entry_def)
  show ?thesis
    using u na
    by (simp add: serve_def readData_unpolluted readData_eq g listener_plain [OF u pl])
qed

lemma store_ok_tenants: "store_ok f uid \<Longrightarrow> \<not> is_array (getp (load f) ''tenants'')"
  by (cases "getp (load f) ''tenants''") (simp_all add: store_ok_def)

lemma serve_ok:
  assumes "unpolluted W" "plain uid" "store_ok f uid" "handle e uid req f = (f', resp)"
  shows "serve e uid req (W, f) = Some ((W, f'), resp)"
  using serve_plain [OF assms(1,2) store_ok_tenants [OF assms(3)], of e req] assms(4) by simp

lemma js_String_throws:
  "(js_String e v = Inl err \<longrightarrow> err = TypeError)"
  "(join_elems e xs = Inl err \<longrightarrow> err = TypeError)"
  by (induction e v and e xs rule: js_String_join_elems.induct)
    (auto split: if_splits sum.splits)

lemma filterE_throws:
  assumes "\<exists>x \<in> set xs. p x = Inl TypeError" "\<forall>x \<in> set xs. \<forall>err. p x = Inl err \<longrightarrow> err = TypeError"
  shows "filterE p xs = Inl TypeError"
  using assms
proof (induction xs)
  case Nil
  then show ?case by simp
next
  case (Cons x xs)
  show ?case
  proof (cases "p x")
    case (Inl err)
    then show ?thesis using Cons.prems(2) by simp
  next
    case (Inr keep)
    then have "\<exists>x \<in> set xs. p x = Inl TypeError" using Cons.prems(1) by auto
    then have "filterE p xs = Inl TypeError" using Cons.IH Cons.prems(2) by simp
    then show ?thesis using Inr by simp
  qed
qed

lemma scope_throws:
  assumes ok: "store_ok f uid"
    and q: "q = Some p" "p \<noteq> []"
    and np: "\<not> list_all (petId_prints e) (locations_in f uid)"
  shows "handle e uid (DeleteLocalizacaoScope q) f = (ensureDataFile f, Caught TypeError)"
proof -
  let ?pred = "\<lambda>l. bindE (get l ''petId'') (\<lambda>v.
                        bindE (js_String e v) (\<lambda>s.
                        bindE (js_String e (JStr p)) (\<lambda>p. Inr (s \<noteq> p))))"
  let ?ls = "locations_in f uid"
  from np obtain l where l: "l \<in> set ?ls" "\<not> petId_prints e l"
    by (auto simp: list_all_iff)
  have n: "\<not> nullish l" using store_ok_locations [OF ok] l(1) by simp
  obtain err where "js_String e (getp l ''petId'') = Inl err"
    using l(2) by (cases "js_String e (getp l ''petId'')") (simp_all add: petId_prints_def)
  then have "js_String e (getp l ''petId'') = Inl TypeError"
    using js_String_throws(1) by blast
  then have 1: "\<exists>x \<in> set ?ls. ?pred x = Inl TypeError"
    using l(1) n by (intro bexI [of _ l]) (simp_all add: get_def)
  have 2: "\<forall>x \<in> set ?ls. \<forall>err. ?pred x = Inl err \<longrightarrow> err = TypeError"
    using js_String_throws(1) by (auto simp: get_def bindE_Inl_iff split: if_splits)
  have fe: "filterE ?pred ?ls = Inl TypeError" using 1 2 by (rule filterE_throws)
  show ?thesis
    unfolding handle_eq route.simps delete_localizacao_scope_def Let_def
    using q fe tenant_in_ok(3) [OF ok]
    by (simp add: qparam_def elems_def)
qed






section \<open>The claims\<close>

text \<open>
  C5. A legacy file, whose content is an object with a \<^verbatim>\<open>locations\<close> array, loads as a
  store with the single tenant \<^verbatim>\<open>default\<close>; its locations are that array as it is, its
  devices the empty list. The load leaves the file as it was. This holds in every state
  of the process: the array is the file's own.
\<close>

theorem C5_legacy_file_loads_as_default_tenant:
  assumes "getp (JObj kvs) ''locations'' = JArr ls ps"
  shows "readData W (Parsed (JObj kvs)) =
           (Parsed (JObj kvs),
            JObj [(''tenants'',
              JObj [(''default'',
                JObj [(''locations'', JArr ls ps), (''devices'', JArr [] [])])])])"
  proof -
  have "has_own (JObj kvs) ''locations''"
    using assms by (auto split: option.splits)
  then show ?thesis
    using assms by (simp add: readData_def ensureDataFile_def Let_def member_def)
qed

theorem C5_legacy_file_witness:
  "getp (JObj [(''locations'', JArr [JObj [(''id'', JStr ''a'')]] [])]) ''locations''
     = JArr [JObj [(''id'', JStr ''a'')]] [] \<and>
   readData pristine (Parsed (JObj [(''locations'', JArr [JObj [(''id'', JStr ''a'')]] [])])) =
     (Parsed (JObj [(''locations'', JArr [JObj [(''id'', JStr ''a'')]] [])]),
      JObj [(''tenants'',
        JObj [(''default'',
          JObj [(''locations'', JArr [JObj [(''id'', JStr ''a'')]] []),
                (''devices'', JArr [] [])])])])"
  using C5_legacy_file_loads_as_default_tenant
          [of "[(''locations'', JArr [JObj [(''id'', JStr ''a'')]] [])]"
              "[JObj [(''id'', JStr ''a'')]]" "[]" pristine]
  by simp



text \<open>
  C3. What \<^verbatim>\<open>POST /devices/register\<close> does at two inputs. A registration that
  creates a device stores the record with its \<^verbatim>\<open>createdAt\<close> and answers with
  \<^verbatim>\<open>dev\<close>, which has none. A registration of \<^verbatim>\<open>{petId, code}\<close> over the existing
  device \<^verbatim>\<open>C1\<close>, which has a \<^verbatim>\<open>name\<close>, stores a record without the name: the
  \<^verbatim>\<open>undefined\<close> members of \<^verbatim>\<open>dev\<close> override the stored ones and are then left out
  of the file; the \<^verbatim>\<open>createdAt\<close> of the device stays.
\<close>

theorem C3_register_evaluated:
  "handle demo_env ''u1'' (PostRegister (Body (JObj [(''petId'', JStr ''P7''), (''code'', JStr ''C7'')])))
       demo_file
     = (demo_store [demo_loc_a, demo_loc_b]
          [demo_dev_1, demo_dev_2,
           JObj [(''petId'', JStr ''P7''), (''code'', JStr ''C7''),
                 (''updatedAt'', JStr ''2024-01-01T00:00:00.000Z''),
                 (''createdAt'', JStr ''2024-01-01T00:00:00.001Z'')]],
        Sent 201 (JObj [(''petId'', JStr ''P7''), (''code'', JStr ''C7''),
                 (''updatedAt'', JStr ''2024-01-01T00:00:00.000Z'')])) \<and>
   handle demo_env ''u1'' (PostRegister (Body (JObj [(''petId'', JStr ''P5''), (''code'', JStr ''C1'')])))
       demo_file
     = (demo_store [demo_loc_a, demo_loc_b]
          [JObj [(''code'', JStr ''C1''), (''petId'', JStr ''P5''),
                 (''createdAt'', JStr ''2023-06-01T00:00:00.000Z''),
                 (''updatedAt'', JStr ''2024-01-01T00:00:00.000Z'')],
           demo_dev_2],
        Sent 201 (JObj [(''code'', JStr ''C1''), (''petId'', JStr ''P5''),
                 (''createdAt'', JStr ''2023-06-01T00:00:00.000Z''),
                 (''updatedAt'', JStr ''2024-01-01T00:00:00.000Z'')])) \<and>
   getp demo_dev_1 ''name'' = JStr ''tag''"
  by (simp add: store_defs route_defs)

text \<open>
  C6 (as amended). In a process whose \<^verbatim>\<open>Object.prototype\<close> no request has assigned to,
  for a tenant identifier that is not a property name of \<^verbatim>\<open>Object.prototype\<close>, on a
  well-shaped store: a registration whose body is a JSON object with finite numbers, a
  truthy \<^verbatim>\<open>petId\<close> \<open>p\<close> and a code \<open>c\<close> that is a non-empty string, a number other than
  \<open>0\<close> or \<^verbatim>\<open>true\<close> is served and answered 201, and \<^verbatim>\<open>resolvePetIdByIdentifier\<close> by
  the code \<open>c\<close> gives \<open>p\<close> on the file it wrote; a following detach with the body
  \<^verbatim>\<open>{code: c}\<close> is served and answered 200, and resolving by \<open>c\<close> then gives
  \<^verbatim>\<open>null\<close>. On any well-shaped store \<^verbatim>\<open>resolvePetIdByIdentifier\<close> gives the
  \<^verbatim>\<open>petId\<close> of the first device, in the order of the store, that matches the supplied
  code or deviceId by \<^verbatim>\<open>===\<close>, and \<^verbatim>\<open>undefined\<close> when none does.
\<close>

theorem C6_register_detach_resolve:
  assumes un: "unpolluted W" and pl: "plain uid"
    and ok: "store_ok f uid" and pj: "is_json payload"
    and pet: "getp payload ''petId'' = p" "truthy p"
    and cod: "getp payload ''code'' = c" "truthy c" "is_primitive c"
    and r1: "handle e1 uid (PostRegister (Body payload)) f = (f1, resp1)"
    and r2: "handle e2 uid (PostDetach (Body (JObj [(''code'', c)])) None None) f1 = (f2, resp2)"
  shows "serve e1 uid (PostRegister (Body payload)) (W, f) = Some ((W, f1), resp1) \<and>
         status resp1 = 201 \<and>
         resolvePetIdByIdentifier (tenant_in f1 uid) c JUndefined = Inr p \<and>
         serve e2 uid (PostDetach (Body (JObj [(''code'', c)])) None None) (W, f1)
           = Some ((W, f2), resp2) \<and>
         status resp2 = 200 \<and>
         resolvePetIdByIdentifier (tenant_in f2 uid) c JUndefined = Inr JNull \<and>
         resolvePetIdByIdentifier (tenant_in f uid) code deviceId =
           Inr (case find (matches code deviceId) (devices_in f uid) of
                  None \<Rightarrow> JUndefined
                | Some d \<Rightarrow> getp d ''petId'')"
proof -
  have tp: "truthy (getp payload ''petId'')" using pet by simp
  note reg = register_effect [OF ok pj tp cod r1 pl]
  from reg(3) obtain i where
    i: "first_index (matches c JUndefined) (devices_in f1 uid) = Some i"
    and pi: "getp (devices_in f1 uid ! i) ''petId'' = getp payload ''petId''"
    by blast
  have s1: "serve e1 uid (PostRegister (Body payload)) (W, f) = Some ((W, f1), resp1)"
    using un pl ok r1 by (rule serve_ok)
  have s2: "serve e2 uid (PostDetach (Body (JObj [(''code'', c)])) None None) (W, f1)
           = Some ((W, f2), resp2)"
    using un pl reg(2) r2 by (rule serve_ok)
  have a: "resolvePetIdByIdentifier (tenant_in f1 uid) c JUndefined = Inr p"
    using resolve_at [OF reg(2) i] pi pet(1) by simp
  note det = detach_effect [OF reg(2) i cod(2,3) r2 pl]
  have b: "resolvePetIdByIdentifier (tenant_in f2 uid) c JUndefined = Inr JNull"
    using resolve_at [OF det(4) det(2)] det(3) by simp
  have "resolvePetIdByIdentifier (tenant_in f uid) code deviceId =
           Inr (case first_index (matches code deviceId) (devices_in f uid) of
                  None \<Rightarrow> JUndefined
                | Some n \<Rightarrow> getp (devices_in f uid ! n) ''petId'')"
    by (rule resolve_first [OF tenant_in_ok(4) [OF ok] store_ok_devices [OF ok]])
  then have g: "resolvePetIdByIdentifier (tenant_in f uid) code deviceId =
           Inr (case find (matches code deviceId) (devices_in f uid) of
                  None \<Rightarrow> JUndefined
                | Some d \<Rightarrow> getp d ''petId'')"
    by (simp add: find_first_index split: option.splits)
  show ?thesis using s1 reg(1) a s2 det(1) b g by simp
qed

theorem C6_register_detach_resolve_witness:
  "unpolluted pristine \<and> plain ''u1'' \<and> store_ok demo_file ''u1'' \<and>
   is_json (JObj [(''petId'', JStr ''P7''), (''code'', JNum (Fin 7))]) \<and>
   truthy (JStr ''P7'') \<and> truthy (JNum (Fin 7)) \<and> is_primitive (JNum (Fin 7)) \<and>
   serve demo_env ''u1'' (PostRegister (Body (JObj [(''petId'', JStr ''P7''), (''code'', JNum (Fin 7))])))
       (pristine, demo_file)
     = Some ((pristine,
              demo_store [demo_loc_a, demo_loc_b]
                [demo_dev_1, demo_dev_2,
                 JObj [(''petId'', JStr ''P7''), (''code'', JNum (Fin 7)),
                       (''updatedAt'', JStr ''2024-01-01T00:00:00.000Z''),
                       (''createdAt'', JStr ''2024-01-01T00:00:00.001Z'')]]),
             Sent 201 (JObj [(''petId'', JStr ''P7''), (''code'', JNum (Fin 7)),
                       (''updatedAt'', JStr ''2024-01-01T00:00:00.000Z'')])) \<and>
   resolvePetIdByIdentifier
       (tenant_in (demo_store [demo_loc_a, demo_loc_b]
          [demo_dev_1, demo_dev_2,
           JObj [(''petId'', JStr ''P7''), (''code'', JNum (Fin 7)),
                 (''updatedAt'', JStr ''2024-01-01T00:00:00.000Z''),
                 (''createdAt'', JStr ''2024-01-01T00:00:00.001Z'')]]) ''u1'')
       (JNum (Fin 7)) JUndefined = Inr (JStr ''P7'') \<and>
   serve demo_env ''u1'' (PostDetach (Body (JObj [(''code'', JNum (Fin 7))])) None None)
       (pristine,
        demo_store [demo_loc_a, demo_loc_b]
          [demo_dev_1, demo_dev_2,
           JObj [(''petId'', JStr ''P7''), (''code'', JNum (Fin 7)),
                 (''updatedAt'', JStr ''2024-01-01T00:00:00.000Z''),
                 (''createdAt'', JStr ''2024-01-01T00:00:00.001Z'')]])
     = Some ((pristine,
              demo_store [demo_loc_a, demo_loc_b]
                [demo_dev_1, demo_dev_2,
                 JObj [(''petId'', JNull), (''code'', JNum (Fin 7)),
                       (''updatedAt'', JStr ''2024-01-01T00:00:00.000Z''),
                       (''createdAt'', JStr ''2024-01-01T00:00:00.001Z'')]]),
             Sent 200 (JObj [(''petId'', JNull), (''code'', JNum (Fin 7)),
                       (''updatedAt'', JStr ''2024-01-01T00:00:00.000Z''),
                       (''createdAt'', JStr ''2024-01-01T00:00:00.001Z'')])) \<and>
   resolvePetIdByIdentifier
       (tenant_in (demo_store [demo_loc_a, demo_loc_b]
          [demo_dev_1, demo_dev_2,
           JObj [(''petId'', JNull), (''code'', JNum (Fin 7)),
                 (''updatedAt'', JStr ''2024-01-01T00:00:00.000Z''),
                 (''createdAt'', JStr ''2024-01-01T00:00:00.001Z'')]]) ''u1'')
       (JNum (Fin 7)) JUndefined = Inr JNull \<and>
   resolvePetIdByIdentifier (tenant_in demo_file ''u1'') (JStr ''C1'') JUndefined
     = Inr (JStr ''P1'')"
proof -
  let ?P = "JObj [(''petId'', JStr ''P7''), (''code'', JNum (Fin 7))]"
  let ?F1 = "demo_store [demo_loc_a, demo_loc_b]
          [demo_dev_1, demo_dev_2,
           JObj [(''petId'', JStr ''P7''), (''code'', JNum (Fin 7)),
                 (''updatedAt'', JStr ''2024-01-01T00:00:00.000Z''),
                 (''createdAt'', JStr ''2024-01-01T00:00:00.001Z'')]]"
  let ?F2 = "demo_store [demo_loc_a, demo_loc_b]
          [demo_dev_1, demo_dev_2,
           JObj [(''petId'', JNull), (''code'', JNum (Fin 7)),
                 (''updatedAt'', JStr ''2024-01-01T00:00:00.000Z''),
                 (''createdAt'', JStr ''2024-01-01T00:00:00.001Z'')]]"
  have u: "unpolluted pristine" by simp
  have pl: "plain ''u1''" by (simp add: plain_def object_prototype_names_def)
  have s: "store_ok demo_file ''u1''" by (simp add: store_defs)
  have j: "is_json ?P" by simp
  have g: "getp ?P ''petId'' = JStr ''P7''" "getp ?P ''code'' = JNum (Fin 7)" by simp_all
  have t: "truthy (JStr ''P7'')" "truthy (JNum (Fin 7))" "is_primitive (JNum (Fin 7))"
    by simp_all
  have h1: "handle demo_env ''u1'' (PostRegister (Body ?P)) demo_file
     = (?F1, Sent 201 (JObj [(''petId'', JStr ''P7''), (''code'', JNum (Fin 7)),
                 (''updatedAt'', JStr ''2024-01-01T00:00:00.000Z'')]))"
    by (simp add: store_defs route_defs)
  have h2: "handle demo_env ''u1'' (PostDetach (Body (JObj [(''code'', JNum (Fin 7))])) None None) ?F1
     = (?F2, Sent 200 (JObj [(''petId'', JNull), (''code'', JNum (Fin 7)),
                 (''updatedAt'', JStr ''2024-01-01T00:00:00.000Z''),
                 (''createdAt'', JStr ''2024-01-01T00:00:00.001Z'')]))"
    by (simp add: store_defs route_defs)
  have d: "devices_in demo_file ''u1'' = [demo_dev_1, demo_dev_2]" by (simp add: store_defs)
  note a = C6_register_detach_resolve [OF u pl s j g(1) t(1) g(2) t(2,3) h1 h2,
      of "JStr ''C1''" JUndefined]
  show ?thesis
    using a u pl s j t unfolding d by (simp add: matches_def)
qed

theorem C6_counterexample:
  "serve demo_env ''u1''
       (PostRegister (Body (JObj [(''petId'', JStr ''P7''), (''code'', JArr [JNum (Fin 1)] [])])))
       (pristine, demo_file)
     = Some ((pristine,
              demo_store [demo_loc_a, demo_loc_b]
                [demo_dev_1, demo_dev_2,
                 JObj [(''petId'', JStr ''P7''), (''code'', JArr [JNum (Fin 1)] []),
                       (''updatedAt'', JStr ''2024-01-01T00:00:00.000Z''),
                       (''createdAt'', JStr ''2024-01-01T00:00:00.001Z'')]]),
             Sent 201 (JObj [(''petId'', JStr ''P7''), (''code'', JArr [JNum (Fin 1)] []),
                       (''updatedAt'', JStr ''2024-01-01T00:00:00.000Z'')])) \<and>
   resolvePetIdByIdentifier
       (tenant_in (demo_store [demo_loc_a, demo_loc_b]
          [demo_dev_1, demo_dev_2,
           JObj [(''petId'', JStr ''P7''), (''code'', JArr [JNum (Fin 1)] []),
                 (''updatedAt'', JStr ''2024-01-01T00:00:00.000Z''),
                 (''createdAt'', JStr ''2024-01-01T00:00:00.001Z'')]]) ''u1'')
       (JArr [JNum (Fin 1)] []) JUndefined = Inr JUndefined"
proof -
  have pl: "plain ''u1''" by (simp add: plain_def object_prototype_names_def)
  have s: "store_ok demo_file ''u1''" by (simp add: store_defs)
  have h: "handle demo_env ''u1''
       (PostRegister (Body (JObj [(''petId'', JStr ''P7''), (''code'', JArr [JNum (Fin 1)] [])])))
       demo_file
     = (demo_store [demo_loc_a, demo_loc_b]
                [demo_dev_1, demo_dev_2,
                 JObj [(''petId'', JStr ''P7''), (''code'', JArr [JNum (Fin 1)] []),
                       (''updatedAt'', JStr ''2024-01-01T00:00:00.000Z''),
                       (''createdAt'', JStr ''2024-01-01T00:00:00.001Z'')]],
        Sent 201 (JObj [(''petId'', JStr ''P7''), (''code'', JArr [JNum (Fin 1)] []),
                       (''updatedAt'', JStr ''2024-01-01T00:00:00.000Z'')]))"
    by (simp add: store_defs route_defs)
  show ?thesis
    using serve_ok [OF unpolluted_pristine pl s h]
    by (simp add: store_defs route_defs)
qed

text \<open>
  C1 (as amended). In a process whose \<^verbatim>\<open>Object.prototype\<close> no request has assigned to,
  for a tenant identifier that is not a property name of \<^verbatim>\<open>Object.prototype\<close>, on a
  well-shaped store, an upsert whose body is a JSON object with finite numbers (or is
  empty, or a falsy JSON value, which the route reads as \<^verbatim>\<open>{}\<close>) is served and leaves
  the process as it was. Let \<open>pid\<close> be the payload's \<^verbatim>\<open>id\<close> when that is truthy, and
  otherwise the id \<^verbatim>\<open>genId\<close> makes, which is not compared with the ids in the store
  before it is used. If some location of the tenant has the id \<open>pid\<close>, the first such
  record is replaced by the merge of the supplied fields over it, with \<^verbatim>\<open>uid\<close> the
  caller's and \<^verbatim>\<open>updatedAt\<close> set to now, and the merged record is returned with status
  200. If no location has that id, the payload, with the id \<open>pid\<close>, the caller's
  \<^verbatim>\<open>uid\<close> and \<^verbatim>\<open>createdAt\<close> set to now unless it brought a truthy one, is appended to
  the tenant's locations and returned with status 201. The other locations and the
  tenant's devices are as before. So a call without an id creates a record only when
  the generated id is not yet in the store; the counterexample is a call without an id
  that updates.
\<close>

theorem C1_upsert_updates_or_creates:
  assumes un: "unpolluted W" and pl: "plain uid"
    and ok: "store_ok f uid"
    and pb: "parseBody b = Inr payload" and pj: "is_json payload"
    and po: "is_object (js_or payload (JObj []))"
    and src: "src = js_or payload (JObj [])"
    and pid: "pid = (if truthy (getp src ''id'') then getp src ''id'' else JStr (genId e))"
    and ls: "ls = locations_in f uid"
    and res: "handle e uid (PostLocalizacao b) f = (f', resp)"
  shows
    "serve e uid (PostLocalizacao b) (W, f) = Some ((W, f'), resp) \<and>
     (first_index (\<lambda>l. strict_eq (getp l ''id'') pid) ls = Some i \<longrightarrow>
        (\<exists>merged. resp = Sent 200 merged \<and> locations_in f' uid = ls[i := merged] \<and>
           (\<forall>k. getp merged k =
              (if k = ''updatedAt'' then JStr (now_iso e)
               else if k = ''uid'' then JStr uid
               else if k = ''id'' then pid
               else if getp src k \<noteq> JUndefined then getp src k
               else getp (ls ! i) k)))) \<and>
     (first_index (\<lambda>l. strict_eq (getp l ''id'') pid) ls = None \<longrightarrow>
        (\<exists>created. resp = Sent 201 created \<and> locations_in f' uid = ls @ [created] \<and>
           (\<forall>k. getp created k =
              (if k = ''uid'' then JStr uid
               else if k = ''id'' then pid
               else if k = ''createdAt'' \<and> \<not> truthy (getp src ''createdAt'') then JStr (now_iso e)
               else getp src k)))) \<and>
     devices_in f' uid = devices_in f uid"
proof -
  let ?loc = "incoming_loc e uid payload" and ?now = "JStr (now_iso e)"
  note il = incoming_loc_obj [OF pj po, of e uid]
  obtain lb where lb: "?loc = JObj lb" using il(2) by (cases ?loc) simp_all
  have jlb: "is_json (JObj lb)" using il(1) lb by simp
  have gl: "getp (JObj lb) k =
       (if k = ''uid'' then JStr uid else if k = ''id'' then pid else getp src k)" for k
    using il(3) [of k] unfolding lb src [symmetric] pid by auto
  have lid: "getp ?loc ''id'' = pid" using gl [of "''id''"] lb by simp
  have pidu: "pid \<noteq> JUndefined" unfolding pid by auto
  note h = upsert_handle [OF ok pb pl, of e, unfolded lid ls [symmetric] res]
  have jls: "\<forall>x \<in> set ls. is_json x" unfolding ls using ok by (rule store_ok_locations_json)
  show ?thesis
  proof (intro conjI impI)
    show "serve e uid (PostLocalizacao b) (W, f) = Some ((W, f'), resp)"
      using un pl ok res by (rule serve_ok)
  next
    assume fi: "first_index (\<lambda>l. strict_eq (getp l ''id'') pid) ls = Some i"
    then have i: "i < length ls" using first_index_Some by blast
    have "is_object (ls ! i)" using ok i unfolding ls by (simp add: store_ok_def list_all_iff)
    then obtain a where a: "ls ! i = JObj a" by (cases "ls ! i") simp_all
    have ja: "is_json (JObj a)" using jls i a nth_mem by metis
    let ?m = "merged_loc (JObj a) (JObj lb) ?now"
    note m = merged_loc_obj [OF ja jlb, of ?now]
    have jm: "is_json ?m" using m(1) by simp
    have f': "f' = Parsed (jsonify (put_tenant (load f) uid (setp (tenant_in f uid) ''locations''
             (JArr (ls[i := ?m]) []))))" and r: "resp = Sent 200 ?m"
      using h fi a lb jm by (simp_all add: sendJson_def jsonify_id del: jsonify.simps)
    have all: "\<forall>x \<in> set (ls[i := ?m]). is_json x" using jls jm by (rule json_list_update)
    note c = commit_locations [OF ok f' [unfolded ls] json_commit [OF all [unfolded ls]]]
    have l: "locations_in f' uid = ls[i := ?m]"
      using c(1) map_jsonify_id [OF all] unfolding ls by simp
    have g: "\<forall>k. getp ?m k =
              (if k = ''updatedAt'' then JStr (now_iso e)
               else if k = ''uid'' then JStr uid
               else if k = ''id'' then pid
               else if getp src k \<noteq> JUndefined then getp src k
               else getp (ls ! i) k)"
      using m(2) gl pidu a by simp
    show "\<exists>merged. resp = Sent 200 merged \<and> locations_in f' uid = ls[i := merged] \<and>
           (\<forall>k. getp merged k =
              (if k = ''updatedAt'' then JStr (now_iso e)
               else if k = ''uid'' then JStr uid
               else if k = ''id'' then pid
               else if getp src k \<noteq> JUndefined then getp src k
               else getp (ls ! i) k))"
      using r l g by blast
  next
    assume fi: "first_index (\<lambda>l. strict_eq (getp l ''id'') pid) ls = None"
    let ?c = "created_loc (JObj lb) ?now"
    note cl = created_loc_obj [OF jlb, of ?now]
    have jc: "is_json ?c" using cl(1) by simp
    have f': "f' = Parsed (jsonify (put_tenant (load f) uid (setp (tenant_in f uid) ''locations''
             (JArr (ls @ [?c]) []))))" and r: "resp = Sent 201 ?c"
      using h fi lb jc by (simp_all add: sendJson_def jsonify_id del: jsonify.simps)
    have all: "\<forall>x \<in> set (ls @ [?c]). is_json x" using jls jc by simp
    note c = commit_locations [OF ok f' [unfolded ls] json_commit [OF all [unfolded ls]]]
    have l: "locations_in f' uid = ls @ [?c]"
      using c(1) map_jsonify_id [OF all] unfolding ls by simp
    have g: "\<forall>k. getp ?c k =
              (if k = ''uid'' then JStr uid
               else if k = ''id'' then pid
               else if k = ''createdAt'' \<and> \<not> truthy (getp src ''createdAt'') then JStr (now_iso e)
               else getp src k)"
      using cl(3) gl by simp
    show "\<exists>created. resp = Sent 201 created \<and> locations_in f' uid = ls @ [created] \<and>
           (\<forall>k. getp created k =
              (if k = ''uid'' then JStr uid
               else if k = ''id'' then pid
               else if k = ''createdAt'' \<and> \<not> truthy (getp src ''createdAt'') then JStr (now_iso e)
               else getp src k))"
      using r l g by blast
  next
    show "devices_in f' uid = devices_in f uid"
    proof (cases "first_index (\<lambda>l. strict_eq (getp l ''id'') pid) ls")
      case None
      let ?c = "created_loc (JObj lb) ?now"
      have jc: "is_json ?c" using created_loc_obj(1) [OF jlb, of ?now] by simp
      have f': "f' = Parsed (jsonify (put_tenant (load f) uid (setp (tenant_in f uid) ''locations''
             (JArr (ls @ [?c]) []))))"
        using h None lb by (simp del: jsonify.simps)
      have all: "\<forall>x \<in> set (ls @ [?c]). is_json x" using jls jc by simp
      show ?thesis
        by (rule commit_locations(2) [OF ok f' [unfolded ls] json_commit [OF all [unfolded ls]]])
    next
      case (Some j)
      then have j: "j < length ls" using first_index_Some by blast
      have "is_object (ls ! j)" using ok j unfolding ls by (simp add: store_ok_def list_all_iff)
      then obtain a where a: "ls ! j = JObj a" by (cases "ls ! j") simp_all
      have ja: "is_json (JObj a)" using jls j a nth_mem by metis
      let ?m = "merged_loc (JObj a) (JObj lb) ?now"
      have jm: "is_json ?m" using merged_loc_obj(1) [OF ja jlb, of ?now] by simp
      have f': "f' = Parsed (jsonify (put_tenant (load f) uid (setp (tenant_in f uid) ''locations''
             (JArr (ls[j := ?m]) []))))"
        using h Some a lb by (simp del: jsonify.simps)
      have all: "\<forall>x \<in> set (ls[j := ?m]). is_json x" using jls jm by (rule json_list_update)
      show ?thesis
        by (rule commit_locations(2) [OF ok f' [unfolded ls] json_commit [OF all [unfolded ls]]])
    qed
  qed
qed


theorem C1_upsert_witness:
  "unpolluted pristine \<and> plain ''u1'' \<and> store_ok demo_file ''u1'' \<and>
   is_json (JObj [(''id'', JStr ''a''), (''label'', JStr ''new'')]) \<and>
   is_object (js_or (JObj [(''id'', JStr ''a''), (''label'', JStr ''new'')]) (JObj [])) \<and>
   first_index (\<lambda>l. strict_eq (getp l ''id'') (JStr ''a'')) (locations_in demo_file ''u1'') = Some 0 \<and>
   serve demo_env ''u1'' (PostLocalizacao (Body (JObj [(''id'', JStr ''a''), (''label'', JStr ''new'')])))
       (pristine, demo_file)
     = Some ((pristine,
              demo_store
                [JObj [(''id'', JStr ''a''), (''petId'', JStr ''P1''), (''label'', JStr ''new''),
                       (''uid'', JStr ''u1''), (''updatedAt'', JStr ''2024-01-01T00:00:00.000Z'')],
                 demo_loc_b]
                [demo_dev_1, demo_dev_2]),
             Sent 200 (JObj [(''id'', JStr ''a''), (''petId'', JStr ''P1''), (''label'', JStr ''new''),
                       (''uid'', JStr ''u1''), (''updatedAt'', JStr ''2024-01-01T00:00:00.000Z'')])) \<and>
   is_json (JObj [(''petId'', JStr ''P3'')]) \<and>
   is_object (js_or (JObj [(''petId'', JStr ''P3'')]) (JObj [])) \<and>
   first_index (\<lambda>l. strict_eq (getp l ''id'') (JStr (genId demo_env))) (locations_in demo_file ''u1'')
     = None \<and>
   serve demo_env ''u1'' (PostLocalizacao (Body (JObj [(''petId'', JStr ''P3'')]))) (pristine, demo_file)
     = Some ((pristine,
              demo_store
                [demo_loc_a, demo_loc_b,
                 JObj [(''petId'', JStr ''P3''), (''id'', JStr ''loc_lqu5k5c0_4fzyo8''),
                       (''uid'', JStr ''u1''), (''createdAt'', JStr ''2024-01-01T00:00:00.000Z'')]]
                [demo_dev_1, demo_dev_2]),
             Sent 201 (JObj [(''petId'', JStr ''P3''), (''id'', JStr ''loc_lqu5k5c0_4fzyo8''),
                       (''uid'', JStr ''u1''), (''createdAt'', JStr ''2024-01-01T00:00:00.000Z'')]))"
proof -
  let ?P = "JObj [(''id'', JStr ''a''), (''label'', JStr ''new'')]"
  let ?Q = "JObj [(''petId'', JStr ''P3'')]"
  have u: "unpolluted pristine" by simp
  have pl: "plain ''u1''" by (simp add: plain_def object_prototype_names_def)
  have s: "store_ok demo_file ''u1''" by (simp add: store_defs)
  have p: "parseBody (Body v) = Inr v" for v by (simp add: parseBody_def)
  have o: "is_object (js_or ?P (JObj []))" "is_object (js_or ?Q (JObj []))"
    by (simp_all add: js_or_def)
  have j: "is_json ?P" "is_json ?Q" by simp_all
  have hp: "handle demo_env ''u1'' (PostLocalizacao (Body ?P)) demo_file
     = (demo_store
          [JObj [(''id'', JStr ''a''), (''petId'', JStr ''P1''), (''label'', JStr ''new''),
                 (''uid'', JStr ''u1''), (''updatedAt'', JStr ''2024-01-01T00:00:00.000Z'')],
           demo_loc_b]
          [demo_dev_1, demo_dev_2],
        Sent 200 (JObj [(''id'', JStr ''a''), (''petId'', JStr ''P1''), (''label'', JStr ''new''),
                 (''uid'', JStr ''u1''), (''updatedAt'', JStr ''2024-01-01T00:00:00.000Z'')]))"
    by (simp add: store_defs route_defs)
  have hq: "handle demo_env ''u1'' (PostLocalizacao (Body ?Q)) demo_file
     = (demo_store
          [demo_loc_a, demo_loc_b,
           JObj [(''petId'', JStr ''P3''), (''id'', JStr ''loc_lqu5k5c0_4fzyo8''),
                 (''uid'', JStr ''u1''), (''createdAt'', JStr ''2024-01-01T00:00:00.000Z'')]]
          [demo_dev_1, demo_dev_2],
        Sent 201 (JObj [(''petId'', JStr ''P3''), (''id'', JStr ''loc_lqu5k5c0_4fzyo8''),
                 (''uid'', JStr ''u1''), (''createdAt'', JStr ''2024-01-01T00:00:00.000Z'')]))"
    by (simp add: store_defs route_defs)
  have l: "locations_in demo_file ''u1'' = [demo_loc_a, demo_loc_b]" by (simp add: store_defs)
  have f1: "first_index (\<lambda>l. strict_eq (getp l ''id'') (JStr ''a'')) (locations_in demo_file ''u1'')
              = Some 0"
    unfolding l by simp
  have f2: "first_index (\<lambda>l. strict_eq (getp l ''id'') (JStr (genId demo_env)))
              (locations_in demo_file ''u1'') = None"
    unfolding l by (simp add: genId_def demo_env_def)
  note a = C1_upsert_updates_or_creates [OF u pl s p j(1) o(1) refl refl refl hp, of 0]
  note b = C1_upsert_updates_or_creates [OF u pl s p j(2) o(2) refl refl refl hq, of 0]
  show ?thesis
    using a b u pl s o j f1 f2 by simp
qed

theorem C1_counterexample:
  "getp (JObj [(''petId'', JStr ''P3'')]) ''id'' = JUndefined \<and>
   locations_in
       (demo_store
          [demo_loc_a, JObj [(''id'', JStr ''loc_lqu5k5c0_4fzyo8''), (''petId'', JStr ''P2'')]]
          [demo_dev_1, demo_dev_2]) ''u1''
     = [demo_loc_a, JObj [(''id'', JStr ''loc_lqu5k5c0_4fzyo8''), (''petId'', JStr ''P2'')]] \<and>
   serve demo_env ''u1'' (PostLocalizacao (Body (JObj [(''petId'', JStr ''P3'')])))
       (pristine,
        demo_store
          [demo_loc_a, JObj [(''id'', JStr ''loc_lqu5k5c0_4fzyo8''), (''petId'', JStr ''P2'')]]
          [demo_dev_1, demo_dev_2])
     = Some ((pristine,
              demo_store
                [demo_loc_a,
                 JObj [(''id'', JStr ''loc_lqu5k5c0_4fzyo8''), (''petId'', JStr ''P3''),
                       (''uid'', JStr ''u1''), (''updatedAt'', JStr ''2024-01-01T00:00:00.000Z'')]]
                [demo_dev_1, demo_dev_2]),
             Sent 200 (JObj [(''id'', JStr ''loc_lqu5k5c0_4fzyo8''), (''petId'', JStr ''P3''),
                       (''uid'', JStr ''u1''), (''updatedAt'', JStr ''2024-01-01T00:00:00.000Z'')])) \<and>
   locations_in
       (demo_store
          [demo_loc_a,
           JObj [(''id'', JStr ''loc_lqu5k5c0_4fzyo8''), (''petId'', JStr ''P3''),
                 (''uid'', JStr ''u1''), (''updatedAt'', JStr ''2024-01-01T00:00:00.000Z'')]]
          [demo_dev_1, demo_dev_2]) ''u1''
     = [demo_loc_a,
        JObj [(''id'', JStr ''loc_lqu5k5c0_4fzyo8''), (''petId'', JStr ''P3''),
              (''uid'', JStr ''u1''), (''updatedAt'', JStr ''2024-01-01T00:00:00.000Z'')]]"
proof -
  let ?F = "demo_store
          [demo_loc_a, JObj [(''id'', JStr ''loc_lqu5k5c0_4fzyo8''), (''petId'', JStr ''P2'')]]
          [demo_dev_1, demo_dev_2]"
  have pl: "plain ''u1''" by (simp add: plain_def object_prototype_names_def)
  have s: "store_ok ?F ''u1''" by (simp add: store_defs)
  have h: "handle demo_env ''u1'' (PostLocalizacao (Body (JObj [(''petId'', JStr ''P3'')]))) ?F
     = (demo_store
                [demo_loc_a,
                 JObj [(''id'', JStr ''loc_lqu5k5c0_4fzyo8''), (''petId'', JStr ''P3''),
                       (''uid'', JStr ''u1''), (''updatedAt'', JStr ''2024-01-01T00:00:00.000Z'')]]
                [demo_dev_1, demo_dev_2],
        Sent 200 (JObj [(''id'', JStr ''loc_lqu5k5c0_4fzyo8''), (''petId'', JStr ''P3''),
                       (''uid'', JStr ''u1''), (''updatedAt'', JStr ''2024-01-01T00:00:00.000Z'')]))"
    by (simp add: store_defs route_defs)
  show ?thesis
    using serve_ok [OF unpolluted_pristine pl s h]
    by (simp add: store_defs)
qed

text \<open>
  C4 (as amended). The upsert route checks no field of the payload. In a process whose
  \<^verbatim>\<open>Object.prototype\<close> no request has assigned to, for a tenant identifier that is not a
  property name of \<^verbatim>\<open>Object.prototype\<close>, on a well-shaped store, every upsert whose body
  is a JSON object with finite numbers (or is empty, or a falsy JSON value) is served and
  answered 200 or 201, and the record answered is then among the tenant's locations. For
  each of \<^verbatim>\<open>petId\<close>, \<^verbatim>\<open>latitude\<close> and \<^verbatim>\<open>longitude\<close>: when the payload has the member,
  the record has the payload's value, of whatever JSON type; and a record that is
  created has none when the payload has none. Under the same conditions a body that is
  not JSON text is answered 400, and the file is as \<^verbatim>\<open>ensureDataFile\<close> leaves it.
\<close>

theorem C4_upsert_accepts_any_object:
  assumes un: "unpolluted W" and pl: "plain uid"
    and ok: "store_ok f uid"
    and pb: "parseBody b = Inr payload" and pj: "is_json payload"
    and po: "is_object (js_or payload (JObj []))"
    and src: "src = js_or payload (JObj [])"
    and k: "k = ''petId'' \<or> k = ''latitude'' \<or> k = ''longitude''"
    and res: "handle e uid (PostLocalizacao b) f = (f', resp)"
  shows "serve e uid (PostLocalizacao b) (W, f) = Some ((W, f'), resp) \<and>
         (\<exists>stored. (resp = Sent 200 stored \<or> resp = Sent 201 stored) \<and>
            stored \<in> set (locations_in f' uid) \<and>
            (getp src k \<noteq> JUndefined \<longrightarrow> getp stored k = getp src k) \<and>
            (resp = Sent 201 stored \<longrightarrow> getp stored k = getp src k)) \<and>
         serve e uid (PostLocalizacao BadBody) (W, f)
           = Some ((W, ensureDataFile f), Caught (Error ''Invalid JSON''))"
proof (intro conjI)
  show "serve e uid (PostLocalizacao b) (W, f) = Some ((W, f'), resp)"
    using un pl ok res by (rule serve_ok)
  show "serve e uid (PostLocalizacao BadBody) (W, f)
           = Some ((W, ensureDataFile f), Caught (Error ''Invalid JSON''))"
    using un pl ok handle_bad_body by (rule serve_ok)
  have gl: "getp (incoming_loc e uid payload) k = getp src k"
    using incoming_loc_obj(3) [OF pj po, of e uid k] k src by auto
  from ok pb pj po res pl
  show "\<exists>stored. (resp = Sent 200 stored \<or> resp = Sent 201 stored) \<and>
            stored \<in> set (locations_in f' uid) \<and>
            (getp src k \<noteq> JUndefined \<longrightarrow> getp stored k = getp src k) \<and>
            (resp = Sent 201 stored \<longrightarrow> getp stored k = getp src k)"
  proof (cases rule: upsert_cases)
    case (update i a lb)
    let ?m = "merged_loc (JObj a) (JObj lb) (JStr (now_iso e))"
    have i: "i < length (locations_in f uid)" using update(1) first_index_Some by blast
    have "?m \<in> set (locations_in f' uid)"
      unfolding update(7) using i by (simp add: set_update_memI)
    moreover have "getp src k \<noteq> JUndefined \<longrightarrow> getp ?m k = getp src k"
      using merged_loc_obj(2) [OF update(3,5), of "JStr (now_iso e)" k] gl k
      unfolding update(4) by auto
    ultimately show ?thesis using update(6) by auto
  next
    case (create lb)
    let ?c = "created_loc (JObj lb) (JStr (now_iso e))"
    have "?c \<in> set (locations_in f' uid)" unfolding create(5) by simp
    moreover have "getp ?c k = getp src k"
      using created_loc_obj(3) [OF create(3), of "JStr (now_iso e)" k] gl k
      unfolding create(2) by auto
    ultimately show ?thesis using create(4) by auto
  qed
qed

theorem C4_upsert_witness:
  "unpolluted pristine \<and> plain ''u1'' \<and> store_ok demo_file ''u1'' \<and>
   is_json (JObj [(''label'', JStr ''x''), (''latitude'', JStr ''north'')]) \<and>
   is_object (js_or (JObj [(''label'', JStr ''x''), (''latitude'', JStr ''north'')]) (JObj [])) \<and>
   getp (js_or (JObj [(''label'', JStr ''x''), (''latitude'', JStr ''north'')]) (JObj [])) ''latitude''
     \<noteq> JUndefined \<and>
   serve demo_env ''u1''
       (PostLocalizacao (Body (JObj [(''label'', JStr ''x''), (''latitude'', JStr ''north'')])))
       (pristine, demo_file)
     = Some ((pristine,
              demo_store
                [demo_loc_a, demo_loc_b,
                 JObj [(''label'', JStr ''x''), (''latitude'', JStr ''north''),
                       (''id'', JStr ''loc_lqu5k5c0_4fzyo8''), (''uid'', JStr ''u1''),
                       (''createdAt'', JStr ''2024-01-01T00:00:00.000Z'')]]
                [demo_dev_1, demo_dev_2]),
             Sent 201 (JObj [(''label'', JStr ''x''), (''latitude'', JStr ''north''),
                       (''id'', JStr ''loc_lqu5k5c0_4fzyo8''), (''uid'', JStr ''u1''),
                       (''createdAt'', JStr ''2024-01-01T00:00:00.000Z'')])) \<and>
   serve demo_env ''u1'' (PostLocalizacao BadBody) (pristine, demo_file)
     = Some ((pristine, demo_file), Caught (Error ''Invalid JSON''))"
proof -
  let ?P = "JObj [(''label'', JStr ''x''), (''latitude'', JStr ''north'')]"
  have u: "unpolluted pristine" by simp
  have pl: "plain ''u1''" by (simp add: plain_def object_prototype_names_def)
  have s: "store_ok demo_file ''u1''" by (simp add: store_defs)
  have p: "parseBody (Body ?P) = Inr ?P" by (simp add: parseBody_def)
  have o: "is_object (js_or ?P (JObj []))" by (simp add: js_or_def)
  have j: "is_json ?P" by simp
  have g: "getp (js_or ?P (JObj [])) ''latitude'' \<noteq> JUndefined" by (simp add: js_or_def)
  have h: "handle demo_env ''u1'' (PostLocalizacao (Body ?P)) demo_file
     = (demo_store
          [demo_loc_a, demo_loc_b,
           JObj [(''label'', JStr ''x''), (''latitude'', JStr ''north''),
                 (''id'', JStr ''loc_lqu5k5c0_4fzyo8''), (''uid'', JStr ''u1''),
                 (''createdAt'', JStr ''2024-01-01T00:00:00.000Z'')]]
          [demo_dev_1, demo_dev_2],
        Sent 201 (JObj [(''label'', JStr ''x''), (''latitude'', JStr ''north''),
                 (''id'', JStr ''loc_lqu5k5c0_4fzyo8''), (''uid'', JStr ''u1''),
                 (''createdAt'', JStr ''2024-01-01T00:00:00.000Z'')]))"
    by (simp add: store_defs route_defs)
  have e: "ensureDataFile demo_file = demo_file" by (simp add: ensureDataFile_def)
  from C4_upsert_accepts_any_object [OF u pl s p j o refl _ h, of "''latitude''"] u pl s j o g e
  show ?thesis by simp
qed

theorem C4_counterexample:
  "getp (JObj [(''label'', JStr ''x''), (''latitude'', JStr ''north'')]) ''petId'' = JUndefined \<and>
   serve demo_env ''u1''
       (PostLocalizacao (Body (JObj [(''label'', JStr ''x''), (''latitude'', JStr ''north'')])))
       (pristine, demo_file)
     = Some ((pristine,
              demo_store
                [demo_loc_a, demo_loc_b,
                 JObj [(''label'', JStr ''x''), (''latitude'', JStr ''north''),
                       (''id'', JStr ''loc_lqu5k5c0_4fzyo8''), (''uid'', JStr ''u1''),
                       (''createdAt'', JStr ''2024-01-01T00:00:00.000Z'')]]
                [demo_dev_1, demo_dev_2]),
             Sent 201 (JObj [(''label'', JStr ''x''), (''latitude'', JStr ''north''),
                       (''id'', JStr ''loc_lqu5k5c0_4fzyo8''), (''uid'', JStr ''u1''),
                       (''createdAt'', JStr ''2024-01-01T00:00:00.000Z'')])) \<and>
   locations_in (demo_store
          [demo_loc_a, demo_loc_b,
           JObj [(''label'', JStr ''x''), (''latitude'', JStr ''north''),
                 (''id'', JStr ''loc_lqu5k5c0_4fzyo8''), (''uid'', JStr ''u1''),
                 (''createdAt'', JStr ''2024-01-01T00:00:00.000Z'')]]
          [demo_dev_1, demo_dev_2]) ''u1'' ! 2
     = JObj [(''label'', JStr ''x''), (''latitude'', JStr ''north''),
                 (''id'', JStr ''loc_lqu5k5c0_4fzyo8''), (''uid'', JStr ''u1''),
                 (''createdAt'', JStr ''2024-01-01T00:00:00.000Z'')]"
proof -
  have pl: "plain ''u1''" by (simp add: plain_def object_prototype_names_def)
  have s: "store_ok demo_file ''u1''" by (simp add: store_defs)
  have h: "handle demo_env ''u1''
       (PostLocalizacao (Body (JObj [(''label'', JStr ''x''), (''latitude'', JStr ''north'')])))
       demo_file
     = (demo_store
          [demo_loc_a, demo_loc_b,
           JObj [(''label'', JStr ''x''), (''latitude'', JStr ''north''),
                 (''id'', JStr ''loc_lqu5k5c0_4fzyo8''), (''uid'', JStr ''u1''),
                 (''createdAt'', JStr ''2024-01-01T00:00:00.000Z'')]]
          [demo_dev_1, demo_dev_2],
        Sent 201 (JObj [(''label'', JStr ''x''), (''latitude'', JStr ''north''),
                 (''id'', JStr ''loc_lqu5k5c0_4fzyo8''), (''uid'', JStr ''u1''),
                 (''createdAt'', JStr ''2024-01-01T00:00:00.000Z'')]))"
    by (simp add: store_defs route_defs)
  show ?thesis
    using serve_ok [OF unpolluted_pristine pl s h]
    by (simp add: store_defs)
qed

text \<open>
  C8 (as amended). In a process whose \<^verbatim>\<open>Object.prototype\<close> no request has assigned to,
  for a tenant identifier that is not a property name of \<^verbatim>\<open>Object.prototype\<close>, on a
  well-shaped store, an ingest call whose body is JSON with finite numbers and that is
  answered 201 is served, appends one location to the tenant and changes nothing else of
  it: the locations read back are the old ones followed by the record sent in the
  response, the devices are the same. That record has the id \<^verbatim>\<open>genId\<close> made (which is
  not compared with the ids in the store), the \<^verbatim>\<open>petId\<close> the device registry resolved,
  \<^verbatim>\<open>origin = "device"\<close>, \<^verbatim>\<open>createdBy\<close> the \<^verbatim>\<open>deviceId\<close> when that is truthy and the
  \<^verbatim>\<open>code\<close> otherwise (also when the device was found by its code), \<^verbatim>\<open>latitude\<close> and
  \<^verbatim>\<open>longitude\<close> the inputs under \<^verbatim>\<open>Number\<close> (as JSON writes them), \<^verbatim>\<open>accuracy\<close> and
  \<^verbatim>\<open>speed\<close> likewise when they are not null or absent, and absent otherwise. Its
  \<^verbatim>\<open>createdAt\<close> is the ISO form of the timestamp taken as epoch milliseconds when the
  timestamp is truthy, and the current time when it is absent or falsy: a timestamp
  \<open>0\<close> gives the current time, not the epoch.
\<close>

theorem C8_ingest_success_appends_one_record:
  assumes un: "unpolluted W" and pl: "plain uid"
    and ok: "store_ok f uid"
    and pb: "parseBody b = Inr payload" and pj: "is_json payload"
    and src: "src = js_or payload (JObj [])"
    and h: "handle e uid (PostIngest b) f = (f', Sent 201 body)"
  shows "serve e uid (PostIngest b) (W, f) = Some ((W, f'), Sent 201 body) \<and>
         locations_in f' uid = locations_in f uid @ [body] \<and>
         devices_in f' uid = devices_in f uid \<and>
         getp body ''id'' = JStr (genId e) \<and>
         resolvePetIdByIdentifier (tenant_in f uid) (getp src ''code'') (getp src ''deviceId'')
           = Inr (getp body ''petId'') \<and>
         getp body ''origin'' = JStr ''device'' \<and>
         getp body ''createdBy'' =
           (if truthy (getp src ''deviceId'') then getp src ''deviceId'' else getp src ''code'') \<and>
         bindE (js_Number e (getp src ''lat'')) (\<lambda>n. Inr (jsonify (JNum n)))
           = Inr (getp body ''latitude'') \<and>
         bindE (js_Number e (getp src ''lng'')) (\<lambda>n. Inr (jsonify (JNum n)))
           = Inr (getp body ''longitude'') \<and>
         (if nullish (getp src ''accuracy'') then Inr JUndefined
          else bindE (js_Number e (getp src ''accuracy'')) (\<lambda>n. Inr (jsonify (JNum n))))
           = Inr (getp body ''accuracy'') \<and>
         (if nullish (getp src ''speed'') then Inr JUndefined
          else bindE (js_Number e (getp src ''speed'')) (\<lambda>n. Inr (jsonify (JNum n))))
           = Inr (getp body ''speed'') \<and>
         (if truthy (getp src ''timestamp'')
          then bindE (js_Number e (getp src ''timestamp'')) (\<lambda>n.
                 bindE (date_iso e n) (\<lambda>s. Inr (JStr s)))
          else Inr (JStr (now_iso e)))
           = Inr (getp body ''createdAt'')"
proof -
  let ?t = "tenant_in f uid" and ?L = "locations_in f uid"
  note t = tenant_in_ok [OF ok]
  from handle_Sent [OF h pl] obtain t' w where
    r: "post_ingest e uid b ?t = Inr (t', w, Sent 201 body)"
    and f': "f' = (if w then Parsed (jsonify (put_tenant (load f) uid t')) else ensureDataFile f)"
    by auto
  from post_ingest_created [OF r pb src] obtain petId loc ls where
    id: "truthy (getp src ''code'') \<or> truthy (getp src ''deviceId'')"
    and res: "resolvePetIdByIdentifier ?t (getp src ''code'') (getp src ''deviceId'') = Inr petId"
    and tp: "truthy petId"
    and rec: "ingest_record e uid payload petId = Inr loc"
    and ls: "elems (getp ?t ''locations'') = Inr ls"
    and w: "w"
    and t': "t' = setp ?t ''locations'' (with_elems (getp ?t ''locations'') (ls @ [loc]))"
    and body: "body = jsonify loc"
    by blast
  have pu: "petId \<noteq> JUndefined" using tp by auto
  have jp: "is_json petId" using ok res pu by (rule resolved_json)
  note lj = ingest_record_json [OF rec pj jp]
  have ls_eq: "ls = ?L" using ls t(3) by (simp add: elems_def)
  have t'_eq: "t' = setp ?t ''locations'' (JArr (?L @ [loc]) [])"
    using t' ls_eq t(3) by (simp add: with_elems_def)
  have f'_eq: "f' = Parsed (jsonify (put_tenant (load f) uid
                      (setp ?t ''locations'' (JArr (?L @ [loc]) []))))"
    using f' w t'_eq by simp
  have all: "\<forall>x \<in> set (?L @ [loc]). x \<noteq> JUndefined \<and> is_json (jsonify x)"
    using store_ok_locations_json [OF ok] lj by (auto simp: jsonify_id)
  note c = commit_locations [OF ok f'_eq all]
  have "map jsonify ?L = ?L"
    using store_ok_locations_json [OF ok] by (intro map_idI) (simp add: jsonify_id)
  then have c1: "locations_in f' uid = ?L @ [body]" using c(1) body by simp
  from ingest_record_Inr [OF rec src]
  obtain latitude longitude acc spd createdAt where
    lat: "js_Number e (getp src ''lat'') = Inr latitude"
    and lng: "js_Number e (getp src ''lng'') = Inr longitude"
    and acc: "opt_number e (getp src ''accuracy'') = Inr acc"
    and spd: "opt_number e (getp src ''speed'') = Inr spd"
    and cre: "(if truthy (getp src ''timestamp'')
            then bindE (js_Number e (getp src ''timestamp'')) (date_iso e)
            else Inr (now_iso e)) = Inr createdAt"
    and loc: "loc = JObj [(''id'', JStr (genId e)),
                      (''petId'', petId),
                      (''label'', js_or (getp payload ''label'') (JStr ''device'')),
                      (''latitude'', JNum latitude),
                      (''longitude'', JNum longitude),
                      (''accuracy'', acc),
                      (''speed'', spd),
                      (''createdAt'', JStr createdAt),
                      (''origin'', JStr ''device''),
                      (''createdBy'', js_or (getp src ''deviceId'')
                                        (js_or (getp src ''code'') (JStr ''unknown''))),
                      (''uid'', JStr uid)]"
    by blast
  have g: "getp body k = jsonify (getp loc k)" for k
    unfolding body loc by (rule getp_jsonify_obj) simp
  have js: "is_json src" using pj src by (simp add: js_or_def)
  have f1: "getp body ''id'' = JStr (genId e)" unfolding g loc by simp
  have f2: "getp body ''petId'' = petId" unfolding g loc using jp by (simp add: jsonify_id)
  have f3: "getp body ''origin'' = JStr ''device''" unfolding g loc by simp
  have f4: "getp body ''createdBy'' =
           (if truthy (getp src ''deviceId'') then getp src ''deviceId'' else getp src ''code'')"
  proof -
    have "getp loc ''createdBy'' =
           (if truthy (getp src ''deviceId'') then getp src ''deviceId'' else getp src ''code'')"
      unfolding loc using id by (auto simp: js_or_def)
    moreover have "is_json (if truthy (getp src ''deviceId'') then getp src ''deviceId'' else getp src ''code'')"
      using id getp_json_or_undef [OF js, of "''deviceId''"] getp_json_or_undef [OF js, of "''code''"]
      by auto
    ultimately show ?thesis unfolding g by (simp add: jsonify_id)
  qed
  have f5: "getp body ''latitude'' = jsonify (JNum latitude)" unfolding g loc by simp
  have f6: "getp body ''longitude'' = jsonify (JNum longitude)" unfolding g loc by simp
  have f7: "getp body ''accuracy'' = jsonify acc" unfolding g loc by simp
  have f8: "getp body ''speed'' = jsonify spd" unfolding g loc by simp
  have f9: "getp body ''createdAt'' = JStr createdAt" unfolding g loc by simp
  have a7: "(if nullish (getp src ''accuracy'') then Inr JUndefined
          else bindE (js_Number e (getp src ''accuracy'')) (\<lambda>n. Inr (jsonify (JNum n))))
           = Inr (getp body ''accuracy'')"
    using opt_number_Inr [OF acc] unfolding f7 by auto
  have a8: "(if nullish (getp src ''speed'') then Inr JUndefined
          else bindE (js_Number e (getp src ''speed'')) (\<lambda>n. Inr (jsonify (JNum n))))
           = Inr (getp body ''speed'')"
    using opt_number_Inr [OF spd] unfolding f8 by auto
  have a9: "(if truthy (getp src ''timestamp'')
          then bindE (js_Number e (getp src ''timestamp'')) (\<lambda>n.
                 bindE (date_iso e n) (\<lambda>s. Inr (JStr s)))
          else Inr (JStr (now_iso e)))
           = Inr (getp body ''createdAt'')"
    using cre unfolding f9 by (auto simp: bindE_Inr_iff split: if_splits)
  have sv: "serve e uid (PostIngest b) (W, f) = Some ((W, f'), Sent 201 body)"
    using un pl ok h by (rule serve_ok)
  show ?thesis
    using sv c1 c(2) f1 f2 res f3 f4 a7 a8 a9 lat lng f5 f6 by simp
qed

theorem C8_ingest_success_witness:
  "unpolluted pristine \<and> plain ''u1'' \<and> store_ok demo_file ''u1'' \<and>
   is_json (JObj [(''code'', JStr ''C1''), (''lat'', JNum (Fin 1)), (''lng'', JNum (Fin 2)),
       (''accuracy'', JNum (Fin 3)), (''timestamp'', JNum (Fin (1 / 2)))]) \<and>
   serve demo_env ''u1''
     (PostIngest (Body (JObj [(''code'', JStr ''C1''), (''lat'', JNum (Fin 1)), (''lng'', JNum (Fin 2)),
       (''accuracy'', JNum (Fin 3)), (''timestamp'', JNum (Fin (1 / 2)))])))
     (pristine, demo_file)
   = Some ((pristine,
            demo_store
              [demo_loc_a, demo_loc_b,
               JObj [(''id'', JStr ''loc_lqu5k5c0_4fzyo8''), (''petId'', JStr ''P1''),
               (''label'', JStr ''device''), (''latitude'', JNum (Fin 1)),
               (''longitude'', JNum (Fin 2)), (''accuracy'', JNum (Fin 3)),
               (''createdAt'', JStr ''1970-01-01T00:00:00.000Z''),
               (''origin'', JStr ''device''), (''createdBy'', JStr ''C1''),
               (''uid'', JStr ''u1'')]]
              [demo_dev_1, demo_dev_2]),
           Sent 201 (JObj [(''id'', JStr ''loc_lqu5k5c0_4fzyo8''), (''petId'', JStr ''P1''),
               (''label'', JStr ''device''), (''latitude'', JNum (Fin 1)),
               (''longitude'', JNum (Fin 2)), (''accuracy'', JNum (Fin 3)),
               (''createdAt'', JStr ''1970-01-01T00:00:00.000Z''),
               (''origin'', JStr ''device''), (''createdBy'', JStr ''C1''),
               (''uid'', JStr ''u1'')])) \<and>
   locations_in (demo_store
        [demo_loc_a, demo_loc_b,
         JObj [(''id'', JStr ''loc_lqu5k5c0_4fzyo8''), (''petId'', JStr ''P1''),
               (''label'', JStr ''device''), (''latitude'', JNum (Fin 1)),
               (''longitude'', JNum (Fin 2)), (''accuracy'', JNum (Fin 3)),
               (''createdAt'', JStr ''1970-01-01T00:00:00.000Z''),
               (''origin'', JStr ''device''), (''createdBy'', JStr ''C1''),
               (''uid'', JStr ''u1'')]]
        [demo_dev_1, demo_dev_2]) ''u1''
   = locations_in demo_file ''u1''
     @ [JObj [(''id'', JStr ''loc_lqu5k5c0_4fzyo8''), (''petId'', JStr ''P1''),
               (''label'', JStr ''device''), (''latitude'', JNum (Fin 1)),
               (''longitude'', JNum (Fin 2)), (''accuracy'', JNum (Fin 3)),
               (''createdAt'', JStr ''1970-01-01T00:00:00.000Z''),
               (''origin'', JStr ''device''), (''createdBy'', JStr ''C1''),
               (''uid'', JStr ''u1'')]]"
proof -
  let ?P = "JObj [(''code'', JStr ''C1''), (''lat'', JNum (Fin 1)), (''lng'', JNum (Fin 2)),
       (''accuracy'', JNum (Fin 3)), (''timestamp'', JNum (Fin (1 / 2)))]"
  have u: "unpolluted pristine" by simp
  have pl: "plain ''u1''" by (simp add: plain_def object_prototype_names_def)
  have s: "store_ok demo_file ''u1''" by (simp add: store_defs)
  have p: "parseBody (Body ?P) = Inr ?P" by (simp add: parseBody_def)
  have j: "is_json ?P" by simp
  have h: "handle demo_env ''u1'' (PostIngest (Body ?P)) demo_file
   = (demo_store
        [demo_loc_a, demo_loc_b,
         JObj [(''id'', JStr ''loc_lqu5k5c0_4fzyo8''), (''petId'', JStr ''P1''),
               (''label'', JStr ''device''), (''latitude'', JNum (Fin 1)),
               (''longitude'', JNum (Fin 2)), (''accuracy'', JNum (Fin 3)),
               (''createdAt'', JStr ''1970-01-01T00:00:00.000Z''),
               (''origin'', JStr ''device''), (''createdBy'', JStr ''C1''),
               (''uid'', JStr ''u1'')]]
        [demo_dev_1, demo_dev_2],
      Sent 201 (JObj [(''id'', JStr ''loc_lqu5k5c0_4fzyo8''), (''petId'', JStr ''P1''),
               (''label'', JStr ''device''), (''latitude'', JNum (Fin 1)),
               (''longitude'', JNum (Fin 2)), (''accuracy'', JNum (Fin 3)),
               (''createdAt'', JStr ''1970-01-01T00:00:00.000Z''),
               (''origin'', JStr ''device''), (''createdBy'', JStr ''C1''),
               (''uid'', JStr ''u1'')]))"
    by (simp add: store_defs route_defs)
  from C8_ingest_success_appends_one_record [OF u pl s p j refl h] u pl s j
  show ?thesis by blast
qed

theorem C8_counterexample:
  "getp (JObj [(''code'', JStr ''C1''), (''lat'', JNum (Fin 1)), (''lng'', JNum (Fin 2)),
       (''timestamp'', JNum (Fin 0))]) ''timestamp'' = JNum (Fin 0) \<and>
   bindE (js_Number demo_env (JNum (Fin 0))) (date_iso demo_env) = Inr ''1970-01-01T00:00:00.000Z'' \<and>
   now_iso demo_env = ''2024-01-01T00:00:00.000Z'' \<and>
   serve demo_env ''u1''
     (PostIngest (Body (JObj [(''code'', JStr ''C1''), (''lat'', JNum (Fin 1)), (''lng'', JNum (Fin 2)),
       (''timestamp'', JNum (Fin 0))])))
     (pristine, demo_file)
   = Some ((pristine,
            demo_store
              [demo_loc_a, demo_loc_b,
               JObj [(''id'', JStr ''loc_lqu5k5c0_4fzyo8''), (''petId'', JStr ''P1''),
               (''label'', JStr ''device''), (''latitude'', JNum (Fin 1)),
               (''longitude'', JNum (Fin 2)),
               (''createdAt'', JStr ''2024-01-01T00:00:00.000Z''),
               (''origin'', JStr ''device''), (''createdBy'', JStr ''C1''),
               (''uid'', JStr ''u1'')]]
              [demo_dev_1, demo_dev_2]),
           Sent 201 (JObj [(''id'', JStr ''loc_lqu5k5c0_4fzyo8''), (''petId'', JStr ''P1''),
               (''label'', JStr ''device''), (''latitude'', JNum (Fin 1)),
               (''longitude'', JNum (Fin 2)),
               (''createdAt'', JStr ''2024-01-01T00:00:00.000Z''),
               (''origin'', JStr ''device''), (''createdBy'', JStr ''C1''),
               (''uid'', JStr ''u1'')]))"
proof -
  let ?P = "JObj [(''code'', JStr ''C1''), (''lat'', JNum (Fin 1)), (''lng'', JNum (Fin 2)),
       (''timestamp'', JNum (Fin 0))]"
  have pl: "plain ''u1''" by (simp add: plain_def object_prototype_names_def)
  have s: "store_ok demo_file ''u1''" by (simp add: store_defs)
  have h: "handle demo_env ''u1'' (PostIngest (Body ?P)) demo_file
   = (demo_store
        [demo_loc_a, demo_loc_b,
         JObj [(''id'', JStr ''loc_lqu5k5c0_4fzyo8''), (''petId'', JStr ''P1''),
               (''label'', JStr ''device''), (''latitude'', JNum (Fin 1)),
               (''longitude'', JNum (Fin 2)),
               (''createdAt'', JStr ''2024-01-01T00:00:00.000Z''),
               (''origin'', JStr ''device''), (''createdBy'', JStr ''C1''),
               (''uid'', JStr ''u1'')]]
        [demo_dev_1, demo_dev_2],
      Sent 201 (JObj [(''id'', JStr ''loc_lqu5k5c0_4fzyo8''), (''petId'', JStr ''P1''),
               (''label'', JStr ''device''), (''latitude'', JNum (Fin 1)),
               (''longitude'', JNum (Fin 2)),
               (''createdAt'', JStr ''2024-01-01T00:00:00.000Z''),
               (''origin'', JStr ''device''), (''createdBy'', JStr ''C1''),
               (''uid'', JStr ''u1'')]))"
    by (simp add: store_defs route_defs)
  show ?thesis
    using serve_ok [OF unpolluted_pristine pl s h]
    by (simp add: js_Number_def date_iso_def trunc_def demo_env_def)
qed

text \<open>
  C7 (as amended). In a process whose \<^verbatim>\<open>Object.prototype\<close> no request has assigned to,
  for a tenant identifier that is not a property name of \<^verbatim>\<open>Object.prototype\<close>, on a
  well-shaped store, a delete-by-scope call is served and leaves the process and the
  tenant's devices as they were. With a non-empty \<^verbatim>\<open>petId\<close>, when \<^verbatim>\<open>String(l.petId)\<close>
  is defined for every stored location \<open>l\<close> of the tenant, it removes exactly the
  locations whose \<^verbatim>\<open>petId\<close> prints as that string, keeps the others as they are and in
  their order, and answers 200 with the number removed. With a non-empty \<^verbatim>\<open>petId\<close>,
  when some stored \<^verbatim>\<open>petId\<close> cannot be printed (an object with a member \<^verbatim>\<open>toString\<close>,
  which an upsert can store), the call throws a TypeError: it is answered 400, nothing is
  written and the locations are the same. With the \<^verbatim>\<open>petId\<close> omitted or empty, it
  leaves the tenant without locations and answers 200 with their number.
\<close>

theorem C7_delete_by_scope:
  assumes un: "unpolluted W" and pl: "plain uid"
    and ok: "store_ok f uid"
    and ls: "ls = locations_in f uid"
    and res: "handle e uid (DeleteLocalizacaoScope q) f = (f', resp)"
  shows
    "serve e uid (DeleteLocalizacaoScope q) (W, f) = Some ((W, f'), resp) \<and>
     (q = Some p \<and> p \<noteq> [] \<and> list_all (petId_prints e) ls \<longrightarrow>
        locations_in f' uid = filter (\<lambda>l. petId_string e l \<noteq> p) ls \<and>
        devices_in f' uid = devices_in f uid \<and>
        resp = Sent 200 (JObj [(''ok'', JBool True),
                 (''deleted'', JNum (Fin (of_nat (length (filter (\<lambda>l. petId_string e l = p) ls))))),
                 (''scope'', JObj [(''petId'', JStr p)])])) \<and>
     (q = Some p \<and> p \<noteq> [] \<and> \<not> list_all (petId_prints e) ls \<longrightarrow>
        resp = Caught TypeError \<and> f' = ensureDataFile f \<and>
        locations_in f' uid = ls \<and> devices_in f' uid = devices_in f uid) \<and>
     (q = None \<or> q = Some [] \<longrightarrow>
        locations_in f' uid = [] \<and>
        devices_in f' uid = devices_in f uid \<and>
        resp = Sent 200 (JObj [(''ok'', JBool True),
                 (''deleted'', JNum (Fin (of_nat (length ls)))),
                 (''scope'', JStr ''all'')]))"
proof (intro conjI impI)
  show "serve e uid (DeleteLocalizacaoScope q) (W, f) = Some ((W, f'), resp)"
    using un pl ok res by (rule serve_ok)
next
  assume h: "q = Some p \<and> p \<noteq> [] \<and> \<not> list_all (petId_prints e) ls"
  then have hq: "q = Some p" "p \<noteq> []"
    and np: "\<not> list_all (petId_prints e) (locations_in f uid)"
    using ls by simp_all
  have "handle e uid (DeleteLocalizacaoScope q) f = (ensureDataFile f, Caught TypeError)"
    by (rule scope_throws [OF ok hq np])
  then have r: "resp = Caught TypeError" "f' = ensureDataFile f" using res by simp_all
  show "resp = Caught TypeError" by (rule r(1))
  show "f' = ensureDataFile f" by (rule r(2))
  show "locations_in f' uid = ls" unfolding r(2) ls by (rule locations_in_ensure)
  show "devices_in f' uid = devices_in f uid" unfolding r(2) by (rule devices_in_ensure)
next
  assume h: "q = Some p \<and> p \<noteq> [] \<and> list_all (petId_prints e) ls"
  then have t: "truthy (qparam q)" by (simp add: qparam_def)
  let ?kept = "filter (\<lambda>l. petId_string e l \<noteq> p) ls"
  have pr: "truthy (qparam q) \<longrightarrow> list_all (petId_prints e) (locations_in f uid)"
    using h ls by simp
  note sh = scope_handle [OF ok pr pl, unfolded res ls [symmetric]]
  have f': "f' = Parsed (jsonify (put_tenant (load f) uid (setp (tenant_in f uid) ''locations''
         (JArr ?kept []))))"
    using sh t h by (simp del: jsonify.simps)
  have all: "\<forall>x \<in> set ?kept. is_json x"
    using store_ok_locations_json [OF ok] ls by simp
  note c = commit_locations [OF ok f' json_commit [OF all]]
  show "locations_in f' uid = ?kept" using c(1) map_jsonify_id [OF all] by simp
  show "devices_in f' uid = devices_in f uid" by (rule c(2))
  have "length ls - length ?kept = length (filter (\<lambda>l. petId_string e l = p) ls)"
    using sum_length_filter_compl [of "\<lambda>l. petId_string e l = p" ls] by simp
  then show "resp = Sent 200 (JObj [(''ok'', JBool True),
                 (''deleted'', JNum (Fin (of_nat (length (filter (\<lambda>l. petId_string e l = p) ls))))),
                 (''scope'', JObj [(''petId'', JStr p)])])"
    using sh t h by (simp add: qparam_def)
next
  assume h: "q = None \<or> q = Some []"
  then have t: "\<not> truthy (qparam q)" by (auto simp: qparam_def)
  have pr: "truthy (qparam q) \<longrightarrow> list_all (petId_prints e) (locations_in f uid)"
    using t by simp
  note sh = scope_handle [OF ok pr pl, unfolded res ls [symmetric]]
  have f': "f' = Parsed (jsonify (put_tenant (load f) uid (setp (tenant_in f uid) ''locations''
         (JArr [] []))))"
    using sh t by (simp del: jsonify.simps)
  have all: "\<forall>x \<in> set ([] :: jsval list). is_json x" by simp
  note c = commit_locations [OF ok f' json_commit [OF all]]
  show "locations_in f' uid = []" using c(1) by simp
  show "devices_in f' uid = devices_in f uid" by (rule c(2))
  show "resp = Sent 200 (JObj [(''ok'', JBool True),
                 (''deleted'', JNum (Fin (of_nat (length ls)))),
                 (''scope'', JStr ''all'')])"
    using sh t by simp
qed

theorem C7_delete_by_scope_witness:
  "unpolluted pristine \<and> plain ''u1'' \<and> store_ok demo_file ''u1'' \<and>
   locations_in demo_file ''u1'' = [demo_loc_a, demo_loc_b] \<and>
   list_all (petId_prints demo_env) [demo_loc_a, demo_loc_b] \<and>
   serve demo_env ''u1'' (DeleteLocalizacaoScope (Some ''P1'')) (pristine, demo_file)
     = Some ((pristine, demo_store [demo_loc_b] [demo_dev_1, demo_dev_2]),
             Sent 200 (JObj [(''ok'', JBool True), (''deleted'', JNum (Fin 1)),
                             (''scope'', JObj [(''petId'', JStr ''P1'')])])) \<and>
   locations_in (demo_store [demo_loc_b] [demo_dev_1, demo_dev_2]) ''u1''
     = filter (\<lambda>l. petId_string demo_env l \<noteq> ''P1'') [demo_loc_a, demo_loc_b] \<and>
   serve demo_env ''u1'' (DeleteLocalizacaoScope None) (pristine, demo_file)
     = Some ((pristine, demo_store [] [demo_dev_1, demo_dev_2]),
             Sent 200 (JObj [(''ok'', JBool True), (''deleted'', JNum (Fin 2)),
                             (''scope'', JStr ''all'')])) \<and>
   locations_in (demo_store [] [demo_dev_1, demo_dev_2]) ''u1'' = [] \<and>
   store_ok (demo_store [demo_loc_a, JObj [(''id'', JStr ''c''), (''petId'', JObj [(''toString'', JNum (Fin 1))])]] []) ''u1'' \<and>
   locations_in (demo_store [demo_loc_a, JObj [(''id'', JStr ''c''), (''petId'', JObj [(''toString'', JNum (Fin 1))])]] []) ''u1''
     = [demo_loc_a, JObj [(''id'', JStr ''c''), (''petId'', JObj [(''toString'', JNum (Fin 1))])]] \<and>
   \<not> list_all (petId_prints demo_env)
       [demo_loc_a, JObj [(''id'', JStr ''c''), (''petId'', JObj [(''toString'', JNum (Fin 1))])]] \<and>
   serve demo_env ''u1'' (DeleteLocalizacaoScope (Some ''P1''))
       (pristine, demo_store [demo_loc_a, JObj [(''id'', JStr ''c''), (''petId'', JObj [(''toString'', JNum (Fin 1))])]] [])
     = Some ((pristine, demo_store [demo_loc_a, JObj [(''id'', JStr ''c''), (''petId'', JObj [(''toString'', JNum (Fin 1))])]] []),
             Caught TypeError)"
proof -
  let ?G = "demo_store [demo_loc_a, JObj [(''id'', JStr ''c''), (''petId'', JObj [(''toString'', JNum (Fin 1))])]] []"
  have u: "unpolluted pristine" by simp
  have pl: "plain ''u1''" by (simp add: plain_def object_prototype_names_def)
  have s: "store_ok demo_file ''u1''" by (simp add: store_defs)
  have l: "locations_in demo_file ''u1'' = [demo_loc_a, demo_loc_b]" by (simp add: store_defs)
  have pp: "list_all (petId_prints demo_env) [demo_loc_a, demo_loc_b]"
    by (simp add: petId_prints_def)
  have h1: "handle demo_env ''u1'' (DeleteLocalizacaoScope (Some ''P1'')) demo_file
     = (demo_store [demo_loc_b] [demo_dev_1, demo_dev_2],
        Sent 200 (JObj [(''ok'', JBool True), (''deleted'', JNum (Fin 1)),
                        (''scope'', JObj [(''petId'', JStr ''P1'')])]))"
    by (simp add: store_defs route_defs)
  have h2: "handle demo_env ''u1'' (DeleteLocalizacaoScope None) demo_file
     = (demo_store [] [demo_dev_1, demo_dev_2],
        Sent 200 (JObj [(''ok'', JBool True), (''deleted'', JNum (Fin 2)),
                        (''scope'', JStr ''all'')]))"
    by (simp add: store_defs route_defs)
  have s3: "store_ok ?G ''u1''" by (simp add: store_defs)
  have l3: "locations_in ?G ''u1''
     = [demo_loc_a, JObj [(''id'', JStr ''c''), (''petId'', JObj [(''toString'', JNum (Fin 1))])]]"
    by (simp add: store_defs)
  have np: "\<not> list_all (petId_prints demo_env)
       [demo_loc_a, JObj [(''id'', JStr ''c''), (''petId'', JObj [(''toString'', JNum (Fin 1))])]]"
    by (simp add: petId_prints_def)
  have h3: "handle demo_env ''u1'' (DeleteLocalizacaoScope (Some ''P1'')) ?G = (?G, Caught TypeError)"
    by (simp add: store_defs route_defs)
  note a = C7_delete_by_scope [OF u pl s l [symmetric] h1, of "''P1''"]
  note b = C7_delete_by_scope [OF u pl s l [symmetric] h2, of "''P1''"]
  note c = C7_delete_by_scope [OF u pl s3 l3 [symmetric] h3, of "''P1''"]
  show ?thesis
    using a b c u pl s l pp s3 l3 np by simp
qed

theorem C7_counterexample:
  "locations_in demo_file ''u1'' = [demo_loc_a, demo_loc_b] \<and>
   petId_string demo_env demo_loc_a = ''P1'' \<and>
   petId_string demo_env demo_loc_b = ''P2'' \<and>
   serve demo_env ''u1'' (DeleteLocalizacaoScope (Some '''')) (pristine, demo_file)
     = Some ((pristine, demo_store [] [demo_dev_1, demo_dev_2]),
             Sent 200 (JObj [(''ok'', JBool True), (''deleted'', JNum (Fin 2)),
                             (''scope'', JStr ''all'')])) \<and>
   locations_in (demo_store [] [demo_dev_1, demo_dev_2]) ''u1'' = []"
proof -
  have pl: "plain ''u1''" by (simp add: plain_def object_prototype_names_def)
  have s: "store_ok demo_file ''u1''" by (simp add: store_defs)
  have h: "handle demo_env ''u1'' (DeleteLocalizacaoScope (Some '''')) demo_file
     = (demo_store [] [demo_dev_1, demo_dev_2],
        Sent 200 (JObj [(''ok'', JBool True), (''deleted'', JNum (Fin 2)),
                        (''scope'', JStr ''all'')]))"
    by (simp add: store_defs route_defs)
  show ?thesis
    using serve_ok [OF unpolluted_pristine pl s h]
    by (simp add: store_defs petId_string_def)
qed







end
